(* ===== verification/SNG_Prelude.thy ===== *)
theory SNG_Prelude
  imports Main "HOL-Library.Word"
begin

text \<open>
  Shared vocabulary of the development: the machine integers of the Rust sources,
  the fragments of the Rust standard library the components use (saturating and
  checked arithmetic, ASCII case folding, trimming, prefix and suffix stripping, big-endian
  bytes), the state-and-result monad in which the stateful services are written,
  and a small total-correctness calculus for it.
\<close>

named_theorems act_simps \<open>unfolding rules of the state-and-result monad\<close>
named_theorems triple_rules \<open>structural rules of the triple calculus\<close>

section \<open>Machine integers\<close>

type_synonym u8 = "8 word"
type_synonym u16 = "16 word"
type_synonym u32 = "32 word"
type_synonym u64 = "64 word"
type_synonym bytes = "u8 list"

text \<open>\<open>uN::saturating_add\<close> and \<open>uN::checked_add\<close>.\<close>

definition saturating_add :: "'a::len word \<Rightarrow> 'a word \<Rightarrow> 'a word" where
  "saturating_add a b = (if unat a + unat b < 2 ^ LENGTH('a) then a + b else - 1)"

definition checked_add :: "'a::len word \<Rightarrow> 'a word \<Rightarrow> 'a word option" where
  "checked_add a b = (if unat a + unat b < 2 ^ LENGTH('a) then Some (a + b) else None)"

definition saturating_sub :: "'a::len word \<Rightarrow> 'a word \<Rightarrow> 'a word" where
  "saturating_sub a b = (if b \<le> a then a - b else 0)"

lemma unat_saturating_sub: "unat (saturating_sub a (b :: 'a::len word)) = unat a - unat b"
  by (auto simp: saturating_sub_def unat_sub word_le_nat_alt)

lemma unat_add_no_overflow:
  fixes a b :: "'a::len word"
  assumes "unat a + unat b < 2 ^ LENGTH('a)"
  shows "unat (a + b) = unat a + unat b"
  using assms by (simp add: unat_word_ariths)

lemma unat_max_word: "unat (- 1 :: 'a::len word) = 2 ^ LENGTH('a) - 1"
  by (simp add: unsigned_minus_1_eq_mask mask_eq_exp_minus_1)

lemma unat_of_nat_less: "n < 2 ^ LENGTH('a) \<Longrightarrow> unat (of_nat n :: 'a::len word) = n"
  by (simp add: unsigned_of_nat take_bit_nat_eq_self)

lemma unat_saturating_add:
  "unat (saturating_add (a :: 'a::len word) b) = min (unat a + unat b) (2 ^ LENGTH('a) - 1)"
  by (auto simp: saturating_add_def unat_add_no_overflow unat_max_word min_def)

lemma checked_add_Some:
  "checked_add a b = Some c \<longleftrightarrow>
     unat a + unat b < 2 ^ LENGTH('a::len) \<and> c = a + (b :: 'a word)"
  by (auto simp: checked_add_def)

lemma unat_checked_add:
  "checked_add a b = Some c \<Longrightarrow> unat c = unat a + unat (b :: 'a::len word)"
  by (auto simp: checked_add_Some unat_add_no_overflow)

lemma saturating_add_mono:
  "a \<le> c \<Longrightarrow> saturating_add a b \<le> saturating_add c (b :: 'a::len word)"
  by (auto simp: word_le_nat_alt unat_saturating_add)

lemma unat_less_max:
  assumes "a \<noteq> - 1"
  shows "unat (a :: 'a::len word) < 2 ^ LENGTH('a) - 1"
proof -
  from assms have "unat a \<noteq> 2 ^ LENGTH('a) - 1"
    by (metis unat_max_word word_unat_eq_iff)
  moreover have "unat a < 2 ^ LENGTH('a)" by simp
  ultimately show ?thesis by linarith
qed

lemma unat_saturating_add_one:
  "a \<noteq> - 1 \<Longrightarrow> unat (saturating_add a (1 :: 'a::len word)) = unat a + 1"
  using unat_less_max [of a] by (simp add: unat_saturating_add)

lemma saturating_add_one_gt: "a \<noteq> - 1 \<Longrightarrow> a < saturating_add a (1 :: 'a::len word)"
  by (simp add: word_less_nat_alt unat_saturating_add_one)

lemma u8_not_one: "(w = 0 \<or> w > 1) \<longleftrightarrow> w \<noteq> (1::u8)"
proof -
  have z: "w = 0 \<longleftrightarrow> unat w = 0" by (rule unat_eq_0 [symmetric])
  have o: "w = 1 \<longleftrightarrow> unat w = 1" by (metis unat_1 word_unat_eq_iff)
  have l: "w > 1 \<longleftrightarrow> unat w > 1" by (simp only: word_less_nat_alt unat_1)
  show ?thesis unfolding z o l by linarith
qed

text \<open>Big-endian encoding, \<open>to_be_bytes\<close> and \<open>from_be_bytes\<close>.\<close>

definition be16 :: "u16 \<Rightarrow> bytes" where
  "be16 w = [ucast (drop_bit 8 w), ucast w]"

definition from_be16 :: "u8 \<Rightarrow> u8 \<Rightarrow> u16" where
  "from_be16 a b = push_bit 8 (ucast a) + ucast b"

definition be32 :: "u32 \<Rightarrow> bytes" where
  "be32 w = [ucast (drop_bit 24 w), ucast (drop_bit 16 w), ucast (drop_bit 8 w), ucast w]"

definition from_be32 :: "u8 \<Rightarrow> u8 \<Rightarrow> u8 \<Rightarrow> u8 \<Rightarrow> u32" where
  "from_be32 a b c d =
     push_bit 24 (ucast a) + push_bit 16 (ucast b) + push_bit 8 (ucast c) + ucast d"

lemma unat_u8_less: "unat (a :: u8) < 256"
  using unsigned_less [where w = a and ?'a = nat] by simp

lemma unat_u16_less: "unat (a :: u16) < 65536"
  using unsigned_less [where w = a and ?'a = nat] by simp

lemma unat_u32_less: "unat (a :: u32) < 4294967296"
  using unsigned_less [where w = a and ?'a = nat] by simp

lemma unat_from_be16: "unat (from_be16 a b) = 256 * unat a + unat b"
  using unat_u8_less [of a] unat_u8_less [of b]
  by (simp add: from_be16_def unat_word_ariths push_bit_eq_mult unsigned_ucast_eq take_bit_eq_mod)

lemma unat_from_be32:
  "unat (from_be32 a b c d) = 16777216 * unat a + 65536 * unat b + 256 * unat c + unat d"
  using unat_u8_less [of a] unat_u8_less [of b] unat_u8_less [of c] unat_u8_less [of d]
  by (simp add: from_be32_def unat_word_ariths push_bit_eq_mult unsigned_ucast_eq take_bit_eq_mod)

lemma unat_drop_bit: "unat (drop_bit n (w :: 'a::len word)) = unat w div 2 ^ n"
  by (simp only: unat_drop_bit_eq drop_bit_eq_div [of n "unat w"])

lemma base256_split:
  fixes n :: nat
  shows "n = 16777216 * (n div 16777216) + 65536 * (n div 65536 mod 256)
    + 256 * (n div 256 mod 256) + n mod 256"
proof -
  have "n = 256 * (256 * (256 * (n div 256 div 256 div 256) + n div 256 div 256 mod 256)
      + n div 256 mod 256) + n mod 256"
    by simp
  then show ?thesis
    by (simp add: div_mult2_eq [symmetric] algebra_simps)
qed

lemma from_be16_be16 [simp]:
  "from_be16 (ucast (drop_bit 8 w)) (ucast w) = w"
proof -
  have "unat w div 256 < 256" using unat_u16_less [of w] by simp
  then have "unat (from_be16 (ucast (drop_bit 8 w)) (ucast w)) = unat w"
    by (simp add: unat_from_be16 unsigned_ucast_eq take_bit_eq_mod unat_drop_bit)
  then show ?thesis by (simp add: word_unat_eq_iff)
qed

lemma from_be32_be32 [simp]:
  "from_be32 (ucast (drop_bit 24 w)) (ucast (drop_bit 16 w)) (ucast (drop_bit 8 w)) (ucast w) = w"
proof -
  have "unat w div 16777216 < 256" using unat_u32_less [of w] by simp
  then have "unat (from_be32 (ucast (drop_bit 24 w)) (ucast (drop_bit 16 w))
      (ucast (drop_bit 8 w)) (ucast w)) = unat w"
    using base256_split [of "unat w"]
    by (simp add: unat_from_be32 unsigned_ucast_eq take_bit_eq_mod unat_drop_bit)
  then show ?thesis by (simp add: word_unat_eq_iff)
qed

section \<open>Strings\<close>

text \<open>
  A Rust \<open>str\<close> is its UTF-8 bytes, one \<^typ>\<open>char\<close> each; the operations below act on
  bytes in the standard library too.
\<close>

definition ascii_lower :: "char \<Rightarrow> char" where
  "ascii_lower c =
     (if 65 \<le> (of_char c :: nat) \<and> (of_char c :: nat) \<le> 90
      then char_of ((of_char c :: nat) + 32) else c)"

definition to_ascii_lowercase :: "string \<Rightarrow> string" where
  "to_ascii_lowercase s = map ascii_lower s"

definition ascii_upper :: "char \<Rightarrow> char" where
  "ascii_upper c =
     (if 97 \<le> (of_char c :: nat) \<and> (of_char c :: nat) \<le> 122
      then char_of ((of_char c :: nat) - 32) else c)"

definition to_ascii_uppercase :: "string \<Rightarrow> string" where
  "to_ascii_uppercase s = map ascii_upper s"

definition eq_ignore_ascii_case :: "string \<Rightarrow> string \<Rightarrow> bool" where
  "eq_ignore_ascii_case a b \<longleftrightarrow> to_ascii_lowercase a = to_ascii_lowercase b"

text \<open>
  A \<open>str\<close> is its UTF-8 bytes, one \<open>char\<close> each. \<open>white_space\<close> holds the encodings of the characters with
  the Unicode property \<open>White_Space\<close>; \<open>trim\<close> is \<open>str::trim\<close>.
\<close>

definition white_space :: "string list" where
  "white_space =
     [[CHR 0x09], [CHR 0x0A], [CHR 0x0B], [CHR 0x0C], [CHR 0x0D], [CHR 0x20],
      [CHR 0xC2, CHR 0x85], [CHR 0xC2, CHR 0xA0], [CHR 0xE1, CHR 0x9A, CHR 0x80],
      [CHR 0xE2, CHR 0x80, CHR 0x80], [CHR 0xE2, CHR 0x80, CHR 0x81],
      [CHR 0xE2, CHR 0x80, CHR 0x82], [CHR 0xE2, CHR 0x80, CHR 0x83],
      [CHR 0xE2, CHR 0x80, CHR 0x84], [CHR 0xE2, CHR 0x80, CHR 0x85],
      [CHR 0xE2, CHR 0x80, CHR 0x86], [CHR 0xE2, CHR 0x80, CHR 0x87],
      [CHR 0xE2, CHR 0x80, CHR 0x88], [CHR 0xE2, CHR 0x80, CHR 0x89],
      [CHR 0xE2, CHR 0x80, CHR 0x8A], [CHR 0xE2, CHR 0x80, CHR 0xA8],
      [CHR 0xE2, CHR 0x80, CHR 0xA9], [CHR 0xE2, CHR 0x80, CHR 0xAF],
      [CHR 0xE2, CHR 0x81, CHR 0x9F], [CHR 0xE3, CHR 0x80, CHR 0x80]]"

fun trim_start_matches :: "string list \<Rightarrow> string \<Rightarrow> string" where
  "trim_start_matches ws [] = []"
| "trim_start_matches ws (c # s) =
     (case List.find (\<lambda>w. w \<noteq> [] \<and> take (length w) (c # s) = w) ws of
        None \<Rightarrow> c # s
      | Some w \<Rightarrow> trim_start_matches ws (drop (length w - 1) s))"

definition trim_start :: "string \<Rightarrow> string" where
  "trim_start s = trim_start_matches white_space s"

definition trim_end :: "string \<Rightarrow> string" where
  "trim_end s = rev (trim_start_matches (map rev white_space) (rev s))"

definition trim :: "string \<Rightarrow> string" where
  "trim s = trim_end (trim_start s)"

lemma trim_Nil [simp]: "trim [] = []"
  by (simp add: trim_def trim_start_def trim_end_def)

text \<open>Decimal printing of unsigned integers, as \<open>Display\<close> does it.\<close>

fun decimal :: "nat \<Rightarrow> string" where
  "decimal n = (if n < 10 then [char_of (48 + n)] else decimal (n div 10) @ [char_of (48 + n mod 10)])"

declare decimal.simps [simp del]

text \<open>Hexadecimal digits, as \<open>{:x}\<close> and \<open>{:X}\<close> print them.\<close>

definition hex_digit :: "nat \<Rightarrow> char" where
  "hex_digit n = (if n < 10 then char_of (48 + n) else char_of (87 + n))"

definition upper_hex_digit :: "nat \<Rightarrow> char" where
  "upper_hex_digit n = (if n < 10 then char_of (48 + n) else char_of (55 + n))"

definition strip_prefix :: "'a list \<Rightarrow> 'a list \<Rightarrow> 'a list option" where
  "strip_prefix p s = (if take (length p) s = p then Some (drop (length p) s) else None)"

definition strip_suffix :: "'a list \<Rightarrow> 'a list \<Rightarrow> 'a list option" where
  "strip_suffix p s = map_option rev (strip_prefix (rev p) (rev s))"

lemma strip_prefix_Some: "strip_prefix p s = Some r \<longleftrightarrow> s = p @ r"
proof
  assume "strip_prefix p s = Some r"
  then have "take (length p) s = p" "drop (length p) s = r"
    by (simp_all add: strip_prefix_def split: if_splits)
  then show "s = p @ r" using append_take_drop_id [of "length p" s] by simp
qed (simp add: strip_prefix_def)

lemma strip_suffix_Some: "strip_suffix p s = Some r \<longleftrightarrow> s = r @ p"
proof -
  have "strip_suffix p s = Some r \<longleftrightarrow> strip_prefix (rev p) (rev s) = Some (rev r)"
    by (auto simp: strip_suffix_def)
  also have "\<dots> \<longleftrightarrow> rev s = rev (r @ p)"
    by (simp only: strip_prefix_Some rev_append)
  finally show ?thesis by (simp only: rev_is_rev_conv)
qed

lemma strip_suffix_None: "strip_suffix p s = None \<longleftrightarrow> (\<forall>r. s \<noteq> r @ p)"
  using strip_suffix_Some [of p s] by (cases "strip_suffix p s") auto

lemma strip_prefix_None: "strip_prefix p s = None \<longleftrightarrow> (\<forall>r. s \<noteq> p @ r)"
  using strip_prefix_Some [of p s] by (cases "strip_prefix p s") auto

lemma ascii_lower_idem [simp]: "ascii_lower (ascii_lower c) = ascii_lower c"
  by (auto simp: ascii_lower_def)

lemma ascii_lower_upper [simp]: "ascii_lower (ascii_upper c) = ascii_lower c"
  by (auto simp: ascii_lower_def ascii_upper_def)

lemma eq_ignore_upper [simp]: "eq_ignore_ascii_case a (to_ascii_uppercase b) = eq_ignore_ascii_case a b"
  by (simp add: eq_ignore_ascii_case_def to_ascii_lowercase_def to_ascii_uppercase_def comp_def)

lemma to_ascii_lowercase_idem [simp]:
  "to_ascii_lowercase (to_ascii_lowercase s) = to_ascii_lowercase s"
  by (simp add: to_ascii_lowercase_def)

lemma length_to_ascii_lowercase [simp]: "length (to_ascii_lowercase s) = length s"
  by (simp add: to_ascii_lowercase_def)

lemma to_ascii_lowercase_eq_Nil [simp]: "to_ascii_lowercase s = [] \<longleftrightarrow> s = []"
  by (simp add: to_ascii_lowercase_def)

section \<open>Durations\<close>

text \<open>A \<open>Duration\<close> and an \<open>Instant\<close> are natural numbers of nanoseconds.\<close>

definition duration_max :: nat where
  "duration_max = (2 ^ 64 - 1) * 1000000000 + 999999999"

definition duration_saturating_mul :: "nat \<Rightarrow> nat \<Rightarrow> nat" where
  "duration_saturating_mul d k = min (d * k) duration_max"

definition from_secs :: "nat \<Rightarrow> nat" where
  "from_secs n = n * 1000000000"

definition from_millis :: "nat \<Rightarrow> nat" where
  "from_millis n = n * 1000000"

definition as_millis :: "nat \<Rightarrow> nat" where
  "as_millis d = d div 1000000"

definition duration_saturating_add :: "nat \<Rightarrow> nat \<Rightarrow> nat" where
  "duration_saturating_add a b = min (a + b) duration_max"

section \<open>Fallible operations\<close>

text \<open>
  A Rust \<open>Result<T, E>\<close> is a value of \<open>'e + 'a\<close>, \<^const>\<open>Inl\<close> being \<open>Err\<close>; \<open>and_then\<close> is the \<open>?\<close>
  operator of a stateless function.
\<close>

fun and_then :: "'e + 'a \<Rightarrow> ('a \<Rightarrow> 'e + 'b) \<Rightarrow> 'e + 'b" where
  "and_then (Inl e) k = Inl e"
| "and_then (Inr x) k = k x"

fun map_err :: "('e \<Rightarrow> 'f) \<Rightarrow> 'e + 'a \<Rightarrow> 'f + 'a" where
  "map_err f (Inl e) = Inl (f e)"
| "map_err f (Inr x) = Inr x"

lemma and_then_Inr: "and_then m k = Inr y \<longleftrightarrow> (\<exists>x. m = Inr x \<and> k x = Inr y)"
  by (cases m) auto

lemma and_then_Inl: "and_then m k = Inl e \<longleftrightarrow> m = Inl e \<or> (\<exists>x. m = Inr x \<and> k x = Inl e)"
  by (cases m) auto

lemma ex_unit: "(\<exists>u::unit. P u) \<longleftrightarrow> P ()"
  by auto

lemma map_err_Inr [simp]: "map_err f m = Inr y \<longleftrightarrow> m = Inr y"
  by (cases m) auto

section \<open>Stateful fallible operations\<close>

text \<open>
  An operation of a service takes the service's state and returns a Rust \<open>Result\<close>
  (\<^const>\<open>Inl\<close> is \<open>Err\<close>) together with the new state; an operation that loops forever gives
  \<^const>\<open>None\<close>. The state written before an early return is kept, as it is in the source.
  \<open>bnd\<close> is the \<open>?\<close> operator; \<open>inspect_err\<close> runs a state update on the error path only;
  \<open>attempt\<close> hands the result, error or not, to what follows.
\<close>

type_synonym ('s, 'e, 'a) act = "'s \<Rightarrow> (('e + 'a) \<times> 's) option"

definition ret :: "'a \<Rightarrow> ('s, 'e, 'a) act" where
  "ret x = (\<lambda>s. Some (Inr x, s))"

definition raise :: "'e \<Rightarrow> ('s, 'e, 'a) act" where
  "raise e = (\<lambda>s. Some (Inl e, s))"

definition modify :: "('s \<Rightarrow> 's) \<Rightarrow> ('s, 'e, unit) act" where
  "modify f = (\<lambda>s. Some (Inr (), f s))"

definition gets :: "('s \<Rightarrow> 'a) \<Rightarrow> ('s, 'e, 'a) act" where
  "gets f = (\<lambda>s. Some (Inr (f s), s))"

definition bnd :: "('s, 'e, 'a) act \<Rightarrow> ('a \<Rightarrow> ('s, 'e, 'b) act) \<Rightarrow> ('s, 'e, 'b) act" where
  "bnd m k = (\<lambda>s. case m s of
     None \<Rightarrow> None | Some (Inl e, s') \<Rightarrow> Some (Inl e, s') | Some (Inr x, s') \<Rightarrow> k x s')"

definition inspect_err :: "('s \<Rightarrow> 's) \<Rightarrow> ('s, 'e, 'a) act \<Rightarrow> ('s, 'e, 'a) act" where
  "inspect_err f m = (\<lambda>s. case m s of
     None \<Rightarrow> None | Some (Inl e, s') \<Rightarrow> Some (Inl e, f s') | Some (Inr x, s') \<Rightarrow> Some (Inr x, s'))"

definition attempt :: "('s, 'e, 'a) act \<Rightarrow> ('e + 'a \<Rightarrow> ('s, 'e, 'b) act) \<Rightarrow> ('s, 'e, 'b) act" where
  "attempt m k = (\<lambda>s. case m s of None \<Rightarrow> None | Some (r, s') \<Rightarrow> k r s')"

lemmas act_defs [act_simps] =
  ret_def raise_def modify_def gets_def bnd_def inspect_err_def attempt_def

subsection \<open>Triples\<close>

text \<open>
  \<open>triple P m Q E\<close>: started in a state satisfying \<open>P\<close>, the operation returns, either \<open>Ok\<close> with
  \<open>Q\<close> or \<open>Err\<close> with \<open>E\<close>. This is total correctness.
\<close>

fun outcome ::
  "('a \<Rightarrow> 's \<Rightarrow> bool) \<Rightarrow> ('e \<Rightarrow> 's \<Rightarrow> bool) \<Rightarrow> (('e + 'a) \<times> 's) option \<Rightarrow> bool" where
  "outcome Q E None = False"
| "outcome Q E (Some (Inl e, s)) = E e s"
| "outcome Q E (Some (Inr x, s)) = Q x s"

definition triple ::
  "('s \<Rightarrow> bool) \<Rightarrow> ('s, 'e, 'a) act \<Rightarrow> ('a \<Rightarrow> 's \<Rightarrow> bool) \<Rightarrow> ('e \<Rightarrow> 's \<Rightarrow> bool) \<Rightarrow> bool" where
  "triple P m Q E \<longleftrightarrow> (\<forall>s. P s \<longrightarrow> outcome Q E (m s))"

lemma act_result_cases [case_names Diverges Err Ok]:
  obtains (Diverges) "r = None" | (Err) e s' where "r = Some (Inl e, s')"
  | (Ok) x s' where "r = Some (Inr x, s')"
  by (metis option.exhaust prod.exhaust sum.exhaust)

lemma outcome_Some: "outcome Q E (Some (r, s)) = (case r of Inl e \<Rightarrow> E e s | Inr x \<Rightarrow> Q x s)"
  by (cases r) simp_all

lemma tripleI: "(\<And>s. P s \<Longrightarrow> outcome Q E (m s)) \<Longrightarrow> triple P m Q E"
  by (simp add: triple_def)

lemma tripleD: "triple P m Q E \<Longrightarrow> P s \<Longrightarrow> outcome Q E (m s)"
  by (simp add: triple_def)

lemma outcome_mono:
  assumes "outcome Q' E' r" "\<And>x s. Q' x s \<Longrightarrow> Q x s" "\<And>e s. E' e s \<Longrightarrow> E e s"
  shows "outcome Q E r"
  using assms by (cases r rule: act_result_cases) simp_all

lemma triple_conseq:
  assumes "triple P' m Q' E'" "\<And>s. P s \<Longrightarrow> P' s"
    "\<And>x s. Q' x s \<Longrightarrow> Q x s" "\<And>e s. E' e s \<Longrightarrow> E e s"
  shows "triple P m Q E"
proof (rule tripleI)
  fix s assume "P s"
  then have "outcome Q' E' (m s)" using assms(1,2) by (blast intro: tripleD)
  then show "outcome Q E (m s)" by (rule outcome_mono) (fact assms(3,4))+
qed

lemma triple_bnd [triple_rules]:
  assumes "triple P m R E" "\<And>x. triple (R x) (k x) Q E"
  shows "triple P (bnd m k) Q E"
proof (rule tripleI)
  fix s assume "P s"
  then have "outcome R E (m s)" using assms(1) by (rule tripleD [rotated])
  then show "outcome Q E (bnd m k s)"
    using tripleD [OF assms(2)] by (cases "m s" rule: act_result_cases) (simp_all add: bnd_def)
qed

lemma triple_attempt:
  assumes "triple P m R F" "\<And>x. triple (R x) (k (Inr x)) Q E" "\<And>e. triple (F e) (k (Inl e)) Q E"
  shows "triple P (attempt m k) Q E"
proof (rule tripleI)
  fix s assume "P s"
  then have "outcome R F (m s)" using assms(1) by (rule tripleD [rotated])
  then show "outcome Q E (attempt m k s)"
    using tripleD [OF assms(2)] tripleD [OF assms(3)]
    by (cases "m s" rule: act_result_cases) (simp_all add: attempt_def)
qed

lemma triple_inspect_err [triple_rules]:
  assumes "triple P m Q (\<lambda>e s. E e (f s))"
  shows "triple P (inspect_err f m) Q E"
proof (rule tripleI)
  fix s assume "P s"
  then have "outcome Q (\<lambda>e s. E e (f s)) (m s)" using assms by (rule tripleD [rotated])
  then show "outcome Q E (inspect_err f m s)"
    by (cases "m s" rule: act_result_cases) (simp_all add: inspect_err_def)
qed

lemma triple_ret [triple_rules]: "(\<And>s. P s \<Longrightarrow> Q x s) \<Longrightarrow> triple P (ret x) Q E"
  by (simp add: triple_def ret_def)

lemma triple_raise [triple_rules]: "(\<And>s. P s \<Longrightarrow> E e s) \<Longrightarrow> triple P (raise e) Q E"
  by (simp add: triple_def raise_def)

lemma triple_modify [triple_rules]: "(\<And>s. P s \<Longrightarrow> Q () (f s)) \<Longrightarrow> triple P (modify f) Q E"
  by (simp add: triple_def modify_def)

lemma triple_gets [triple_rules]: "(\<And>s. P s \<Longrightarrow> Q (f s) s) \<Longrightarrow> triple P (gets f) Q E"
  by (simp add: triple_def gets_def)

lemma triple_if [triple_rules]:
  assumes "c \<Longrightarrow> triple P m Q E" "\<not> c \<Longrightarrow> triple P m' Q E"
  shows "triple P (if c then m else m') Q E"
  using assms by simp

end
