(* ===== verification/Net_Address.thy ===== *)
theory Net_Address
  imports SNG_Prelude
begin

text \<open>
  \<open>std::net::IpAddr\<close> as the enforcement plane uses it: the two address families, the
  derived total order (every IPv4 address is below every IPv6 address), and the
  standard library's textual parser, which the policy evaluator runs on the
  \<open>dst_ip\<close> entry of a flow context.
\<close>

section \<open>Addresses and their order\<close>

datatype ip_addr = V4 u32 | V6 "128 word"

instantiation ip_addr :: linorder
begin

fun less_eq_ip_addr :: "ip_addr \<Rightarrow> ip_addr \<Rightarrow> bool" where
  "less_eq_ip_addr (V4 a) (V4 b) = (a \<le> b)"
| "less_eq_ip_addr (V4 a) (V6 b) = True"
| "less_eq_ip_addr (V6 a) (V4 b) = False"
| "less_eq_ip_addr (V6 a) (V6 b) = (a \<le> b)"

definition less_ip_addr :: "ip_addr \<Rightarrow> ip_addr \<Rightarrow> bool" where
  "less_ip_addr a b = (a \<le> b \<and> \<not> b \<le> a)"

instance
proof
  fix x y z :: ip_addr
  show "x < y \<longleftrightarrow> x \<le> y \<and> \<not> y \<le> x" by (simp add: less_ip_addr_def)
  show "x \<le> x" by (cases x) simp_all
  show "x \<le> y \<Longrightarrow> y \<le> z \<Longrightarrow> x \<le> z" by (cases x; cases y; cases z) simp_all
  show "x \<le> y \<Longrightarrow> y \<le> x \<Longrightarrow> x = y" by (cases x; cases y) simp_all
  show "x \<le> y \<or> y \<le> x" by (cases x; cases y) auto
qed

end

section \<open>The textual parser\<close>

text \<open>
  Recursive descent over the remaining input; a failed sub-parser consumes nothing, as
  \<open>read_atomically\<close> does in the standard library.
\<close>

definition to_digit :: "int \<Rightarrow> char \<Rightarrow> int option" where
  "to_digit radix c =
     (let n = (of_char c :: int);
          d = (if 48 \<le> n \<and> n \<le> 57 then Some (n - 48)
               else if 97 \<le> n \<and> n \<le> 122 then Some (n - 87)
               else if 65 \<le> n \<and> n \<le> 90 then Some (n - 55) else None)
      in case d of Some v \<Rightarrow> if v < radix then Some v else None | None \<Rightarrow> None)"

fun read_digits :: "int \<Rightarrow> int \<Rightarrow> nat \<Rightarrow> string \<Rightarrow> int \<times> nat \<times> string" where
  "read_digits radix result count [] = (result, count, [])"
| "read_digits radix result count (c # cs) =
     (case to_digit radix c of
        Some d \<Rightarrow> read_digits radix (result * radix + d) (Suc count) cs
      | None \<Rightarrow> (result, count, c # cs))"

definition read_number :: "int \<Rightarrow> nat \<Rightarrow> bool \<Rightarrow> int \<Rightarrow> string \<Rightarrow> (int \<times> string) option" where
  "read_number radix max_digits allow_zero_prefix bound s =
     (case read_digits radix 0 0 s of (result, count, rest) \<Rightarrow>
        if count = 0 \<or> max_digits < count then None
        else if \<not> allow_zero_prefix \<and> take 1 s = ''0'' \<and> 1 < count then None
        else if result < bound then Some (result, rest) else None)"

definition read_separator ::
  "char \<Rightarrow> nat \<Rightarrow> (string \<Rightarrow> ('a \<times> string) option) \<Rightarrow> string \<Rightarrow> ('a \<times> string) option" where
  "read_separator sep index inner s =
     (if 0 < index then (case s of c # cs \<Rightarrow> if c = sep then inner cs else None | [] \<Rightarrow> None)
      else inner s)"

definition read_octet :: "nat \<Rightarrow> string \<Rightarrow> (int \<times> string) option" where
  "read_octet index = read_separator CHR ''.'' index (read_number 10 3 False 256)"

definition read_ipv4_addr :: "string \<Rightarrow> (int \<times> string) option" where
  "read_ipv4_addr s =
     (case read_octet 0 s of None \<Rightarrow> None | Some (a, s1) \<Rightarrow>
      (case read_octet 1 s1 of None \<Rightarrow> None | Some (b, s2) \<Rightarrow>
       (case read_octet 2 s2 of None \<Rightarrow> None | Some (c, s3) \<Rightarrow>
        (case read_octet 3 s3 of None \<Rightarrow> None | Some (d, s4) \<Rightarrow>
           Some (((a * 256 + b) * 256 + c) * 256 + d, s4)))))"

text \<open>
  \<open>read_groups index left\<close> reads up to \<open>left\<close> further groups; a trailing embedded IPv4
  address needs room for two. The flag says that one was read.
\<close>

fun read_groups :: "nat \<Rightarrow> nat \<Rightarrow> string \<Rightarrow> int list \<times> bool \<times> string" where
  "read_groups index 0 s = ([], False, s)"
| "read_groups index (Suc left) s =
     (case (if 1 \<le> left then read_separator CHR '':'' index read_ipv4_addr s else None) of
        Some (v4, rest) \<Rightarrow> ([v4 div 65536, v4 mod 65536], True, rest)
      | None \<Rightarrow>
         (case read_separator CHR '':'' index (read_number 16 4 True 65536) s of
            Some (g, rest) \<Rightarrow>
              (case read_groups (Suc index) left rest of (gs, v4, rest') \<Rightarrow> (g # gs, v4, rest'))
          | None \<Rightarrow> ([], False, s)))"

definition groups_value :: "int list \<Rightarrow> int" where
  "groups_value gs = foldl (\<lambda>acc g. acc * 65536 + g) 0 gs"

definition read_ipv6_addr :: "string \<Rightarrow> (int \<times> string) option" where
  "read_ipv6_addr s =
     (case read_groups 0 8 s of (head, head_ipv4, rest) \<Rightarrow>
        if length head = 8 then Some (groups_value head, rest)
        else if head_ipv4 then None
        else (case strip_prefix ''::'' rest of
                None \<Rightarrow> None
              | Some rest' \<Rightarrow>
                 (case read_groups 0 (8 - (length head + 1)) rest' of (tail, _, rest'') \<Rightarrow>
                    Some (groups_value
                      (head @ replicate (8 - length head - length tail) 0 @ tail), rest''))))"

definition parse_ip_addr :: "string \<Rightarrow> ip_addr option" where
  "parse_ip_addr s =
     (case (case read_ipv4_addr s of
              Some (n, rest) \<Rightarrow> Some (V4 (of_int n), rest)
            | None \<Rightarrow> (case read_ipv6_addr s of
                         Some (n, rest) \<Rightarrow> Some (V6 (of_int n), rest)
                       | None \<Rightarrow> None)) of
        Some (a, rest) \<Rightarrow> if rest = [] then Some a else None
      | None \<Rightarrow> None)"

end
