(* ===== verification/Policy_Rule.thy ===== *)
theory Policy_Rule
  imports Net_Address
begin

text \<open>
  The typed rule model of \<open>sng-policy-eval\<close>: verbs, domains, subject and predicate
  matchers, rules, flows and verdicts (\<open>rule.rs\<close>, \<open>matcher.rs\<close>, \<open>flow.rs\<close>,
  \<open>verdict.rs\<close>), with the traffic classes and bundle targets of \<open>sng-core\<close>.
  CIDR ranges are values of the third-party crate \<open>ipnet\<close>: they are a type parameter
  \<open>'net\<close>, and the operations the code calls on them are the fields of \<open>ipnet_ops\<close>.
\<close>

section \<open>Traffic classes and bundle targets\<close>

datatype traffic_class =
  TrustedDirect | TrustedMediaBypass | InspectLite | InspectFull | TunnelPrivate | Block

definition all_traffic_classes :: "traffic_class list" where
  "all_traffic_classes =
     [TrustedDirect, TrustedMediaBypass, InspectLite, InspectFull, TunnelPrivate, Block]"

fun traffic_class_as_str :: "traffic_class \<Rightarrow> string" where
  "traffic_class_as_str TrustedDirect = ''trusted_direct''"
| "traffic_class_as_str TrustedMediaBypass = ''trusted_media_bypass''"
| "traffic_class_as_str InspectLite = ''inspect_lite''"
| "traffic_class_as_str InspectFull = ''inspect_full''"
| "traffic_class_as_str TunnelPrivate = ''tunnel_private''"
| "traffic_class_as_str Block = ''block''"

definition default_conservative :: traffic_class where
  "default_conservative = InspectFull"

datatype unknown_traffic_class = UnknownTrafficClass string

definition traffic_class_from_str :: "string \<Rightarrow> unknown_traffic_class + traffic_class" where
  "traffic_class_from_str s =
     (if s = ''trusted_direct'' then Inr TrustedDirect
      else if s = ''trusted_media_bypass'' then Inr TrustedMediaBypass
      else if s = ''inspect_lite'' then Inr InspectLite
      else if s = ''inspect_full'' then Inr InspectFull
      else if s = ''tunnel_private'' then Inr TunnelPrivate
      else if s = ''block'' then Inr Block
      else Inl (UnknownTrafficClass s))"

datatype bundle_target = Edge | Endpoint | Cloud | Mobile

fun bundle_target_as_str :: "bundle_target \<Rightarrow> string" where
  "bundle_target_as_str Edge = ''edge''"
| "bundle_target_as_str Endpoint = ''endpoint''"
| "bundle_target_as_str Cloud = ''cloud''"
| "bundle_target_as_str Mobile = ''mobile''"

datatype unknown_bundle_target = UnknownBundleTarget string

definition bundle_target_from_str :: "string \<Rightarrow> unknown_bundle_target + bundle_target" where
  "bundle_target_from_str s =
     (if s = ''edge'' then Inr Edge
      else if s = ''endpoint'' then Inr Endpoint
      else if s = ''cloud'' then Inr Cloud
      else if s = ''mobile'' then Inr Mobile
      else Inl (UnknownBundleTarget s))"

section \<open>Verbs, domains, subject kinds\<close>

datatype verb =
  Verb_Allow | Verb_Deny | Verb_Inspect | Verb_Steer | Verb_Decrypt | Verb_Log | Verb_SuggestOnly

fun verb_as_str :: "verb \<Rightarrow> string" where
  "verb_as_str Verb_Allow = ''allow''"
| "verb_as_str Verb_Deny = ''deny''"
| "verb_as_str Verb_Inspect = ''inspect''"
| "verb_as_str Verb_Steer = ''steer''"
| "verb_as_str Verb_Decrypt = ''decrypt''"
| "verb_as_str Verb_Log = ''log''"
| "verb_as_str Verb_SuggestOnly = ''suggest_only''"

datatype enforcement_domain = Ngfw | Swg | Dns | Ztna | Sdwan | Dlp

fun enforcement_domain_as_str :: "enforcement_domain \<Rightarrow> string" where
  "enforcement_domain_as_str Ngfw = ''ngfw''"
| "enforcement_domain_as_str Swg = ''swg''"
| "enforcement_domain_as_str Dns = ''dns''"
| "enforcement_domain_as_str Ztna = ''ztna''"
| "enforcement_domain_as_str Sdwan = ''sdwan''"
| "enforcement_domain_as_str Dlp = ''dlp''"

datatype subject_kind = User | Device | App | Site | Network

fun subject_kind_as_str :: "subject_kind \<Rightarrow> string" where
  "subject_kind_as_str User = ''user''"
| "subject_kind_as_str Device = ''device''"
| "subject_kind_as_str App = ''app''"
| "subject_kind_as_str Site = ''site''"
| "subject_kind_as_str Network = ''network''"

section \<open>Matchers\<close>

record 'net ipnet_ops =
  net_contains :: "'net \<Rightarrow> ip_addr \<Rightarrow> bool"
  net_prefix_len :: "'net \<Rightarrow> u8"
  net_parse :: "string \<Rightarrow> string + 'net"

datatype 'net subject_match =
    Subject_Any
  | Subject_Literal string
  | Subject_AnyOf "string list"
  | Subject_DomainSuffix string
  | Subject_Cidr 'net
  | Subject_Unknown

definition subject_match_default :: "'net subject_match" where
  "subject_match_default = Subject_Any"

definition domain_suffix_match :: "string \<Rightarrow> string \<Rightarrow> bool" where
  "domain_suffix_match suffix0 value =
     (let suffix = (case strip_prefix ''*.'' suffix0 of Some s \<Rightarrow> s | None \<Rightarrow> suffix0) in
      if suffix = [] \<or> value = [] then False
      else
        let value_lc = to_ascii_lowercase value; suffix_lc = to_ascii_lowercase suffix in
        if value_lc = suffix_lc then False
        else (case strip_suffix suffix_lc value_lc of
                None \<Rightarrow> False
              | Some prefix \<Rightarrow>
                 (case strip_suffix ''.'' prefix of
                    None \<Rightarrow> False
                  | Some label \<Rightarrow> label \<noteq> [] \<and> CHR ''.'' \<notin> set label)))"

fun matches_string :: "'net subject_match \<Rightarrow> string \<Rightarrow> bool" where
  "matches_string Subject_Any value = True"
| "matches_string (Subject_Literal lit) value = (lit = value)"
| "matches_string (Subject_AnyOf vs) value = list_ex (\<lambda>v. v = value) vs"
| "matches_string (Subject_DomainSuffix suffix) value = domain_suffix_match suffix value"
| "matches_string (Subject_Cidr _) value = False"
| "matches_string Subject_Unknown value = False"

fun matches_ip :: "'net ipnet_ops \<Rightarrow> 'net subject_match \<Rightarrow> ip_addr \<Rightarrow> bool" where
  "matches_ip nops Subject_Any addr = True"
| "matches_ip nops (Subject_Cidr cidr) addr = net_contains nops cidr addr"
| "matches_ip nops (Subject_Literal _) addr = False"
| "matches_ip nops (Subject_AnyOf _) addr = False"
| "matches_ip nops (Subject_DomainSuffix _) addr = False"
| "matches_ip nops Subject_Unknown addr = False"

datatype 'net predicate_match =
    Pred_Always
  | Pred_ContextEquals string string
  | Pred_ContextIn string "string list"
  | Pred_DstCidr 'net
  | Pred_Unknown

definition predicate_match_default :: "'net predicate_match" where
  "predicate_match_default = Pred_Always"

fun matches_context :: "'net ipnet_ops \<Rightarrow> 'net predicate_match \<Rightarrow> (string \<times> string) list \<Rightarrow> bool" where
  "matches_context nops Pred_Always ctx = True"
| "matches_context nops (Pred_ContextEquals key value) ctx = list_ex (\<lambda>(k, v). k = key \<and> v = value) ctx"
| "matches_context nops (Pred_ContextIn key vals) ctx =
     list_ex (\<lambda>(k, v). k = key \<and> list_ex (\<lambda>w. w = v) vals) ctx"
| "matches_context nops (Pred_DstCidr cidr) ctx =
     list_ex (\<lambda>(k, v). k = ''dst_ip'' \<and>
        (case parse_ip_addr v of Some ip \<Rightarrow> net_contains nops cidr ip | None \<Rightarrow> False)) ctx"
| "matches_context nops Pred_Unknown ctx = False"

fun dst_cidr :: "'net predicate_match \<Rightarrow> 'net option" where
  "dst_cidr (Pred_DstCidr cidr) = Some cidr"
| "dst_cidr _ = None"

section \<open>Vertices, rules, flows, verdicts\<close>

typedecl json_value

record 'net subject =
  subject_name :: string
  subject_kind_of :: subject_kind
  subject_matcher :: "'net subject_match"

record 'net rule_predicate =
  predicate_name :: string
  predicate_matcher :: "'net predicate_match"

record 'net rule =
  rule_id :: string
  rule_domain :: enforcement_domain
  rule_verb :: verb
  suggested_verb :: "verb option"
  subject_refs :: "string list"
  predicate_refs :: "string list"
  subjects :: "'net subject list"
  predicates :: "'net rule_predicate list"
  targets :: "string list"
  description :: string
  extra :: "string \<rightharpoonup> json_value"

definition applies_to_domain :: "'net rule \<Rightarrow> enforcement_domain \<Rightarrow> bool" where
  "applies_to_domain r requested = (rule_domain r = requested)"

record flow =
  flow_domain :: enforcement_domain
  user :: "string option"
  device :: "string option"
  app :: "string option"
  site :: "string option"
  source_ip :: "ip_addr option"
  destination_host :: "string option"
  destination_ip :: "ip_addr option"
  destination_port :: "u16 option"
  flow_context :: "(string \<times> string) list"

definition flow_builder_new :: "enforcement_domain \<Rightarrow> flow" where
  "flow_builder_new d =
     \<lparr>flow_domain = d, user = None, device = None, app = None, site = None, source_ip = None,
      destination_host = None, destination_ip = None, destination_port = None,
      flow_context = []\<rparr>"

datatype inspect_level = Lite | Full

datatype verdict =
    Verdict_Allow
  | Verdict_Deny
  | Verdict_Inspect inspect_level
  | Verdict_Steer traffic_class
  | Verdict_Decrypt
  | Verdict_Log
  | Verdict_SuggestOnly verb

fun from_simple_verb :: "verb \<Rightarrow> verdict option" where
  "from_simple_verb Verb_Allow = Some Verdict_Allow"
| "from_simple_verb Verb_Deny = Some Verdict_Deny"
| "from_simple_verb Verb_Decrypt = Some Verdict_Decrypt"
| "from_simple_verb Verb_Log = Some Verdict_Log"
| "from_simple_verb Verb_Inspect = None"
| "from_simple_verb Verb_Steer = None"
| "from_simple_verb Verb_SuggestOnly = None"

fun is_blocking :: "verdict \<Rightarrow> bool" where
  "is_blocking Verdict_Deny = True"
| "is_blocking _ = False"

section \<open>Facts about the matchers\<close>

text \<open>The suffix a \<open>DomainSuffix\<close> matcher compares with, its optional \<open>*.\<close> removed.\<close>

definition bare_suffix :: "string \<Rightarrow> string" where
  "bare_suffix s = (case strip_prefix ''*.'' s of Some r \<Rightarrow> r | None \<Rightarrow> s)"

lemma domain_suffix_matchI:
  assumes "bare_suffix suffix \<noteq> []" "label \<noteq> []" "CHR ''.'' \<notin> set label"
    and eq: "to_ascii_lowercase v = label @ ''.'' @ to_ascii_lowercase (bare_suffix suffix)"
  shows "domain_suffix_match suffix v"
proof -
  let ?s = "to_ascii_lowercase (bare_suffix suffix)"
  have "v \<noteq> []" using eq assms(2) by (metis append_is_Nil_conv to_ascii_lowercase_eq_Nil)
  moreover have "strip_suffix ?s (label @ ''.'' @ ?s) = Some (label @ ''.'')"
    by (simp add: strip_suffix_Some)
  moreover have "strip_suffix ''.'' (label @ ''.'') = Some label"
    by (simp add: strip_suffix_Some)
  moreover have "label @ ''.'' @ ?s \<noteq> ?s" by simp
  ultimately show ?thesis
    using assms(1-3) unfolding domain_suffix_match_def bare_suffix_def [symmetric] Let_def eq
    by simp
qed

lemma domain_suffix_matchD:
  assumes "domain_suffix_match suffix v"
  obtains label where "bare_suffix suffix \<noteq> []" "label \<noteq> []" "CHR ''.'' \<notin> set label"
    "to_ascii_lowercase v = label @ ''.'' @ to_ascii_lowercase (bare_suffix suffix)"
  using assms unfolding domain_suffix_match_def bare_suffix_def [symmetric] Let_def
  by (auto simp: strip_suffix_Some split: if_splits option.splits)

end
