(* ===== verification/Policy_Steering.thy ===== *)
theory Policy_Steering
  imports Policy_Rule
begin

text \<open>
  The steering table of \<open>sng-policy-eval\<close> (\<open>steering.rs\<close>): the wire form of the rule set,
  the compilation into a literal-domain map, a wildcard-suffix list and a CIDR list, and
  the two lookups. The two lookups scan a list for the best match in the same way; what
  such a scan returns is proved once, in the locale \<open>longest_match\<close>.
\<close>

section \<open>Wire form and compiled form\<close>

record steering_app_ref =
  app_ref_id :: "128 word"
  app_ref_name :: string
  app_ref_source :: string
  app_ref_category :: string

record steering_class_rules =
  class_of :: traffic_class
  class_action :: string
  class_domains :: "string list"
  class_ip_ranges :: "string list"
  class_cert_pins :: "string list"
  class_apps :: "steering_app_ref list"

record steering_rule_set =
  srs_target :: string
  srs_schema_version :: int
  srs_classes :: "steering_class_rules list"

record 'net steering_table =
  literal_domains :: "string \<rightharpoonup> traffic_class"
  wildcard_suffixes :: "(string \<times> traffic_class) list"
  ip_ranges :: "('net \<times> traffic_class) list"

definition empty_steering_table :: "'net steering_table" where
  "empty_steering_table = \<lparr>literal_domains = Map.empty, wildcard_suffixes = [], ip_ranges = []\<rparr>"

section \<open>Compilation\<close>

text \<open>\<open>HashMap::entry(k).or_insert(v)\<close>: an existing binding is kept.\<close>

definition or_insert :: "('k \<rightharpoonup> 'v) \<Rightarrow> 'k \<Rightarrow> 'v \<Rightarrow> ('k \<rightharpoonup> 'v)" where
  "or_insert m k v = (case m k of Some _ \<Rightarrow> m | None \<Rightarrow> m(k \<mapsto> v))"

definition add_domain :: "traffic_class \<Rightarrow> string \<Rightarrow> 'net steering_table \<Rightarrow> 'net steering_table" where
  "add_domain c d t =
     (let lc = to_ascii_lowercase d in
      case strip_prefix ''*.'' lc of
        Some stripped \<Rightarrow>
          if stripped = [] then t
          else t\<lparr>wildcard_suffixes := wildcard_suffixes t @ [(stripped, c)]\<rparr>
      | None \<Rightarrow> t\<lparr>literal_domains := or_insert (literal_domains t) lc c\<rparr>)"

definition add_ip_range ::
  "'net ipnet_ops \<Rightarrow> traffic_class \<Rightarrow> string \<Rightarrow> 'net steering_table \<Rightarrow> 'net steering_table" where
  "add_ip_range nops c r t =
     (case net_parse nops r of
        Inr cidr \<Rightarrow> t\<lparr>ip_ranges := ip_ranges t @ [(cidr, c)]\<rparr>
      | Inl _ \<Rightarrow> t)"

definition add_class ::
  "'net ipnet_ops \<Rightarrow> steering_class_rules \<Rightarrow> 'net steering_table \<Rightarrow> 'net steering_table" where
  "add_class nops cr t =
     fold (add_ip_range nops (class_of cr)) (class_ip_ranges cr)
       (fold (add_domain (class_of cr)) (class_domains cr) t)"

definition from_rule_set :: "'net ipnet_ops \<Rightarrow> steering_rule_set \<Rightarrow> 'net steering_table" where
  "from_rule_set nops rs = fold (add_class nops) (srs_classes rs) empty_steering_table"

section \<open>Lookups\<close>

definition domain_matches_suffix :: "string \<Rightarrow> string \<Rightarrow> bool" where
  "domain_matches_suffix suffix host_lc =
     (if host_lc = suffix then True
      else (case strip_suffix suffix host_lc of
              None \<Rightarrow> False
            | Some prefix \<Rightarrow> strip_suffix ''.'' prefix \<noteq> None \<and> prefix \<noteq> []))"

fun scan_suffixes ::
  "string \<Rightarrow> (string \<times> traffic_class) option \<Rightarrow> (string \<times> traffic_class) list
     \<Rightarrow> (string \<times> traffic_class) option" where
  "scan_suffixes host_lc best [] = best"
| "scan_suffixes host_lc best ((suffix, c) # rest) =
     (if \<not> domain_matches_suffix suffix host_lc then scan_suffixes host_lc best rest
      else if (case best of None \<Rightarrow> True | Some (b, _) \<Rightarrow> length b < length suffix)
      then scan_suffixes host_lc (Some (suffix, c)) rest
      else scan_suffixes host_lc best rest)"

definition class_for_host :: "'net steering_table \<Rightarrow> string \<Rightarrow> traffic_class option" where
  "class_for_host t host =
     (let host_lc = to_ascii_lowercase host in
      case literal_domains t host_lc of
        Some c \<Rightarrow> Some c
      | None \<Rightarrow> map_option snd (scan_suffixes host_lc None (wildcard_suffixes t)))"

fun scan_ranges ::
  "'net ipnet_ops \<Rightarrow> ip_addr \<Rightarrow> (u8 \<times> traffic_class) option \<Rightarrow> ('net \<times> traffic_class) list
     \<Rightarrow> (u8 \<times> traffic_class) option" where
  "scan_ranges nops addr best [] = best"
| "scan_ranges nops addr best ((cidr, c) # rest) =
     (if \<not> net_contains nops cidr addr then scan_ranges nops addr best rest
      else if (case best of None \<Rightarrow> True | Some (b, _) \<Rightarrow> b < net_prefix_len nops cidr)
      then scan_ranges nops addr (Some (net_prefix_len nops cidr, c)) rest
      else scan_ranges nops addr best rest)"

definition class_for_ip :: "'net ipnet_ops \<Rightarrow> 'net steering_table \<Rightarrow> ip_addr \<Rightarrow> traffic_class option" where
  "class_for_ip nops t addr = map_option snd (scan_ranges nops addr None (ip_ranges t))"

section \<open>What a best-match scan returns\<close>

text \<open>
  A scan keeps the first entry of the greatest weight among those that hit. \<open>key\<close> is what
  the running best remembers of an entry (the suffix itself, or the prefix length).
\<close>

locale longest_match =
  fixes hit :: "'k \<Rightarrow> bool"
    and key :: "'k \<Rightarrow> 'w"
    and heavier :: "'w \<Rightarrow> 'w \<Rightarrow> bool"
    and weight :: "'w \<Rightarrow> nat"
    and scan :: "('w \<times> 'c) option \<Rightarrow> ('k \<times> 'c) list \<Rightarrow> ('w \<times> 'c) option"
  assumes heavier_weight: "heavier a b \<longleftrightarrow> weight a < weight b"
    and scan_Nil: "scan best [] = best"
    and scan_Cons: "scan best ((k, c) # rest) =
      (if hit k \<and> (case best of None \<Rightarrow> True | Some (b, _) \<Rightarrow> heavier b (key k))
       then scan (Some (key k, c)) rest else scan best rest)"
begin

definition is_best :: "('k \<times> 'c) list \<Rightarrow> 'k \<Rightarrow> 'c \<Rightarrow> bool" where
  "is_best es k c \<longleftrightarrow> (\<exists>pre post. es = pre @ (k, c) # post \<and> hit k
     \<and> (\<forall>(k', _) \<in> set pre. hit k' \<longrightarrow> weight (key k') < weight (key k))
     \<and> (\<forall>(k', _) \<in> set post. hit k' \<longrightarrow> weight (key k') \<le> weight (key k)))"

lemma is_best_max: "is_best es k c \<Longrightarrow> (k', c') \<in> set es \<Longrightarrow> hit k' \<Longrightarrow> weight (key k') \<le> weight (key k)"
  by (fastforce simp: is_best_def)

lemma is_best_snoc_new:
  assumes "hit k" "\<And>k' c'. (k', c') \<in> set es \<Longrightarrow> hit k' \<Longrightarrow> weight (key k') < weight (key k)"
  shows "is_best (es @ [(k, c)]) k c"
  using assms unfolding is_best_def by (intro exI [of _ es] exI [of _ "[]"]) auto

lemma is_best_snoc_keep:
  assumes "is_best es k c" "hit k' \<Longrightarrow> weight (key k') \<le> weight (key k)"
  shows "is_best (es @ [(k', c')]) k c"
proof -
  from assms(1) obtain pre post where "es = pre @ (k, c) # post" "hit k"
    "\<forall>(k', _) \<in> set pre. hit k' \<longrightarrow> weight (key k') < weight (key k)"
    "\<forall>(k', _) \<in> set post. hit k' \<longrightarrow> weight (key k') \<le> weight (key k)"
    by (auto simp: is_best_def)
  with assms(2) show ?thesis
    unfolding is_best_def by (intro exI [of _ pre] exI [of _ "post @ [(k', c')]"]) auto
qed

lemma scan_append: "scan best (xs @ ys) = scan (scan best xs) ys"
  by (induction xs arbitrary: best) (auto simp: scan_Nil scan_Cons)

lemma scan_spec:
  "(case scan None es of
      None \<Rightarrow> \<forall>(k, _) \<in> set es. \<not> hit k
    | Some (w, c) \<Rightarrow> \<exists>k. w = key k \<and> is_best es k c)"
proof (induction es rule: rev_induct)
  case (snoc e es)
  obtain k c where e: "e = (k, c)" by (cases e)
  show ?case
  proof (cases "scan None es")
    case None
    with snoc.IH show ?thesis
      by (auto simp: e scan_append scan_Cons scan_Nil intro!: is_best_snoc_new)
  next
    case (Some wc)
    then obtain w c' k' where b: "scan None es = Some (w, c')" "w = key k'" "is_best es k' c'"
      using snoc.IH by auto
    show ?thesis
    proof (cases "hit k \<and> weight w < weight (key k)")
      case True
      with b have "is_best (es @ [e]) k c"
        unfolding e by (intro is_best_snoc_new) (auto dest: is_best_max [rotated])
      with True b(1) show ?thesis
        by (auto simp: e scan_append scan_Cons scan_Nil heavier_weight)
    next
      case False
      with b(2,3) have "is_best (es @ [e]) k' c'"
        unfolding e by (intro is_best_snoc_keep) auto
      with False b(1,2) show ?thesis
        by (auto simp: e scan_append scan_Cons scan_Nil heavier_weight)
    qed
  qed
qed (simp add: scan_Nil)

lemma scan_None_iff: "scan None es = None \<longleftrightarrow> (\<forall>(k, _) \<in> set es. \<not> hit k)"
  using scan_spec [of es] by (auto simp: is_best_def split: option.splits)

lemma scan_best: "scan None es = Some (w, c) \<Longrightarrow> \<exists>k. w = key k \<and> is_best es k c"
  using scan_spec [of es] by simp

end

interpretation suffix_scan: longest_match
  "\<lambda>suffix. domain_matches_suffix suffix host_lc" "\<lambda>suffix. suffix"
  "\<lambda>a b. length a < length b" length "scan_suffixes host_lc" for host_lc
  by unfold_locales auto

interpretation range_scan: longest_match
  "\<lambda>cidr. net_contains nops cidr addr" "net_prefix_len nops" "(<)" unat
  "scan_ranges nops addr" for nops addr
  by unfold_locales (auto simp: word_less_nat_alt split: option.split)

section \<open>What compilation builds\<close>

text \<open>
  The bindings a rule set makes, in wire order: the literal domains, the wildcard
  suffixes and the ranges that parse.
\<close>

definition domain_entries :: "steering_rule_set \<Rightarrow> (string \<times> traffic_class) list" where
  "domain_entries rs =
     concat (map (\<lambda>cr. map (\<lambda>d. (to_ascii_lowercase d, class_of cr)) (class_domains cr))
       (srs_classes rs))"

definition literal_entries :: "(string \<times> traffic_class) list \<Rightarrow> (string \<times> traffic_class) list" where
  "literal_entries es = filter (\<lambda>(d, c). strip_prefix ''*.'' d = None) es"

definition wildcard_entries :: "(string \<times> traffic_class) list \<Rightarrow> (string \<times> traffic_class) list" where
  "wildcard_entries es =
     List.map_filter (\<lambda>(d, c). case strip_prefix ''*.'' d of
        Some s \<Rightarrow> if s = [] then None else Some (s, c) | None \<Rightarrow> None) es"

definition range_entries :: "'net ipnet_ops \<Rightarrow> steering_rule_set \<Rightarrow> ('net \<times> traffic_class) list" where
  "range_entries nops rs =
     concat (map (\<lambda>cr. List.map_filter (\<lambda>r. case net_parse nops r of
         Inr cidr \<Rightarrow> Some (cidr, class_of cr) | Inl _ \<Rightarrow> None) (class_ip_ranges cr))
       (srs_classes rs))"

lemma or_insert_eq: "or_insert m k v = [k \<mapsto> v] ++ m"
  by (auto simp: or_insert_def map_add_def fun_eq_iff split: option.split)

lemma fold_add_domain:
  defines "es \<equiv> \<lambda>c ds. map (\<lambda>d. (to_ascii_lowercase d, c)) ds"
  shows "literal_domains (fold (add_domain c) ds t) = map_of (literal_entries (es c ds)) ++ literal_domains t"
    and "wildcard_suffixes (fold (add_domain c) ds t) = wildcard_suffixes t @ wildcard_entries (es c ds)"
    and "ip_ranges (fold (add_domain c) ds t) = ip_ranges t"
  unfolding es_def
  by (induction ds arbitrary: t)
    (auto simp: add_domain_def literal_entries_def wildcard_entries_def or_insert_eq Let_def
      List.map_filter_simps map_add_assoc map_add_upd_left split: option.splits)

lemma fold_add_ip_range:
  "literal_domains (fold (add_ip_range nops c) rs t) = literal_domains t"
  "wildcard_suffixes (fold (add_ip_range nops c) rs t) = wildcard_suffixes t"
  "ip_ranges (fold (add_ip_range nops c) rs t) =
     ip_ranges t @ List.map_filter (\<lambda>r. case net_parse nops r of
         Inr cidr \<Rightarrow> Some (cidr, c) | Inl _ \<Rightarrow> None) rs"
  by (induction rs arbitrary: t)
    (auto simp: add_ip_range_def List.map_filter_simps split: sum.splits)

lemma literal_entries_append [simp]:
  "literal_entries (xs @ ys) = literal_entries xs @ literal_entries ys"
  by (simp add: literal_entries_def)

lemma wildcard_entries_append [simp]:
  "wildcard_entries (xs @ ys) = wildcard_entries xs @ wildcard_entries ys"
  by (simp add: wildcard_entries_def List.map_filter_def)

lemma no_entries [simp]: "literal_entries [] = []" "wildcard_entries [] = []"
  by (simp_all add: literal_entries_def wildcard_entries_def List.map_filter_simps)

lemma fold_add_class:
  "literal_domains (fold (add_class nops) crs t) =
     map_of (literal_entries (concat (map (\<lambda>cr. map (\<lambda>d. (to_ascii_lowercase d, class_of cr))
       (class_domains cr)) crs))) ++ literal_domains t"
  "wildcard_suffixes (fold (add_class nops) crs t) =
     wildcard_suffixes t @ wildcard_entries (concat (map (\<lambda>cr. map (\<lambda>d.
       (to_ascii_lowercase d, class_of cr)) (class_domains cr)) crs))"
  "ip_ranges (fold (add_class nops) crs t) =
     ip_ranges t @ concat (map (\<lambda>cr. List.map_filter (\<lambda>r. case net_parse nops r of
         Inr cidr \<Rightarrow> Some (cidr, class_of cr) | Inl _ \<Rightarrow> None) (class_ip_ranges cr)) crs)"
  by (induction crs arbitrary: t)
    (simp_all add: add_class_def fold_add_domain fold_add_ip_range map_add_assoc)

lemma from_rule_set_literal_domains:
  "literal_domains (from_rule_set nops rs) = map_of (literal_entries (domain_entries rs))"
  by (simp add: from_rule_set_def fold_add_class domain_entries_def empty_steering_table_def)

lemma from_rule_set_wildcard_suffixes:
  "wildcard_suffixes (from_rule_set nops rs) = wildcard_entries (domain_entries rs)"
  by (simp add: from_rule_set_def fold_add_class domain_entries_def empty_steering_table_def)

lemma from_rule_set_ip_ranges: "ip_ranges (from_rule_set nops rs) = range_entries nops rs"
  by (simp add: from_rule_set_def fold_add_class range_entries_def empty_steering_table_def)

lemmas from_rule_set_parts =
  from_rule_set_literal_domains from_rule_set_wildcard_suffixes from_rule_set_ip_ranges

section \<open>An IPv4 instance of the range operations\<close>

text \<open>
  A concrete reading of \<^typ>\<open>'net ipnet_ops\<close> for IPv4 ranges in CIDR notation. The model
  itself never refers to it; it makes the closed examples of the development computable.
\<close>

definition v4_net_ops :: "(u32 \<times> u8) ipnet_ops" where
  "v4_net_ops =
     \<lparr>net_contains = (\<lambda>(base, len) addr. case addr of
        V4 a \<Rightarrow> drop_bit (32 - unat len) base = drop_bit (32 - unat len) a | V6 _ \<Rightarrow> False),
      net_prefix_len = snd,
      net_parse = (\<lambda>s. case read_ipv4_addr s of
        Some (a, c # rest) \<Rightarrow>
          (case read_number 10 2 False 33 rest of
             Some (len, []) \<Rightarrow> if c = CHR ''/'' then Inr (of_int a, of_int len) else Inl s
           | _ \<Rightarrow> Inl s)
      | _ \<Rightarrow> Inl s)\<rparr>"

definition sample_rule_set :: steering_rule_set where
  "sample_rule_set =
     \<lparr>srs_target = ''edge'', srs_schema_version = 1,
      srs_classes =
        [\<lparr>class_of = TrustedDirect, class_action = ''direct'',
          class_domains = [''*.example.com'', ''Portal.example.com''],
          class_ip_ranges = [''10.0.0.0/8''], class_cert_pins = [], class_apps = []\<rparr>,
         \<lparr>class_of = Block, class_action = ''block'',
          class_domains = [''*.bad.example.com'', ''portal.example.com''],
          class_ip_ranges = [''10.9.0.0/16'', ''not-a-range''], class_cert_pins = [],
          class_apps = []\<rparr>]\<rparr>"

section \<open>Properties of the lookups\<close>

text \<open>
  Claim C35. Looking a host up in a compiled table: a literal binding wins, and among
  several the first class of the rule set that lists the domain; otherwise the wildcard
  suffix that matches and is longest decides, the earliest one among equally long ones;
  with neither there is no class.
\<close>

theorem class_for_host_longest_suffix:
  "case class_for_host (from_rule_set nops rs) host of
      None \<Rightarrow> map_of (literal_entries (domain_entries rs)) (to_ascii_lowercase host) = None
        \<and> (\<forall>(s, _) \<in> set (wildcard_entries (domain_entries rs)).
             \<not> domain_matches_suffix s (to_ascii_lowercase host))
    | Some c \<Rightarrow> map_of (literal_entries (domain_entries rs)) (to_ascii_lowercase host) = Some c
        \<or> map_of (literal_entries (domain_entries rs)) (to_ascii_lowercase host) = None
          \<and> (\<exists>pre suffix post. wildcard_entries (domain_entries rs) = pre @ (suffix, c) # post
              \<and> domain_matches_suffix suffix (to_ascii_lowercase host)
              \<and> (\<forall>(s, _) \<in> set pre. domain_matches_suffix s (to_ascii_lowercase host) \<longrightarrow>
                   length s < length suffix)
              \<and> (\<forall>(s, _) \<in> set post. domain_matches_suffix s (to_ascii_lowercase host) \<longrightarrow>
                   length s \<le> length suffix))"
  using suffix_scan.scan_spec [of "wildcard_entries (domain_entries rs)" "to_ascii_lowercase host"]
  by (auto simp: class_for_host_def from_rule_set_parts Let_def suffix_scan.is_best_def
      split: option.splits)

theorem class_for_host_longest_suffix_witness:
  "class_for_host (from_rule_set v4_net_ops sample_rule_set) ''X.Bad.example.com'' = Some Block
   \<and> (\<exists>pre suffix post. wildcard_entries (domain_entries sample_rule_set) = pre @ (suffix, Block) # post
        \<and> domain_matches_suffix suffix ''x.bad.example.com''
        \<and> (\<forall>(s, _) \<in> set pre. domain_matches_suffix s ''x.bad.example.com'' \<longrightarrow> length s < length suffix)
        \<and> (\<forall>(s, _) \<in> set post. domain_matches_suffix s ''x.bad.example.com'' \<longrightarrow> length s \<le> length suffix))"
proof -
  have r: "class_for_host (from_rule_set v4_net_ops sample_rule_set) ''X.Bad.example.com'' = Some Block"
    by code_simp
  have n: "map_of (literal_entries (domain_entries sample_rule_set))
      ''x.bad.example.com'' = None" by code_simp
  have l: "to_ascii_lowercase ''X.Bad.example.com'' = ''x.bad.example.com''" by code_simp
  show ?thesis
    using class_for_host_longest_suffix [where nops = v4_net_ops and rs = sample_rule_set and host = "''X.Bad.example.com''"]
    unfolding r l by (simp add: n case_prod_beta')
qed

text \<open>
  Looking an address up in a compiled table: among the ranges of the rule set
  that parse and contain the address, the one with the longest prefix decides, the
  earliest one among equally long ones; with none there is no class.
\<close>

theorem class_for_ip_longest_prefix:
  "case class_for_ip nops (from_rule_set nops rs) addr of
      None \<Rightarrow> \<forall>(cidr, _) \<in> set (range_entries nops rs). \<not> net_contains nops cidr addr
    | Some c \<Rightarrow> \<exists>pre cidr post. range_entries nops rs = pre @ (cidr, c) # post
        \<and> net_contains nops cidr addr
        \<and> (\<forall>(n, _) \<in> set pre. net_contains nops n addr \<longrightarrow>
             net_prefix_len nops n < net_prefix_len nops cidr)
        \<and> (\<forall>(n, _) \<in> set post. net_contains nops n addr \<longrightarrow>
             net_prefix_len nops n \<le> net_prefix_len nops cidr)"
  using range_scan.scan_spec [of "range_entries nops rs" nops addr]
  by (auto simp: class_for_ip_def from_rule_set_parts range_scan.is_best_def
      word_less_nat_alt word_le_nat_alt split: option.splits)

theorem class_for_ip_longest_prefix_witness:
  "class_for_ip v4_net_ops (from_rule_set v4_net_ops sample_rule_set) (V4 0x0A090001) = Some Block
   \<and> (\<exists>pre cidr post. range_entries v4_net_ops sample_rule_set = pre @ (cidr, Block) # post
        \<and> net_contains v4_net_ops cidr (V4 0x0A090001)
        \<and> (\<forall>(n, _) \<in> set pre. net_contains v4_net_ops n (V4 0x0A090001) \<longrightarrow>
             net_prefix_len v4_net_ops n < net_prefix_len v4_net_ops cidr)
        \<and> (\<forall>(n, _) \<in> set post. net_contains v4_net_ops n (V4 0x0A090001) \<longrightarrow>
             net_prefix_len v4_net_ops n \<le> net_prefix_len v4_net_ops cidr))"
proof -
  have r: "class_for_ip v4_net_ops (from_rule_set v4_net_ops sample_rule_set) (V4 0x0A090001) = Some Block"
    by code_simp
  show ?thesis
    using class_for_ip_longest_prefix [where nops = v4_net_ops and rs = sample_rule_set and addr = "V4 0x0A090001"]
    unfolding r by simp
qed

end
