(* ===== verification/Trust_Store.thy ===== *)
theory Trust_Store
  imports SNG_Prelude
begin

text \<open>
  What a trust store of signing keys promises. Two components of the program keep one: the
  policy verifier of \<open>sng-core\<close> and the manifest verifier of \<open>sng-updater\<close>. The Ed25519
  library is third-party: its two operations are the fields of \<open>ed25519_ops\<close>.
\<close>

record 'key ed25519_ops =
  key_from_bytes :: "bytes \<Rightarrow> string + 'key"
  key_verify :: "'key \<Rightarrow> bytes \<Rightarrow> bytes \<Rightarrow> string + unit"

text \<open>A signature scheme for the examples: the key, followed by the body.\<close>

definition echo_ops :: "bytes ed25519_ops" where
  "echo_ops = \<lparr>key_from_bytes = Inr,
     key_verify = (\<lambda>k b s. if s = k @ b then Inr () else Inl ''signature error'')\<rparr>"

text \<open>
  The contract: an installed key was decoded from the bytes given for its identifier, no key
  is installed under the ephemeral identifier, and an envelope that passes the check carries
  a signature that one of the installed keys validates.
\<close>

locale trust_store =
  fixes ops :: "'key ed25519_ops"
    and ephemeral :: "string \<Rightarrow> bool"
    and keys_of :: "'s \<Rightarrow> string \<rightharpoonup> 'key"
    and add :: "string \<Rightarrow> bytes \<Rightarrow> 's \<Rightarrow> 'e + 's"
    and check :: "'s \<Rightarrow> 'env \<Rightarrow> 'f + 'r"
    and key_id :: "'env \<Rightarrow> string"
    and body_of :: "'env \<Rightarrow> bytes"
    and sig_of :: "'env \<Rightarrow> bytes"
  assumes add_ok: "add kid kb s = Inr s' \<Longrightarrow> \<not> ephemeral kid \<and> (\<exists>k. key_from_bytes ops kb = Inr k
      \<and> keys_of s' = (keys_of s)(kid \<mapsto> k))"
    and check_ok: "check s env = Inr r \<Longrightarrow> \<not> ephemeral (key_id env) \<and> (\<exists>k. keys_of s (key_id env) = Some k
      \<and> key_verify ops k (body_of env) (sig_of env) = Inr ())"
begin

text \<open>Keys are installed one by one; a refused key leaves the store as it was.\<close>

definition install :: "string \<times> bytes \<Rightarrow> 's \<Rightarrow> 's" where
  "install = (\<lambda>(kid, kb) s. case add kid kb s of Inl _ \<Rightarrow> s | Inr s' \<Rightarrow> s')"

lemma install_keys:
  "keys_of (install (kid, kb) s) k = Some key \<Longrightarrow>
     keys_of s k = Some key \<or> k = kid \<and> \<not> ephemeral kid \<and> key_from_bytes ops kb = Inr key"
  using add_ok [of kid kb s] by (auto simp: install_def split: sum.splits if_splits)

lemma installed_key_origin:
  assumes "keys_of (fold install ks s) kid = Some key"
  shows "keys_of s kid = Some key \<or> (\<not> ephemeral kid \<and> (\<exists>kb. (kid, kb) \<in> set ks \<and> key_from_bytes ops kb = Inr key))"
  using assms
proof (induction ks arbitrary: s)
  case (Cons p ks)
  obtain k kb where p: "p = (k, kb)" by (cases p)
  show ?case
    using Cons.IH [of "install p s"] Cons.prems install_keys [of k kb s kid key] by (auto simp: p)
qed simp

lemma accepted_is_authentic:
  assumes "keys_of s0 = Map.empty" "check (fold install ks s0) env = Inr r"
  obtains kb key where "(key_id env, kb) \<in> set ks" "key_from_bytes ops kb = Inr key"
    "key_verify ops key (body_of env) (sig_of env) = Inr ()" "\<not> ephemeral (key_id env)"
  using check_ok [OF assms(2)] installed_key_origin [of ks s0 "key_id env"] assms(1) by fastforce

end

text \<open>A store whose keys can also be removed, as at a rotation of the trust anchors.\<close>

locale rotating_trust_store = trust_store +
  fixes remove :: "string \<Rightarrow> 'b \<Rightarrow> bool \<times> 'b"
  assumes remove_keys: "keys_of (snd (remove kid s)) = (keys_of s)(kid := None)"
    and remove_flag: "fst (remove kid s) \<longleftrightarrow> keys_of s kid \<noteq> None"
begin

lemma removed_key_unused:
  assumes "key_id env = kid"
  shows "check (snd (remove kid s)) env \<noteq> Inr r"
  using check_ok [of "snd (remove kid s)" env r] assms by (auto simp: remove_keys)

end

end
