(* ===== verification/Core_Error.thy ===== *)
theory Core_Error
  imports SNG_Prelude
begin

text \<open>
  The workspace error taxonomy of \<open>sng-core\<close> (\<open>error.rs\<close>): the stable error codes every
  crate maps its errors to, and their wire strings.
\<close>

datatype error_code =
    Code_ConfigInvalid
  | Code_ConfigMissing
  | Code_WireEncoding
  | Code_WireSchema
  | Code_PolicyBundleSignatureInvalid
  | Code_PolicyBundleSigningKeyUnknown
  | Code_PolicyBundleTargetMismatch
  | Code_PolicyBundleStale
  | Code_Io
  | Code_LifecycleShutdown
  | Code_HealthUnhealthy
  | Code_IdentityInvalid
  | Code_IdentityRejected
  | Code_ControlPlaneUnreachable
  | Code_ResourceMissing
  | Code_BundleRejected
  | Code_SequenceRegression
  | Code_IpsProcessFailure
  | Code_IpsConfigInvalid
  | Code_IpsRuleSignatureInvalid
  | Code_IpsRuleSigningKeyUnknown
  | Code_IpsRuleStale
  | Code_IpsRuleBodyDecode
  | Code_IpsRuleBodyEncode
  | Code_IpsRuleValidate
  | Code_IpsEveDecode
  | Code_IpsRuleFeedFetch
  | Code_SwgProcessFailure
  | Code_SwgConfigInvalid
  | Code_SwgCategoryBundleSignatureInvalid
  | Code_SwgCategoryBundleSigningKeyUnknown
  | Code_SwgCategoryBundleStale
  | Code_SwgCategoryBundleBodyDecode
  | Code_SwgConfigValidate
  | Code_SwgExtAuthzDecode
  | Code_SwgYaraBundleSignatureInvalid
  | Code_SwgYaraBundleSigningKeyUnknown
  | Code_SwgYaraBundleStale
  | Code_SwgYaraBundleBodyDecode
  | Code_SwgYaraRuleCompile
  | Code_SwgInstallBusy
  | Code_SwgUrlModelSignatureInvalid
  | Code_SwgUrlModelSigningKeyUnknown
  | Code_SwgUrlModelStale
  | Code_SwgUrlModelBodyDecode
  | Code_SwgUrlModelBodyEncode
  | Code_SwgUrlModelInvalid
  | Code_UpdaterManifestBodyDecode
  | Code_UpdaterManifestSignatureInvalid
  | Code_UpdaterManifestSigningKeyUnknown
  | Code_UpdaterManifestStale
  | Code_UpdaterReinstallOfRolledBackVersion
  | Code_UpdaterPostCommitLayoutSync
  | Code_UpdaterLayoutDiverged
  | Code_UpdaterManifestTargetMismatch
  | Code_UpdaterImageHashMismatch
  | Code_UpdaterImageSizeExceeded
  | Code_UpdaterBankWriteFailure
  | Code_UpdaterBootloaderFailure
  | Code_UpdaterHealthCheckTimeout
  | Code_UpdaterHealthCheckFailed
  | Code_UpdaterInstallBusy
  | Code_UpdaterStateInvalidTransition
  | Code_Other

primrec error_code_as_str :: "error_code \<Rightarrow> string" where
  "error_code_as_str Code_ConfigInvalid = ''config.invalid''"
| "error_code_as_str Code_ConfigMissing = ''config.missing''"
| "error_code_as_str Code_WireEncoding = ''wire.encoding''"
| "error_code_as_str Code_WireSchema = ''wire.schema''"
| "error_code_as_str Code_PolicyBundleSignatureInvalid = ''policy.bundle.signature.invalid''"
| "error_code_as_str Code_PolicyBundleSigningKeyUnknown = ''policy.bundle.signing_key.unknown''"
| "error_code_as_str Code_PolicyBundleTargetMismatch = ''policy.bundle.target.mismatch''"
| "error_code_as_str Code_PolicyBundleStale = ''policy.bundle.stale''"
| "error_code_as_str Code_Io = ''io''"
| "error_code_as_str Code_LifecycleShutdown = ''lifecycle.shutdown''"
| "error_code_as_str Code_HealthUnhealthy = ''health.unhealthy''"
| "error_code_as_str Code_IdentityInvalid = ''identity.invalid''"
| "error_code_as_str Code_IdentityRejected = ''identity.rejected''"
| "error_code_as_str Code_ControlPlaneUnreachable = ''control_plane.unreachable''"
| "error_code_as_str Code_ResourceMissing = ''resource.missing''"
| "error_code_as_str Code_BundleRejected = ''policy.bundle.rejected''"
| "error_code_as_str Code_SequenceRegression = ''sequence.regression''"
| "error_code_as_str Code_IpsProcessFailure = ''ips.process.failure''"
| "error_code_as_str Code_IpsConfigInvalid = ''ips.config.invalid''"
| "error_code_as_str Code_IpsRuleSignatureInvalid = ''ips.rule.signature.invalid''"
| "error_code_as_str Code_IpsRuleSigningKeyUnknown = ''ips.rule.signing_key.unknown''"
| "error_code_as_str Code_IpsRuleStale = ''ips.rule.stale''"
| "error_code_as_str Code_IpsRuleBodyDecode = ''ips.rule.body.decode''"
| "error_code_as_str Code_IpsRuleBodyEncode = ''ips.rule.body.encode''"
| "error_code_as_str Code_IpsRuleValidate = ''ips.rule.validate''"
| "error_code_as_str Code_IpsEveDecode = ''ips.eve.decode''"
| "error_code_as_str Code_IpsRuleFeedFetch = ''ips.rule.feed.fetch''"
| "error_code_as_str Code_SwgProcessFailure = ''swg.process.failure''"
| "error_code_as_str Code_SwgConfigInvalid = ''swg.config.invalid''"
| "error_code_as_str Code_SwgCategoryBundleSignatureInvalid = ''swg.category.bundle.signature.invalid''"
| "error_code_as_str Code_SwgCategoryBundleSigningKeyUnknown = ''swg.category.bundle.signing_key.unknown''"
| "error_code_as_str Code_SwgCategoryBundleStale = ''swg.category.bundle.stale''"
| "error_code_as_str Code_SwgCategoryBundleBodyDecode = ''swg.category.bundle.body.decode''"
| "error_code_as_str Code_SwgConfigValidate = ''swg.config.validate''"
| "error_code_as_str Code_SwgExtAuthzDecode = ''swg.ext_authz.decode''"
| "error_code_as_str Code_SwgYaraBundleSignatureInvalid = ''swg.yara.bundle.signature.invalid''"
| "error_code_as_str Code_SwgYaraBundleSigningKeyUnknown = ''swg.yara.bundle.signing_key.unknown''"
| "error_code_as_str Code_SwgYaraBundleStale = ''swg.yara.bundle.stale''"
| "error_code_as_str Code_SwgYaraBundleBodyDecode = ''swg.yara.bundle.body.decode''"
| "error_code_as_str Code_SwgYaraRuleCompile = ''swg.yara.rule.compile''"
| "error_code_as_str Code_SwgInstallBusy = ''swg.install.busy''"
| "error_code_as_str Code_SwgUrlModelSignatureInvalid = ''swg.url_model.signature.invalid''"
| "error_code_as_str Code_SwgUrlModelSigningKeyUnknown = ''swg.url_model.signing_key.unknown''"
| "error_code_as_str Code_SwgUrlModelStale = ''swg.url_model.stale''"
| "error_code_as_str Code_SwgUrlModelBodyDecode = ''swg.url_model.body.decode''"
| "error_code_as_str Code_SwgUrlModelBodyEncode = ''swg.url_model.body.encode''"
| "error_code_as_str Code_SwgUrlModelInvalid = ''swg.url_model.invalid''"
| "error_code_as_str Code_UpdaterManifestBodyDecode = ''updater.manifest.body.decode''"
| "error_code_as_str Code_UpdaterManifestSignatureInvalid = ''updater.manifest.signature.invalid''"
| "error_code_as_str Code_UpdaterManifestSigningKeyUnknown = ''updater.manifest.signing_key.unknown''"
| "error_code_as_str Code_UpdaterManifestStale = ''updater.manifest.stale''"
| "error_code_as_str Code_UpdaterReinstallOfRolledBackVersion = ''updater.manifest.reinstall_of_rolled_back''"
| "error_code_as_str Code_UpdaterPostCommitLayoutSync = ''updater.commit.layout_sync_failure''"
| "error_code_as_str Code_UpdaterLayoutDiverged = ''updater.commit.layout_diverged''"
| "error_code_as_str Code_UpdaterManifestTargetMismatch = ''updater.manifest.target.mismatch''"
| "error_code_as_str Code_UpdaterImageHashMismatch = ''updater.image.hash.mismatch''"
| "error_code_as_str Code_UpdaterImageSizeExceeded = ''updater.image.size.exceeded''"
| "error_code_as_str Code_UpdaterBankWriteFailure = ''updater.bank.write.failure''"
| "error_code_as_str Code_UpdaterBootloaderFailure = ''updater.bootloader.failure''"
| "error_code_as_str Code_UpdaterHealthCheckTimeout = ''updater.health_check.timeout''"
| "error_code_as_str Code_UpdaterHealthCheckFailed = ''updater.health_check.failed''"
| "error_code_as_str Code_UpdaterInstallBusy = ''updater.install.busy''"
| "error_code_as_str Code_UpdaterStateInvalidTransition = ''updater.state.invalid_transition''"
| "error_code_as_str Code_Other = ''other''"

definition all_error_codes :: "error_code list" where
  "all_error_codes =
     [Code_ConfigInvalid, Code_ConfigMissing, Code_WireEncoding, Code_WireSchema,
      Code_PolicyBundleSignatureInvalid, Code_PolicyBundleSigningKeyUnknown,
      Code_PolicyBundleTargetMismatch, Code_PolicyBundleStale, Code_Io, Code_LifecycleShutdown,
      Code_HealthUnhealthy, Code_IdentityInvalid, Code_IdentityRejected,
      Code_ControlPlaneUnreachable, Code_ResourceMissing, Code_BundleRejected,
      Code_SequenceRegression, Code_IpsProcessFailure, Code_IpsConfigInvalid,
      Code_IpsRuleSignatureInvalid, Code_IpsRuleSigningKeyUnknown, Code_IpsRuleStale,
      Code_IpsRuleBodyDecode, Code_IpsRuleBodyEncode, Code_IpsRuleValidate, Code_IpsEveDecode,
      Code_IpsRuleFeedFetch, Code_SwgProcessFailure, Code_SwgConfigInvalid,
      Code_SwgCategoryBundleSignatureInvalid, Code_SwgCategoryBundleSigningKeyUnknown,
      Code_SwgCategoryBundleStale, Code_SwgCategoryBundleBodyDecode, Code_SwgConfigValidate,
      Code_SwgExtAuthzDecode, Code_SwgYaraBundleSignatureInvalid,
      Code_SwgYaraBundleSigningKeyUnknown, Code_SwgYaraBundleStale,
      Code_SwgYaraBundleBodyDecode, Code_SwgYaraRuleCompile, Code_SwgInstallBusy,
      Code_SwgUrlModelSignatureInvalid, Code_SwgUrlModelSigningKeyUnknown,
      Code_SwgUrlModelStale, Code_SwgUrlModelBodyDecode, Code_SwgUrlModelBodyEncode,
      Code_SwgUrlModelInvalid, Code_UpdaterManifestBodyDecode,
      Code_UpdaterManifestSignatureInvalid, Code_UpdaterManifestSigningKeyUnknown,
      Code_UpdaterManifestStale, Code_UpdaterReinstallOfRolledBackVersion,
      Code_UpdaterPostCommitLayoutSync, Code_UpdaterLayoutDiverged,
      Code_UpdaterManifestTargetMismatch, Code_UpdaterImageHashMismatch,
      Code_UpdaterImageSizeExceeded, Code_UpdaterBankWriteFailure,
      Code_UpdaterBootloaderFailure, Code_UpdaterHealthCheckTimeout,
      Code_UpdaterHealthCheckFailed, Code_UpdaterInstallBusy,
      Code_UpdaterStateInvalidTransition, Code_Other]"

section \<open>The wire strings identify the codes\<close>

lemma all_error_codes_complete: "c \<in> set all_error_codes"
  by (cases c) (simp_all add: all_error_codes_def)

lemma distinct_error_code_strings: "distinct (map error_code_as_str all_error_codes)"
  by code_simp

text \<open>
  No two error codes share their wire string, so a dashboard that groups on the
  string groups on the code.
\<close>

theorem error_code_as_str_inj: "error_code_as_str c = error_code_as_str d \<longleftrightarrow> c = d"
  using distinct_error_code_strings all_error_codes_complete
  by (metis distinct_map inj_on_eq_iff)

end
