(* ===== verification/Policy_Verifier.thy ===== *)
theory Policy_Verifier
  imports Trust_Store Core_Error Policy_Rule
begin

text \<open>
  Signed policy bundles (\<open>sng-core/src/policy.rs\<close>, and the signing-key identifiers of
  \<open>ids.rs\<close>): the trust store, the signature check over the raw body, the authenticated
  claims and the target and staleness checks on them. The MessagePack decoder of the claims
  is a parameter.
\<close>

section \<open>Signing-key identifiers\<close>

datatype invalid_policy_signing_key_id = KeyId_Empty | KeyId_TooLong nat nat

definition key_id_max_len :: nat where
  "key_id_max_len = 64"

definition signing_key_id_new :: "string \<Rightarrow> invalid_policy_signing_key_id + string" where
  "signing_key_id_new v =
     (if v = [] then Inl KeyId_Empty
      else if length v > key_id_max_len then Inl (KeyId_TooLong (length v) key_id_max_len)
      else Inr v)"

definition signing_key_id_ephemeral :: string where
  "signing_key_id_ephemeral = []"

definition is_ephemeral :: "string \<Rightarrow> bool" where
  "is_ephemeral kid = (kid = [])"

text \<open>The wire boundary: the empty identifier is let through as the sentinel.\<close>

definition signing_key_id_deserialize :: "string \<Rightarrow> invalid_policy_signing_key_id + string" where
  "signing_key_id_deserialize raw =
     (if raw = [] then Inr signing_key_id_ephemeral else signing_key_id_new raw)"

section \<open>Bundles and claims\<close>

definition signature_length :: nat where
  "signature_length = 64"

text \<open>The wire form of a signature is a byte string that must have the right length.\<close>

definition bundle_signature_deserialize :: "bytes \<Rightarrow> (nat \<times> nat) + bytes" where
  "bundle_signature_deserialize b =
     (if length b = signature_length then Inr b else Inl (signature_length, length b))"

record policy_bundle =
  body :: bytes
  signature :: bytes
  signing_key_id :: string

type_synonym i64 = int
type_synonym datetime = int
type_synonym uuid = "128 word"

record policy_bundle_claims =
  claims_schema_version :: u8
  claims_target :: bundle_target
  claims_graph_id :: string
  claims_graph_version :: i64
  claims_compiler :: string
  claims_default_action :: string
  claims_compiled_at :: datetime

datatype verification_error =
    UnknownSigningKey string
  | EphemeralSigningKey
  | SignatureInvalid
  | BodySchema string
  | TargetMismatch uuid bundle_target bundle_target
  | Stale uuid i64 i64

fun verification_error_code :: "verification_error \<Rightarrow> error_code" where
  "verification_error_code (UnknownSigningKey _) = Code_PolicyBundleSigningKeyUnknown"
| "verification_error_code EphemeralSigningKey = Code_PolicyBundleSigningKeyUnknown"
| "verification_error_code SignatureInvalid = Code_PolicyBundleSignatureInvalid"
| "verification_error_code (BodySchema _) = Code_WireSchema"
| "verification_error_code (TargetMismatch _ _ _) = Code_PolicyBundleTargetMismatch"
| "verification_error_code (Stale _ _ _) = Code_PolicyBundleStale"

definition claims_from_body ::
  "(bytes \<Rightarrow> string + policy_bundle_claims) \<Rightarrow> bytes \<Rightarrow> verification_error + policy_bundle_claims" where
  "claims_from_body dec b = map_err (\<lambda>e. BodySchema (''decode claims: '' @ e)) (dec b)"

definition check_target ::
  "policy_bundle_claims \<Rightarrow> uuid \<Rightarrow> bundle_target \<Rightarrow> verification_error + unit" where
  "check_target c bundle_id expected =
     (if claims_target c = expected then Inr ()
      else Inl (TargetMismatch bundle_id (claims_target c) expected))"

definition check_not_stale ::
  "policy_bundle_claims \<Rightarrow> uuid \<Rightarrow> i64 option \<Rightarrow> verification_error + unit" where
  "check_not_stale c bundle_id current =
     (case current of
        None \<Rightarrow> Inr ()
      | Some cur \<Rightarrow>
          if claims_graph_version c \<ge> cur then Inr ()
          else Inl (Stale bundle_id (claims_graph_version c) cur))"

section \<open>The verifier\<close>

record 'key policy_verifier =
  verifier_keys :: "string \<rightharpoonup> 'key"

datatype add_key_error = AddKey_Ephemeral | AddKey_InvalidKey string

definition verifier_new :: "'key policy_verifier" where
  "verifier_new = \<lparr>verifier_keys = Map.empty\<rparr>"

definition verifier_add_key ::
  "'key ed25519_ops \<Rightarrow> string \<Rightarrow> bytes \<Rightarrow> 'key policy_verifier \<Rightarrow> add_key_error + 'key policy_verifier" where
  "verifier_add_key ops kid key_bytes v =
     (if is_ephemeral kid then Inl AddKey_Ephemeral
      else and_then (map_err AddKey_InvalidKey (key_from_bytes ops key_bytes))
        (\<lambda>key. Inr (v\<lparr>verifier_keys := (verifier_keys v)(kid \<mapsto> key)\<rparr>)))"

definition verifier_has_key :: "'key policy_verifier \<Rightarrow> string \<Rightarrow> bool" where
  "verifier_has_key v kid = (verifier_keys v kid \<noteq> None)"

definition verifier_verify ::
  "'key ed25519_ops \<Rightarrow> 'key policy_verifier \<Rightarrow> policy_bundle \<Rightarrow> verification_error + unit" where
  "verifier_verify ops v bundle =
     (if is_ephemeral (signing_key_id bundle) then Inl EphemeralSigningKey
      else
        (case verifier_keys v (signing_key_id bundle) of
           None \<Rightarrow> Inl (UnknownSigningKey (signing_key_id bundle))
         | Some key \<Rightarrow>
             map_err (\<lambda>_. SignatureInvalid) (key_verify ops key (body bundle) (signature bundle))))"

section \<open>What the verifier promises\<close>

lemma verifier_add_key_Inr:
  "verifier_add_key ops kid kb v = Inr v' \<longleftrightarrow>
     kid \<noteq> [] \<and> (\<exists>k. key_from_bytes ops kb = Inr k
       \<and> v' = v\<lparr>verifier_keys := (verifier_keys v)(kid \<mapsto> k)\<rparr>)"
  by (auto simp: verifier_add_key_def is_ephemeral_def and_then_Inr)

lemma verifier_verify_Inr:
  "verifier_verify ops v b = Inr () \<longleftrightarrow> signing_key_id b \<noteq> []
     \<and> (\<exists>k. verifier_keys v (signing_key_id b) = Some k
          \<and> key_verify ops k (body b) (signature b) = Inr ())"
  by (auto simp: verifier_verify_def is_ephemeral_def split: option.splits)

interpretation policy_store: trust_store ops is_ephemeral verifier_keys "verifier_add_key ops"
  "verifier_verify ops" signing_key_id body signature for ops
  by unfold_locales (auto simp: verifier_add_key_Inr verifier_verify_Inr is_ephemeral_def)

section \<open>Properties of the verifier\<close>

text \<open>
  A bundle passes only if it is authentic: its key identifier is not the ephemeral
  sentinel, an operator installed public-key bytes under that identifier, and the key they
  decode to validates the signature over the bundle's whole body. Whatever sequence of
  installations, refused ones included, led to the store.
\<close>

theorem verified_bundle_is_authentic:
  assumes "verifier_verify ops (fold (\<lambda>(kid, kb) v. case verifier_add_key ops kid kb v of
      Inl _ \<Rightarrow> v | Inr v' \<Rightarrow> v') ks verifier_new) b = Inr ()"
  shows "signing_key_id b \<noteq> [] \<and> (\<exists>kb key. (signing_key_id b, kb) \<in> set ks
    \<and> key_from_bytes ops kb = Inr key \<and> key_verify ops key (body b) (signature b) = Inr ())"
proof -
  have "verifier_keys (verifier_new :: 'a policy_verifier) = Map.empty" by (simp add: verifier_new_def)
  then show ?thesis
    using policy_store.accepted_is_authentic [of verifier_new ops ks b "()"] assms
    unfolding policy_store.install_def is_ephemeral_def by blast
qed

theorem verified_bundle_is_authentic_witness:
  "verifier_verify echo_ops (fold (\<lambda>(kid, kb) v. case verifier_add_key echo_ops kid kb v of
      Inl _ \<Rightarrow> v | Inr v' \<Rightarrow> v') [([], [9]), (''k1'', [7])] verifier_new)
     \<lparr>body = [1, 2], signature = [7, 1, 2], signing_key_id = ''k1''\<rparr> = Inr ()
   \<and> (\<exists>kb. (''k1'', kb) \<in> set [([], [9]), (''k1'', [7])] \<and> key_from_bytes echo_ops kb = Inr [7])"
proof -
  have v: "verifier_verify echo_ops (fold (\<lambda>(kid, kb) v. case verifier_add_key echo_ops kid kb v of
      Inl _ \<Rightarrow> v | Inr v' \<Rightarrow> v') [([], [9]), (''k1'', [7])] verifier_new)
     \<lparr>body = [1, 2], signature = [7, 1, 2], signing_key_id = ''k1''\<rparr> = Inr ()"
    by (simp add: verifier_verify_def verifier_add_key_def is_ephemeral_def echo_ops_def verifier_new_def)
  from verified_bundle_is_authentic [OF v] v show ?thesis
    by (auto simp: echo_ops_def split: if_splits)
qed

end
