(* ===== verification/Policy_Bundle.thy ===== *)
theory Policy_Bundle
  imports Policy_Steering Policy_Verifier
begin

text \<open>
  Loading a verified bundle body (\<open>sng-policy-eval/src/bundle.rs\<close>, with the errors of
  \<open>error.rs\<close>): the wire envelope, the checks on it, the index of named vertices, the boot
  skeleton. The MessagePack and JSON decoders and the UUID parser are third-party; they are
  the fields of \<open>bundle_codec\<close>, and a decoder that fails gives the text of its error.
\<close>

section \<open>Wire envelope, loaded bundle, errors\<close>

definition max_supported_schema_version :: u8 where
  "max_supported_schema_version = 1"

record raw_bundle =
  raw_schema_version :: u8
  raw_target :: bundle_target
  raw_graph_id :: string
  raw_graph_version :: i64
  raw_compiler :: string
  raw_default_action :: string
  raw_rules_json :: bytes
  raw_steering_json :: bytes
  raw_malware_json :: bytes
  raw_dlp_json :: bytes
  raw_compiled_at :: datetime

record malware_entry =
  malware_hash :: string
  malware_verdict :: string

record 'net loaded_bundle =
  schema_version :: u8
  bundle_target_of :: bundle_target
  graph_id :: string
  graph_version :: i64
  compiler :: string
  default_verb :: verb
  default_action_raw :: string
  rules :: "'net rule list"
  steering :: "'net steering_table"
  steering_raw :: "steering_rule_set option"
  malware :: "malware_entry list"
  dlp :: "bytes option"
  compiled_at :: datetime
  named_subjects :: "string \<rightharpoonup> 'net subject"
  named_predicates :: "string \<rightharpoonup> 'net rule_predicate"

record 'net bundle_codec =
  dec_envelope :: "bytes \<Rightarrow> string + raw_bundle"
  enc_envelope :: "raw_bundle \<Rightarrow> bytes"
  dec_rules :: "bytes \<Rightarrow> string + 'net rule list"
  dec_steering :: "bytes \<Rightarrow> string + steering_rule_set"
  dec_malware :: "bytes \<Rightarrow> string + malware_entry list"
  parse_uuid :: "string \<Rightarrow> string + uuid"

datatype policy_eval_error =
    EnvelopeDecode string
  | RulesDecode string
  | SteeringDecode string
  | MalwareDecode string
  | SchemaVersionTooNew u8 u8
  | EvalTargetMismatch string string
  | EvalStale uuid i64 i64
  | SuggestOnlyMissingSuggestion "string option"

fun policy_eval_error_code :: "policy_eval_error \<Rightarrow> error_code" where
  "policy_eval_error_code (EnvelopeDecode _) = Code_BundleRejected"
| "policy_eval_error_code (RulesDecode _) = Code_BundleRejected"
| "policy_eval_error_code (SteeringDecode _) = Code_BundleRejected"
| "policy_eval_error_code (MalwareDecode _) = Code_BundleRejected"
| "policy_eval_error_code (SchemaVersionTooNew _ _) = Code_BundleRejected"
| "policy_eval_error_code (SuggestOnlyMissingSuggestion _) = Code_BundleRejected"
| "policy_eval_error_code (EvalTargetMismatch _ _) = Code_PolicyBundleTargetMismatch"
| "policy_eval_error_code (EvalStale _ _ _) = Code_PolicyBundleStale"

section \<open>Decoding\<close>

definition parse_default_verb :: "string \<Rightarrow> verb" where
  "parse_default_verb raw =
     (if raw = ''allow'' then Verb_Allow
      else if raw = ''inspect'' then Verb_Inspect
      else if raw = ''steer'' then Verb_Steer
      else if raw = ''decrypt'' then Verb_Decrypt
      else if raw = ''log'' then Verb_Log
      else if raw = ''suggest_only'' then Verb_SuggestOnly
      else Verb_Deny)"

definition index_subject ::
  "'net subject \<Rightarrow> (string \<rightharpoonup> 'net subject) \<Rightarrow> (string \<rightharpoonup> 'net subject)" where
  "index_subject s m = (if subject_name s \<noteq> [] then or_insert m (subject_name s) s else m)"

definition index_predicate ::
  "'net rule_predicate \<Rightarrow> (string \<rightharpoonup> 'net rule_predicate) \<Rightarrow> (string \<rightharpoonup> 'net rule_predicate)" where
  "index_predicate p m = (if predicate_name p \<noteq> [] then or_insert m (predicate_name p) p else m)"

definition build_vertex_indices ::
  "'net rule list \<Rightarrow> (string \<rightharpoonup> 'net subject) \<times> (string \<rightharpoonup> 'net rule_predicate)" where
  "build_vertex_indices rs =
     fold (\<lambda>r (ms, mp). (fold index_subject (subjects r) ms, fold index_predicate (predicates r) mp))
       rs (Map.empty, Map.empty)"

text \<open>\<open>matches!(rule.suggested_verb, Some(v) if v != Verb::SuggestOnly)\<close>\<close>

definition has_suggestion :: "'net rule \<Rightarrow> bool" where
  "has_suggestion r =
     (case suggested_verb r of Some v \<Rightarrow> v \<noteq> Verb_SuggestOnly | None \<Rightarrow> False)"

fun check_suggestions :: "'net rule list \<Rightarrow> policy_eval_error + unit" where
  "check_suggestions [] = Inr ()"
| "check_suggestions (r # rs) =
     (if rule_verb r = Verb_SuggestOnly \<and> \<not> has_suggestion r
      then Inl (SuggestOnlyMissingSuggestion (Some (rule_id r)))
      else check_suggestions rs)"

definition decode_rules :: "'net bundle_codec \<Rightarrow> raw_bundle \<Rightarrow> policy_eval_error + 'net rule list" where
  "decode_rules cd raw =
     (if raw_rules_json raw = [] then Inr []
      else map_err (\<lambda>e. RulesDecode (''decode rule table: '' @ e)) (dec_rules cd (raw_rules_json raw)))"

definition decode_steering ::
  "'net ipnet_ops \<Rightarrow> 'net bundle_codec \<Rightarrow> raw_bundle
     \<Rightarrow> policy_eval_error + ('net steering_table \<times> steering_rule_set option)" where
  "decode_steering nops cd raw =
     (if raw_steering_json raw = [] then Inr (empty_steering_table, None)
      else and_then
        (map_err (\<lambda>e. SteeringDecode (''decode steering table: '' @ e)) (dec_steering cd (raw_steering_json raw)))
        (\<lambda>rs. Inr (from_rule_set nops rs, Some rs)))"

definition decode_malware :: "'net bundle_codec \<Rightarrow> raw_bundle \<Rightarrow> policy_eval_error + malware_entry list" where
  "decode_malware cd raw =
     (if raw_malware_json raw = [] then Inr []
      else map_err (\<lambda>e. MalwareDecode (''decode malware table: '' @ e)) (dec_malware cd (raw_malware_json raw)))"

definition from_body ::
  "'net ipnet_ops \<Rightarrow> 'net bundle_codec \<Rightarrow> bytes \<Rightarrow> bundle_target \<Rightarrow> policy_eval_error + 'net loaded_bundle" where
  "from_body nops cd b target =
     and_then (map_err (\<lambda>e. EnvelopeDecode (''decode bundle envelope: '' @ e)) (dec_envelope cd b)) (\<lambda>raw.
     if raw_schema_version raw > max_supported_schema_version
     then Inl (SchemaVersionTooNew (raw_schema_version raw) max_supported_schema_version)
     else if raw_target raw \<noteq> target
     then Inl (EvalTargetMismatch (bundle_target_as_str (raw_target raw)) (bundle_target_as_str target))
     else
     and_then (decode_rules cd raw) (\<lambda>rs.
     and_then (decode_steering nops cd raw) (\<lambda>(table, st_raw).
     and_then (decode_malware cd raw) (\<lambda>mw.
     let dl = (if raw_dlp_json raw = [] then None else Some (raw_dlp_json raw));
         dv = parse_default_verb (raw_default_action raw) in
     and_then (check_suggestions rs) (\<lambda>_.
     if dv = Verb_SuggestOnly then Inl (SuggestOnlyMissingSuggestion None)
     else
       let (ns, np) = build_vertex_indices rs in
       Inr \<lparr>schema_version = raw_schema_version raw, bundle_target_of = raw_target raw,
            graph_id = raw_graph_id raw, graph_version = raw_graph_version raw,
            compiler = raw_compiler raw, default_verb = dv,
            default_action_raw = raw_default_action raw, rules = rs, steering = table,
            steering_raw = st_raw, malware = mw, dlp = dl, compiled_at = raw_compiled_at raw,
            named_subjects = ns, named_predicates = np\<rparr>)))))"

definition bundle_id :: "'net bundle_codec \<Rightarrow> 'net loaded_bundle \<Rightarrow> uuid option" where
  "bundle_id cd b = (case parse_uuid cd (graph_id b) of Inr u \<Rightarrow> Some u | Inl _ \<Rightarrow> None)"

definition rule_count :: "'net loaded_bundle \<Rightarrow> nat" where
  "rule_count b = length (rules b)"

section \<open>The boot skeleton\<close>

definition deny_all_skeleton :: "bundle_target \<Rightarrow> datetime \<Rightarrow> raw_bundle" where
  "deny_all_skeleton target now =
     \<lparr>raw_schema_version = max_supported_schema_version, raw_target = target,
      raw_graph_id = ''00000000-0000-0000-0000-000000000001'', raw_graph_version = 0,
      raw_compiler = ''sng-bundle-skeleton'', raw_default_action = ''deny'',
      raw_rules_json = [0x5B, 0x5D], raw_steering_json = [], raw_malware_json = [],
      raw_dlp_json = [], raw_compiled_at = now\<rparr>"

definition deny_all_skeleton_body :: "'net bundle_codec \<Rightarrow> bundle_target \<Rightarrow> datetime \<Rightarrow> bytes" where
  "deny_all_skeleton_body cd target now = enc_envelope cd (deny_all_skeleton target now)"

section \<open>What a loaded bundle satisfies\<close>

text \<open>
  The first vertex with a given name, in rule order: what the named-vertex index must hold.
\<close>

definition named_subject_list :: "'net rule list \<Rightarrow> (string \<times> 'net subject) list" where
  "named_subject_list rs =
     map (\<lambda>s. (subject_name s, s)) (filter (\<lambda>s. subject_name s \<noteq> []) (concat (map subjects rs)))"

definition named_predicate_list :: "'net rule list \<Rightarrow> (string \<times> 'net rule_predicate) list" where
  "named_predicate_list rs =
     map (\<lambda>p. (predicate_name p, p)) (filter (\<lambda>p. predicate_name p \<noteq> []) (concat (map predicates rs)))"

text \<open>The invariant of loaded bundles.\<close>

definition wf_bundle :: "bundle_target \<Rightarrow> 'net loaded_bundle \<Rightarrow> bool" where
  "wf_bundle target b \<longleftrightarrow>
     schema_version b \<le> max_supported_schema_version \<and> bundle_target_of b = target
     \<and> default_verb b \<noteq> Verb_SuggestOnly
     \<and> (\<forall>r \<in> set (rules b). rule_verb r = Verb_SuggestOnly \<longrightarrow>
          (\<exists>v. suggested_verb r = Some v \<and> v \<noteq> Verb_SuggestOnly))
     \<and> named_subjects b = map_of (named_subject_list (rules b))
     \<and> named_predicates b = map_of (named_predicate_list (rules b))"

lemma fold_index_subject:
  "fold index_subject ss m =
     map_of (map (\<lambda>s. (subject_name s, s)) (filter (\<lambda>s. subject_name s \<noteq> []) ss)) ++ m"
  by (induction ss arbitrary: m) (auto simp: index_subject_def or_insert_eq map_add_upd_left)

lemma fold_index_predicate:
  "fold index_predicate ps m =
     map_of (map (\<lambda>p. (predicate_name p, p)) (filter (\<lambda>p. predicate_name p \<noteq> []) ps)) ++ m"
  by (induction ps arbitrary: m) (auto simp: index_predicate_def or_insert_eq map_add_upd_left)

lemma build_vertex_indices_from:
  "fold (\<lambda>r (ms, mp). (fold index_subject (subjects r) ms, fold index_predicate (predicates r) mp)) rs (ms, mp)
     = (map_of (named_subject_list rs) ++ ms, map_of (named_predicate_list rs) ++ mp)"
  by (induction rs arbitrary: ms mp)
    (simp_all add: fold_index_subject fold_index_predicate named_subject_list_def
      named_predicate_list_def map_add_assoc)

lemma build_vertex_indices_eq:
  "build_vertex_indices rs = (map_of (named_subject_list rs), map_of (named_predicate_list rs))"
  by (simp add: build_vertex_indices_def build_vertex_indices_from)

lemma check_suggestions_Inr:
  "check_suggestions rs = Inr () \<longleftrightarrow>
     (\<forall>r \<in> set rs. rule_verb r = Verb_SuggestOnly \<longrightarrow>
        (\<exists>v. suggested_verb r = Some v \<and> v \<noteq> Verb_SuggestOnly))"
  by (induction rs) (auto simp: has_suggestion_def split: option.splits)

lemma if_Inl_Inr: "(if c then Inl e else m) = Inr x \<longleftrightarrow> \<not> c \<and> m = Inr x"
  by simp

lemma from_body_Inr:
  "from_body nops cd b target = Inr lb \<longleftrightarrow>
     (\<exists>raw rs tbl st mw. dec_envelope cd b = Inr raw
        \<and> raw_schema_version raw \<le> max_supported_schema_version
        \<and> raw_target raw = target \<and> decode_rules cd raw = Inr rs
        \<and> decode_steering nops cd raw = Inr (tbl, st) \<and> decode_malware cd raw = Inr mw
        \<and> check_suggestions rs = Inr ()
        \<and> parse_default_verb (raw_default_action raw) \<noteq> Verb_SuggestOnly
        \<and> lb = \<lparr>schema_version = raw_schema_version raw, bundle_target_of = raw_target raw,
            graph_id = raw_graph_id raw, graph_version = raw_graph_version raw,
            compiler = raw_compiler raw, default_verb = parse_default_verb (raw_default_action raw),
            default_action_raw = raw_default_action raw, rules = rs, steering = tbl,
            steering_raw = st, malware = mw,
            dlp = (if raw_dlp_json raw = [] then None else Some (raw_dlp_json raw)),
            compiled_at = raw_compiled_at raw,
            named_subjects = map_of (named_subject_list rs),
            named_predicates = map_of (named_predicate_list rs)\<rparr>)"
  unfolding from_body_def and_then_Inr if_Inl_Inr map_err_Inr Let_def build_vertex_indices_eq
    prod.case split_paired_Ex sum.inject not_less not_not eq_commute [of lb]
  by (simp only: ex_simps prod.case ex_unit simp_thms)

lemma from_body_wf: "from_body nops cd b target = Inr lb \<Longrightarrow> wf_bundle target lb"
  by (auto simp: from_body_Inr wf_bundle_def check_suggestions_Inr)

lemma decode_rules_Inr:
  "decode_rules cd raw = Inr rs \<longleftrightarrow>
     (if raw_rules_json raw = [] then rs = [] else dec_rules cd (raw_rules_json raw) = Inr rs)"
  by (auto simp: decode_rules_def)

lemma decode_steering_ok:
  "(\<exists>p. decode_steering nops cd raw = Inr p) \<longleftrightarrow>
     raw_steering_json raw = [] \<or> (\<exists>x. dec_steering cd (raw_steering_json raw) = Inr x)"
  by (auto simp: decode_steering_def and_then_Inr)

lemma decode_malware_ok:
  "(\<exists>mw. decode_malware cd raw = Inr mw) \<longleftrightarrow>
     raw_malware_json raw = [] \<or> (\<exists>x. dec_malware cd (raw_malware_json raw) = Inr x)"
  by (auto simp: decode_malware_def)

lemma parse_default_verb_suggest_only:
  "parse_default_verb d = Verb_SuggestOnly \<longleftrightarrow> d = ''suggest_only''"
  by (auto simp: parse_default_verb_def)

lemma check_suggestions_list_all:
  "check_suggestions rs = Inr () \<longleftrightarrow>
     list_all (\<lambda>r. rule_verb r \<noteq> Verb_SuggestOnly \<or> has_suggestion r) rs"
  by (induction rs) auto

lemma from_body_accepts:
  "(\<exists>lb. from_body nops cd b target = Inr lb) \<longleftrightarrow>
     (\<exists>raw rs. dec_envelope cd b = Inr raw \<and> raw_schema_version raw \<le> max_supported_schema_version
        \<and> raw_target raw = target \<and> decode_rules cd raw = Inr rs
        \<and> (\<exists>p. decode_steering nops cd raw = Inr p) \<and> (\<exists>mw. decode_malware cd raw = Inr mw)
        \<and> parse_default_verb (raw_default_action raw) \<noteq> Verb_SuggestOnly
        \<and> check_suggestions rs = Inr ())"
  unfolding from_body_Inr split_paired_Ex by fast

section \<open>Properties of loading\<close>

text \<open>
  A concrete codec for one body: the skeleton of the edge, compiled at time 0, is the only body
  that decodes. It serves the closed examples.
\<close>

definition skeleton_codec :: "'net bundle_codec" where
  "skeleton_codec =
     \<lparr>dec_envelope = (\<lambda>b. if b = [1] then Inr (deny_all_skeleton Edge 0) else Inl ''malformed''),
      enc_envelope = (\<lambda>_. [1]),
      dec_rules = (\<lambda>b. if b = [0x5B, 0x5D] then Inr [] else Inl ''malformed''),
      dec_steering = (\<lambda>_. Inl ''malformed''), dec_malware = (\<lambda>_. Inl ''malformed''),
      parse_uuid = (\<lambda>_. Inr 1)\<rparr>"

definition skeleton_bundle :: "'net loaded_bundle" where
  "skeleton_bundle =
     \<lparr>schema_version = 1, bundle_target_of = Edge, graph_id = ''00000000-0000-0000-0000-000000000001'',
      graph_version = 0, compiler = ''sng-bundle-skeleton'', default_verb = Verb_Deny,
      default_action_raw = ''deny'', rules = [], steering = empty_steering_table,
      steering_raw = None, malware = [], dlp = None, compiled_at = 0,
      named_subjects = Map.empty, named_predicates = Map.empty\<rparr>"

lemma skeleton_codec_loads: "from_body nops skeleton_codec [1] Edge = Inr skeleton_bundle"
  by (simp add: from_body_def skeleton_codec_def deny_all_skeleton_def decode_rules_def
      decode_steering_def decode_malware_def max_supported_schema_version_def
      parse_default_verb_def build_vertex_indices_def skeleton_bundle_def)

text \<open>
  Claim C15. Every bundle that loads is well-formed: its schema version is supported, it was
  compiled for the requested target, its default is not suggest-only, each of its suggest-only
  rules carries a suggestion that is not itself suggest-only, and the indices of named subjects
  and predicates hold, for each non-empty name, the first vertex with that name.
\<close>

theorem from_body_establishes_wf:
  assumes "from_body nops cd b target = Inr lb"
  shows "wf_bundle target lb"
  using assms by (rule from_body_wf)

theorem from_body_establishes_wf_witness:
  "from_body v4_net_ops skeleton_codec [1] Edge = Inr skeleton_bundle \<and> wf_bundle Edge (skeleton_bundle :: (u32 \<times> u8) loaded_bundle)"
  using from_body_establishes_wf [OF skeleton_codec_loads] skeleton_codec_loads by blast

text \<open>
  Which bodies load: exactly those whose envelope, rule table, steering table and
  malware table decode (an empty table counts as decoded), whose schema version is supported,
  whose target is the requested one and whose suggest-only rules and default are well-formed.
\<close>

theorem from_body_accepts_iff:
  "(\<exists>lb. from_body nops cd b target = Inr lb) \<longleftrightarrow>
     (\<exists>raw rs. dec_envelope cd b = Inr raw \<and> raw_schema_version raw \<le> 1 \<and> raw_target raw = target
        \<and> (if raw_rules_json raw = [] then rs = [] else dec_rules cd (raw_rules_json raw) = Inr rs)
        \<and> (raw_steering_json raw = [] \<or> (\<exists>x. dec_steering cd (raw_steering_json raw) = Inr x))
        \<and> (raw_malware_json raw = [] \<or> (\<exists>x. dec_malware cd (raw_malware_json raw) = Inr x))
        \<and> raw_default_action raw \<noteq> ''suggest_only''
        \<and> list_all (\<lambda>r. rule_verb r \<noteq> Verb_SuggestOnly \<or> has_suggestion r) rs)"
  unfolding from_body_accepts decode_rules_Inr decode_steering_ok decode_malware_ok check_suggestions_list_all
    parse_default_verb_suggest_only max_supported_schema_version_def by blast

theorem from_body_accepts_iff_witness:
  "(\<exists>lb. from_body v4_net_ops skeleton_codec [1] Edge = Inr lb)
   \<and> \<not> (\<exists>lb. from_body v4_net_ops skeleton_codec [2] Edge = Inr lb)"
  using from_body_accepts_iff [of v4_net_ops skeleton_codec "[1]" Edge]
    from_body_accepts_iff [of v4_net_ops skeleton_codec "[2]" Edge]
  by (simp add: skeleton_codec_def deny_all_skeleton_def max_supported_schema_version_def)

end
