(* ===== verification/CAS_Loop.thy ===== *)
theory CAS_Loop
  imports SNG_Prelude
begin

text \<open>
  Shared cells updated by compare-and-swap loops, under every interleaving of the threads.
  Two places of the program use such a loop: \<open>ArcSwap::rcu\<close> in the policy engine's bundle swap,
  and the \<open>AtomicU64\<close> of the fencing gate. A thread loads the cell, computes its next value
  from the snapshot, and installs it only if the cell still holds the snapshot; otherwise it
  starts over. The steps of the threads are a relation; the history is a ghost record of the
  operations in the order in which they took effect.
\<close>

section \<open>Operations, threads and steps\<close>

datatype ('v, 'r) loop_exit = Return 'r | Cas 'v 'r

datatype ('v, 'r) cell_op = Rmw "'v \<Rightarrow> ('v, 'r) loop_exit" | Store 'v 'r

fun apply_op :: "('v, 'r) cell_op \<Rightarrow> 'v \<Rightarrow> 'r \<times> 'v" where
  "apply_op (Rmw f) v = (case f v of Return r \<Rightarrow> (r, v) | Cas v' r \<Rightarrow> (r, v'))"
| "apply_op (Store v' r) v = (r, v')"

datatype ('v, 'r) thread = Pending "('v, 'r) cell_op" | Loaded "'v \<Rightarrow> ('v, 'r) loop_exit" 'v | Done 'r

record ('v, 'r) cell_sys =
  cell :: 'v
  threads :: "nat \<Rightarrow> ('v, 'r) thread"
  history :: "(nat \<times> 'r) list"

definition cell_init :: "'v \<Rightarrow> (nat \<Rightarrow> ('v, 'r) cell_op) \<Rightarrow> ('v, 'r) cell_sys" where
  "cell_init v0 ops = \<lparr>cell = v0, threads = (\<lambda>t. Pending (ops t)), history = []\<rparr>"

definition set_thread ::
  "nat \<Rightarrow> ('v, 'r) thread \<Rightarrow> ('v, 'r) cell_sys \<Rightarrow> ('v, 'r) cell_sys" where
  "set_thread t p s = s\<lparr>threads := (threads s)(t := p)\<rparr>"

text \<open>Thread \<open>t\<close> takes effect: it leaves the cell at \<open>v\<close> and returns \<open>r\<close>.\<close>

definition finish :: "nat \<Rightarrow> 'v \<Rightarrow> 'r \<Rightarrow> ('v, 'r) cell_sys \<Rightarrow> ('v, 'r) cell_sys" where
  "finish t v r s = (set_thread t (Done r) s)\<lparr>cell := v, history := history s @ [(t, r)]\<rparr>"

inductive cas_step :: "('v, 'r) cell_sys \<Rightarrow> ('v, 'r) cell_sys \<Rightarrow> bool" where
  load: "threads s t = Pending (Rmw f) \<Longrightarrow> f (cell s) = Cas v' r \<Longrightarrow>
    cas_step s (set_thread t (Loaded f (cell s)) s)"
| load_return: "threads s t = Pending (Rmw f) \<Longrightarrow> f (cell s) = Return r \<Longrightarrow>
    cas_step s (finish t (cell s) r s)"
| cas_ok: "threads s t = Loaded f v \<Longrightarrow> f v = Cas v' r \<Longrightarrow> cell s = v \<Longrightarrow>
    cas_step s (finish t v' r s)"
| cas_fail: "threads s t = Loaded f v \<Longrightarrow> cell s \<noteq> v \<Longrightarrow>
    cas_step s (set_thread t (Pending (Rmw f)) s)"
| store: "threads s t = Pending (Store v' r) \<Longrightarrow>
    cas_step s (finish t v' r s)"

inductive_cases cas_stepE: "cas_step s s'"

section \<open>Sequential reading of a history\<close>

text \<open>A history is legal when each operation, run alone in turn, gives the recorded result.\<close>

fun legal :: "(nat \<Rightarrow> ('v, 'r) cell_op) \<Rightarrow> 'v \<Rightarrow> (nat \<times> 'r) list \<Rightarrow> bool" where
  "legal ops v [] = True"
| "legal ops v ((t, r) # h) = (fst (apply_op (ops t) v) = r \<and> legal ops (snd (apply_op (ops t) v)) h)"

fun replay :: "(nat \<Rightarrow> ('v, 'r) cell_op) \<Rightarrow> 'v \<Rightarrow> (nat \<times> 'r) list \<Rightarrow> 'v" where
  "replay ops v [] = v"
| "replay ops v ((t, r) # h) = replay ops (snd (apply_op (ops t) v)) h"

lemma replay_append: "replay ops v (h @ h') = replay ops (replay ops v h) h'"
  by (induction h arbitrary: v) auto

lemma legal_append: "legal ops v (h @ h') \<longleftrightarrow> legal ops v h \<and> legal ops (replay ops v h) h'"
  by (induction h arbitrary: v) auto

section \<open>Every interleaving has a sequential reading\<close>

text \<open>
  The invariant: the history is legal and ends in the cell, a finished thread is in it
  exactly once and with its result, and an unfinished one not at all.
\<close>

definition linearized ::
  "'v \<Rightarrow> (nat \<Rightarrow> ('v, 'r) cell_op) \<Rightarrow> ('v, 'r) cell_sys \<Rightarrow> bool" where
  "linearized v0 ops s \<longleftrightarrow>
     legal ops v0 (history s) \<and> cell s = replay ops v0 (history s)
     \<and> distinct (map fst (history s))
     \<and> (\<forall>t. case threads s t of
           Pending p \<Rightarrow> p = ops t \<and> t \<notin> fst ` set (history s)
         | Loaded f v \<Rightarrow> ops t = Rmw f \<and> t \<notin> fst ` set (history s) \<and> (\<exists>v' r. f v = Cas v' r)
         | Done r \<Rightarrow> (t, r) \<in> set (history s))"

lemma linearized_init: "linearized v0 ops (cell_init v0 ops)"
  by (simp add: linearized_def cell_init_def)

lemma linearizedD:
  assumes "linearized v0 ops s"
  shows "threads s t = Pending p \<Longrightarrow> p = ops t \<and> t \<notin> fst ` set (history s)"
    and "threads s t = Loaded f v \<Longrightarrow> ops t = Rmw f \<and> t \<notin> fst ` set (history s) \<and> (\<exists>v' r. f v = Cas v' r)"
    and "threads s t = Done r \<Longrightarrow> (t, r) \<in> set (history s)"
    and "legal ops v0 (history s)" "cell s = replay ops v0 (history s)"
  using assms unfolding linearized_def by (auto split: thread.splits)

lemma linearized_finish:
  assumes lin: "linearized v0 ops s" and new: "t \<notin> fst ` set (history s)"
    and eff: "apply_op (ops t) (cell s) = (r, v)"
  shows "linearized v0 ops (finish t v r s)"
  using assms unfolding linearized_def finish_def set_thread_def
  by (auto simp: legal_append replay_append split: thread.splits)

lemma linearized_set_thread:
  assumes "linearized v0 ops s"
    and "case p of Pending q \<Rightarrow> q = ops t \<and> t \<notin> fst ` set (history s)
       | Loaded f v \<Rightarrow> ops t = Rmw f \<and> t \<notin> fst ` set (history s) \<and> (\<exists>v' r. f v = Cas v' r)
       | Done r \<Rightarrow> False"
  shows "linearized v0 ops (set_thread t p s)"
  using assms unfolding linearized_def set_thread_def by (auto split: thread.splits)

lemma linearized_step:
  assumes "cas_step s s'" "linearized v0 ops s"
  shows "linearized v0 ops s'"
  using assms(1)
proof cases
  case (load t f v' r)
  have "ops t = Rmw f \<and> t \<notin> fst ` set (history s)"
    using linearizedD(1) [OF assms(2) load(2)] by simp
  then show ?thesis using load by (simp add: linearized_set_thread [OF assms(2)])
next
  case (load_return t f r)
  have "ops t = Rmw f \<and> t \<notin> fst ` set (history s)"
    using linearizedD(1) [OF assms(2) load_return(2)] by simp
  then show ?thesis using load_return by (simp add: linearized_finish [OF assms(2)])
next
  case (cas_ok t f v v' r)
  have "ops t = Rmw f \<and> t \<notin> fst ` set (history s)"
    using linearizedD(2) [OF assms(2) cas_ok(2)] by simp
  then show ?thesis using cas_ok by (simp add: linearized_finish [OF assms(2)])
next
  case (cas_fail t f v)
  have "ops t = Rmw f \<and> t \<notin> fst ` set (history s)"
    using linearizedD(2) [OF assms(2) cas_fail(2)] by simp
  then show ?thesis using cas_fail by (simp add: linearized_set_thread [OF assms(2)])
next
  case (store t v' r)
  have "ops t = Store v' r \<and> t \<notin> fst ` set (history s)"
    using linearizedD(1) [OF assms(2) store(2)] by simp
  then show ?thesis using store by (simp add: linearized_finish [OF assms(2)])
qed

theorem cas_linearizable:
  assumes "cas_step\<^sup>*\<^sup>* (cell_init v0 ops) s"
  shows "linearized v0 ops s"
  using assms by (induction rule: rtranclp_induct) (auto intro: linearized_init linearized_step)

section \<open>Every thread can finish\<close>

text \<open>A thread that is left alone finishes, whatever the others did before.\<close>

lemma solo_from_pending:
  assumes "threads s t = Pending p"
  shows "\<exists>s'. cas_step\<^sup>*\<^sup>* s s' \<and> threads s' t = Done (fst (apply_op p (cell s)))"
proof (cases p)
  case (Store v' r)
  then have "cas_step s (finish t v' r s)" using assms by (auto intro: cas_step.store)
  then show ?thesis by (intro exI [of _ "finish t v' r s"]) (simp add: Store finish_def set_thread_def)
next
  case (Rmw f)
  show ?thesis
  proof (cases "f (cell s)")
    case (Return r)
    then have "cas_step s (finish t (cell s) r s)" using assms Rmw by (auto intro: cas_step.load_return)
    then show ?thesis
      by (intro exI [of _ "finish t (cell s) r s"]) (simp add: Rmw Return finish_def set_thread_def)
  next
    case (Cas v' r)
    let ?s1 = "set_thread t (Loaded f (cell s)) s"
    have "cas_step s ?s1" using assms Rmw Cas by (auto intro: cas_step.load)
    moreover have "cas_step ?s1 (finish t v' r ?s1)"
      by (rule cas_step.cas_ok [where f = f and v = "cell s"]) (simp_all add: Cas set_thread_def)
    ultimately have "cas_step\<^sup>*\<^sup>* s (finish t v' r ?s1)" by simp
    then show ?thesis
      by (intro exI [of _ "finish t v' r ?s1"]) (simp add: Rmw Cas finish_def set_thread_def)
  qed
qed

lemma solo_completes:
  assumes lin: "linearized v0 ops s"
  shows "\<exists>s' r. cas_step\<^sup>*\<^sup>* s s' \<and> threads s' t = Done r"
proof (cases "threads s t")
  case (Pending p)
  then obtain s' where "cas_step\<^sup>*\<^sup>* s s'" "threads s' t = Done (fst (apply_op p (cell s)))"
    using solo_from_pending by fast
  then show ?thesis by (intro exI [of _ s'] exI) simp
next
  case (Loaded f v)
  show ?thesis
  proof (cases "cell s = v")
    case True
    obtain v' r where "f v = Cas v' r" using linearizedD(2) [OF lin Loaded] by blast
    then have "cas_step s (finish t v' r s)" using Loaded True by (blast intro: cas_step.cas_ok)
    then show ?thesis
      by (intro exI [of _ "finish t v' r s"] exI [of _ r]) (simp add: finish_def set_thread_def)
  next
    case False
    let ?s1 = "set_thread t (Pending (Rmw f)) s"
    have "cas_step s ?s1" using Loaded False by (rule cas_step.cas_fail)
    moreover have "threads ?s1 t = Pending (Rmw f)" by (simp add: set_thread_def)
    ultimately obtain s' r where "cas_step\<^sup>*\<^sup>* ?s1 s'" "threads s' t = Done r"
      using solo_from_pending [of ?s1 t "Rmw f"] by auto
    then show ?thesis
      using \<open>cas_step s ?s1\<close> by (intro exI [of _ s'] exI [of _ r]) (simp add: converse_rtranclp_into_rtranclp)
  qed
next
  case (Done r)
  then show ?thesis by (intro exI [of _ s] exI [of _ r]) simp
qed

section \<open>Cells that only grow\<close>

text \<open>
  When every operation moves the cell up in an order, no interleaving ever moves it down: what
  a sequential argument shows of single operations holds of the concurrent object.
\<close>

locale growing_cell =
  fixes le :: "'v \<Rightarrow> 'v \<Rightarrow> bool" and ops :: "nat \<Rightarrow> ('v, 'r) cell_op"
  assumes le_refl: "le v v"
    and le_trans: "le u v \<Longrightarrow> le v w \<Longrightarrow> le u w"
    and op_grows: "le v (snd (apply_op (ops t) v))"
begin

lemma step_grows:
  assumes "linearized v0 ops s" "cas_step s s'"
  shows "le (cell s) (cell s')"
  using assms(2)
proof cases
  case (cas_ok t f v v' r)
  then show ?thesis
    using op_grows [of v t] linearizedD(2) [OF assms(1) cas_ok(2)] by (simp add: finish_def)
next
  case (store t v' r)
  then have "ops t = Store v' r" using linearizedD(1) [OF assms(1) store(2)] by simp
  then show ?thesis using op_grows [of "cell s" t] store by (simp add: finish_def)
qed (simp_all add: set_thread_def finish_def le_refl)

lemma execution_grows:
  assumes "cas_step\<^sup>*\<^sup>* s s'" "linearized v0 ops s"
  shows "le (cell s) (cell s') \<and> linearized v0 ops s'"
  using assms
proof (induction rule: rtranclp_induct)
  case (step s1 s2)
  have "le (cell s1) (cell s2)" using step_grows [of v0 s1 s2] step by simp
  then show ?case using step le_trans [of "cell s" "cell s1" "cell s2"] linearized_step [of s1 s2 v0 ops] by simp
qed (simp add: le_refl)

lemma replay_grows: "le v (replay ops v h)"
proof (induction h arbitrary: v)
  case (Cons p h)
  obtain t r where p: "p = (t, r)" by (cases p)
  show ?case
    using le_trans [OF op_grows [of v t] Cons.IH] by (simp add: p)
qed (simp add: le_refl)

text \<open>What a result implies for the cell right after its operation holds ever after.\<close>

lemma result_bounds_replay:
  assumes "(t, r) \<in> set h" "legal ops v h"
    and "\<And>u. fst (apply_op (ops t) u) = r \<Longrightarrow> le lo (snd (apply_op (ops t) u))"
  shows "le lo (replay ops v h)"
  using assms(1,2)
proof (induction h arbitrary: v)
  case (Cons p h)
  obtain t' r' where p: "p = (t', r')" by (cases p)
  show ?case
  proof (cases "(t, r) = p")
    case True
    then have "le lo (snd (apply_op (ops t) v))" using Cons.prems assms(3) p by auto
    then show ?thesis
      using le_trans [OF _ replay_grows [of "snd (apply_op (ops t) v)" h]] True p by auto
  next
    case False
    then show ?thesis using Cons p by auto
  qed
qed simp

end

lemma linearized_Done_iff:
  assumes "linearized v0 ops s"
  shows "threads s t = Done r \<longleftrightarrow> (t, r) \<in> set (history s)"
proof
  assume h: "(t, r) \<in> set (history s)"
  then have "t \<in> fst ` set (history s)" by force
  then obtain r' where r': "threads s t = Done r'"
    using linearizedD(1,2) [OF assms, of t] by (cases "threads s t") auto
  have "distinct (map fst (history s))" using assms by (simp add: linearized_def)
  then have "r = r'" using h linearizedD(3) [OF assms r'] by (meson eq_key_imp_eq_value)
  then show "threads s t = Done r" using r' by simp
qed (rule linearizedD(3) [OF assms])

end
