(* ===== verification/Policy_Engine.thy ===== *)
theory Policy_Engine
  imports Policy_Bundle CAS_Loop
begin

text \<open>
  The evaluation engine of \<open>sng-policy-eval\<close> (\<open>engine.rs\<close>): first-match evaluation of a flow
  against the loaded bundle, and the hot swap of the bundle with its downgrade protection,
  both as the sequential operation and under every interleaving of concurrent callers.
\<close>

section \<open>Evaluation\<close>

record 'net policy_engine =
  engine_target :: bundle_target
  engine_bundle :: "'net loaded_bundle"

definition engine_from_body ::
  "'net ipnet_ops \<Rightarrow> 'net bundle_codec \<Rightarrow> bytes \<Rightarrow> bundle_target \<Rightarrow> policy_eval_error + 'net policy_engine" where
  "engine_from_body nops cd b target =
     and_then (from_body nops cd b target) (\<lambda>lb. Inr \<lparr>engine_target = target, engine_bundle = lb\<rparr>)"

text \<open>\<open>Option::is_some_and\<close>\<close>

definition is_some_and :: "'a option \<Rightarrow> ('a \<Rightarrow> bool) \<Rightarrow> bool" where
  "is_some_and x p = (case x of None \<Rightarrow> False | Some v \<Rightarrow> p v)"

definition subject_matches_flow :: "'net ipnet_ops \<Rightarrow> 'net subject \<Rightarrow> flow \<Rightarrow> bool" where
  "subject_matches_flow nops s f =
     (case subject_kind_of s of
        User \<Rightarrow> is_some_and (user f) (matches_string (subject_matcher s))
      | Device \<Rightarrow> is_some_and (device f) (matches_string (subject_matcher s))
      | App \<Rightarrow> is_some_and (app f) (matches_string (subject_matcher s))
      | Site \<Rightarrow> is_some_and (site f) (matches_string (subject_matcher s))
      | Network \<Rightarrow> is_some_and (source_ip f) (matches_ip nops (subject_matcher s)))"

fun subject_refs_match ::
  "'net ipnet_ops \<Rightarrow> (string \<rightharpoonup> 'net subject) \<Rightarrow> flow \<Rightarrow> string list \<Rightarrow> bool" where
  "subject_refs_match nops named f [] = True"
| "subject_refs_match nops named f (name # names) =
     (case named name of
        None \<Rightarrow> False
      | Some s \<Rightarrow> if \<not> subject_matches_flow nops s f then False
                  else subject_refs_match nops named f names)"

fun inline_subjects_match :: "'net ipnet_ops \<Rightarrow> flow \<Rightarrow> 'net subject list \<Rightarrow> bool" where
  "inline_subjects_match nops f [] = True"
| "inline_subjects_match nops f (s # ss) =
     (if \<not> subject_matches_flow nops s f then False else inline_subjects_match nops f ss)"

definition subjects_match :: "'net ipnet_ops \<Rightarrow> 'net rule \<Rightarrow> flow \<Rightarrow> 'net loaded_bundle \<Rightarrow> bool" where
  "subjects_match nops r f b =
     (if \<not> subject_refs_match nops (named_subjects b) f (subject_refs r) then False
      else inline_subjects_match nops f (subjects r))"

fun predicate_refs_match ::
  "'net ipnet_ops \<Rightarrow> (string \<rightharpoonup> 'net rule_predicate) \<Rightarrow> flow \<Rightarrow> string list \<Rightarrow> bool" where
  "predicate_refs_match nops named f [] = True"
| "predicate_refs_match nops named f (name # names) =
     (case named name of
        None \<Rightarrow> False
      | Some p \<Rightarrow> if \<not> matches_context nops (predicate_matcher p) (flow_context f) then False
                  else predicate_refs_match nops named f names)"

fun inline_predicates_match :: "'net ipnet_ops \<Rightarrow> flow \<Rightarrow> 'net rule_predicate list \<Rightarrow> bool" where
  "inline_predicates_match nops f [] = True"
| "inline_predicates_match nops f (p # ps) =
     (if \<not> matches_context nops (predicate_matcher p) (flow_context f) then False
      else inline_predicates_match nops f ps)"

definition predicates_match :: "'net ipnet_ops \<Rightarrow> 'net rule \<Rightarrow> flow \<Rightarrow> 'net loaded_bundle \<Rightarrow> bool" where
  "predicates_match nops r f b =
     (if \<not> predicate_refs_match nops (named_predicates b) f (predicate_refs r) then False
      else inline_predicates_match nops f (predicates r))"

definition steering_class_for_flow ::
  "'net ipnet_ops \<Rightarrow> flow \<Rightarrow> 'net loaded_bundle \<Rightarrow> traffic_class" where
  "steering_class_for_flow nops f b =
     (case Option.bind (destination_host f) (class_for_host (steering b)) of
        Some c \<Rightarrow> c
      | None \<Rightarrow>
          (case Option.bind (destination_ip f) (class_for_ip nops (steering b)) of
             Some c \<Rightarrow> c
           | None \<Rightarrow> default_conservative))"

definition verb_to_verdict ::
  "'net ipnet_ops \<Rightarrow> verb \<Rightarrow> verb option \<Rightarrow> flow \<Rightarrow> 'net loaded_bundle \<Rightarrow> verdict" where
  "verb_to_verdict nops v suggested f b =
     (case v of
        Verb_Allow \<Rightarrow> Verdict_Allow
      | Verb_Deny \<Rightarrow> Verdict_Deny
      | Verb_Decrypt \<Rightarrow> Verdict_Decrypt
      | Verb_Log \<Rightarrow> Verdict_Log
      | Verb_Inspect \<Rightarrow> Verdict_Inspect Full
      | Verb_Steer \<Rightarrow> Verdict_Steer (steering_class_for_flow nops f b)
      | Verb_SuggestOnly \<Rightarrow>
          (case suggested of
             Some w \<Rightarrow> if w \<noteq> Verb_SuggestOnly then Verdict_SuggestOnly w else Verdict_Allow
           | None \<Rightarrow> Verdict_Allow))"

fun evaluate_rules ::
  "'net ipnet_ops \<Rightarrow> 'net loaded_bundle \<Rightarrow> flow \<Rightarrow> 'net rule list \<Rightarrow> verdict" where
  "evaluate_rules nops b f [] = verb_to_verdict nops (default_verb b) None f b"
| "evaluate_rules nops b f (r # rs) =
     (if \<not> applies_to_domain r (flow_domain f) then evaluate_rules nops b f rs
      else if \<not> subjects_match nops r f b then evaluate_rules nops b f rs
      else if \<not> predicates_match nops r f b then evaluate_rules nops b f rs
      else verb_to_verdict nops (rule_verb r) (suggested_verb r) f b)"

definition evaluate :: "'net ipnet_ops \<Rightarrow> 'net policy_engine \<Rightarrow> flow \<Rightarrow> verdict" where
  "evaluate nops e f = evaluate_rules nops (engine_bundle e) f (rules (engine_bundle e))"

section \<open>Hot swap\<close>

text \<open>
  The part of \<open>swap\<close> after decoding: a forced swap stores, any other one installs only a bundle
  that is not older than the loaded one.
\<close>

definition install_bundle ::
  "'net bundle_codec \<Rightarrow> 'net loaded_bundle \<Rightarrow> bool \<Rightarrow> 'net policy_engine
     \<Rightarrow> (policy_eval_error + unit) \<times> 'net policy_engine" where
  "install_bundle cd next force = (\<lambda>e.
     if force then (Inr (), e\<lparr>engine_bundle := next\<rparr>)
     else if graph_version next < graph_version (engine_bundle e)
     then (Inl (EvalStale (case bundle_id cd next of Some u \<Rightarrow> u | None \<Rightarrow> 0)
              (graph_version next) (graph_version (engine_bundle e))), e)
     else (Inr (), e\<lparr>engine_bundle := next\<rparr>))"

definition swap ::
  "'net ipnet_ops \<Rightarrow> 'net bundle_codec \<Rightarrow> bytes \<Rightarrow> bool \<Rightarrow> 'net policy_engine
     \<Rightarrow> (policy_eval_error + unit) \<times> 'net policy_engine" where
  "swap nops cd b force = (\<lambda>e.
     case from_body nops cd b (engine_target e) of
       Inl err \<Rightarrow> (Inl err, e)
     | Inr next \<Rightarrow> install_bundle cd next force e)"

text \<open>
  The same step as an operation on the shared pointer. Bundles are immutable and each decoded
  bundle has an address of its own in \<open>heap\<close>; the compare-and-swap compares addresses. The
  rejecting branch installs the pointer it read, as the closure given to \<open>rcu\<close> does.
\<close>

definition swap_op ::
  "'net bundle_codec \<Rightarrow> (nat \<Rightarrow> 'net loaded_bundle) \<Rightarrow> nat \<Rightarrow> bool
     \<Rightarrow> (nat, policy_eval_error + unit) cell_op" where
  "swap_op cd heap next force =
     (if force then Store next (Inr ())
      else Rmw (\<lambda>current.
        if graph_version (heap next) < graph_version (heap current)
        then Cas current (Inl (EvalStale (case bundle_id cd (heap next) of Some u \<Rightarrow> u | None \<Rightarrow> 0)
               (graph_version (heap next)) (graph_version (heap current))))
        else Cas next (Inr ())))"

section \<open>When a rule matches\<close>

text \<open>
  The declarative reading of the matching loops: the rule is for the flow's domain, every
  reference resolves to a vertex that matches, and every inline vertex matches.
\<close>

definition rule_matches :: "'net ipnet_ops \<Rightarrow> 'net loaded_bundle \<Rightarrow> flow \<Rightarrow> 'net rule \<Rightarrow> bool" where
  "rule_matches nops b f r \<longleftrightarrow>
     rule_domain r = flow_domain f
     \<and> (\<forall>n \<in> set (subject_refs r). \<exists>s. named_subjects b n = Some s \<and> subject_matches_flow nops s f)
     \<and> (\<forall>s \<in> set (subjects r). subject_matches_flow nops s f)
     \<and> (\<forall>n \<in> set (predicate_refs r). \<exists>p. named_predicates b n = Some p
          \<and> matches_context nops (predicate_matcher p) (flow_context f))
     \<and> (\<forall>p \<in> set (predicates r). matches_context nops (predicate_matcher p) (flow_context f))"

lemma subject_refs_match_iff:
  "subject_refs_match nops ns f names \<longleftrightarrow>
     (\<forall>n \<in> set names. \<exists>s. ns n = Some s \<and> subject_matches_flow nops s f)"
  by (induction names) (auto split: option.splits)

lemma inline_subjects_match_iff:
  "inline_subjects_match nops f ss \<longleftrightarrow> (\<forall>s \<in> set ss. subject_matches_flow nops s f)"
  by (induction ss) auto

lemma predicate_refs_match_iff:
  "predicate_refs_match nops np f names \<longleftrightarrow>
     (\<forall>n \<in> set names. \<exists>p. np n = Some p \<and> matches_context nops (predicate_matcher p) (flow_context f))"
  by (induction names) (auto split: option.splits)

lemma inline_predicates_match_iff:
  "inline_predicates_match nops f ps \<longleftrightarrow>
     (\<forall>p \<in> set ps. matches_context nops (predicate_matcher p) (flow_context f))"
  by (induction ps) auto

lemmas refs_and_inline_match =
  subject_refs_match_iff inline_subjects_match_iff predicate_refs_match_iff inline_predicates_match_iff

lemma evaluate_rules_Cons:
  "evaluate_rules nops b f (r # rs) =
     (if rule_matches nops b f r then verb_to_verdict nops (rule_verb r) (suggested_verb r) f b
      else evaluate_rules nops b f rs)"
  by (auto simp: rule_matches_def applies_to_domain_def subjects_match_def predicates_match_def
      refs_and_inline_match)

lemma evaluate_rules_find:
  "evaluate_rules nops b f rs =
     (case find (rule_matches nops b f) rs of
        Some r \<Rightarrow> verb_to_verdict nops (rule_verb r) (suggested_verb r) f b
      | None \<Rightarrow> verb_to_verdict nops (default_verb b) None f b)"
  by (induction rs) (auto simp: evaluate_rules_Cons simp del: evaluate_rules.simps(2))

lemma find_Some_split:
  "find P xs = Some x \<Longrightarrow> \<exists>pre post. xs = pre @ x # post \<and> list_all (\<lambda>y. \<not> P y) pre \<and> P x"
proof (induction xs)
  case (Cons y ys)
  show ?case
  proof (cases "P y")
    case True
    then show ?thesis using Cons.prems by (intro exI [of _ "[]"] exI [of _ ys]) simp
  next
    case False
    then obtain pre post where "ys = pre @ x # post" "list_all (\<lambda>y. \<not> P y) pre" "P x"
      using Cons by auto
    then show ?thesis using False by (intro exI [of _ "y # pre"] exI [of _ post]) simp
  qed
qed simp

text \<open>The verb that decides a flow: that of the first matching rule, or the default.\<close>

definition deciding_verb :: "'net ipnet_ops \<Rightarrow> 'net loaded_bundle \<Rightarrow> flow \<Rightarrow> verb" where
  "deciding_verb nops b f =
     (case find (rule_matches nops b f) (rules b) of Some r \<Rightarrow> rule_verb r | None \<Rightarrow> default_verb b)"

lemma verdict_of_suggestion:
  assumes "v = Verb_SuggestOnly \<longrightarrow> (\<exists>w. sg = Some w \<and> w \<noteq> Verb_SuggestOnly)"
  shows "(verb_to_verdict nops v sg f b = Verdict_Allow) = (v = Verb_Allow)"
    and "is_blocking (verb_to_verdict nops v sg f b) = (v = Verb_Deny)"
    and "verb_to_verdict nops v sg f b \<noteq> Verdict_SuggestOnly Verb_SuggestOnly"
  using assms by (cases v; fastforce simp: verb_to_verdict_def)+

lemma wf_evaluate:
  assumes "wf_bundle target (engine_bundle e)"
  obtains v sg where "evaluate nops e f = verb_to_verdict nops v sg f (engine_bundle e)"
    "v = deciding_verb nops (engine_bundle e) f"
    "v = Verb_SuggestOnly \<longrightarrow> (\<exists>w. sg = Some w \<and> w \<noteq> Verb_SuggestOnly)"
proof -
  let ?b = "engine_bundle e"
  have ev: "evaluate nops e f = (case find (rule_matches nops ?b f) (rules ?b) of
      Some r \<Rightarrow> verb_to_verdict nops (rule_verb r) (suggested_verb r) f ?b
    | None \<Rightarrow> verb_to_verdict nops (default_verb ?b) None f ?b)"
    unfolding evaluate_def by (rule evaluate_rules_find)
  show thesis
  proof (cases "find (rule_matches nops ?b f) (rules ?b)")
    case None
    show ?thesis
      by (rule that [of "default_verb ?b" None])
        (use ev assms None in \<open>simp_all add: deciding_verb_def wf_bundle_def\<close>)
  next
    case (Some r)
    then have "r \<in> set (rules ?b)" using find_Some_split by force
    then show ?thesis
      by (intro that [of "rule_verb r" "suggested_verb r"])
        (use ev assms Some in \<open>simp_all add: deciding_verb_def wf_bundle_def\<close>)
  qed
qed

text \<open>
  A rule that cannot match this flow: it names a vertex the bundle does not have, a matcher
  this version does not know, or a principal the flow does not carry.
\<close>

fun principal_present :: "flow \<Rightarrow> subject_kind \<Rightarrow> bool" where
  "principal_present f User = (user f \<noteq> None)"
| "principal_present f Device = (device f \<noteq> None)"
| "principal_present f App = (app f \<noteq> None)"
| "principal_present f Site = (site f \<noteq> None)"
| "principal_present f Network = (source_ip f \<noteq> None)"

definition undecidable_subject :: "flow \<Rightarrow> 'net subject option \<Rightarrow> bool" where
  "undecidable_subject f s =
     (case s of None \<Rightarrow> True
      | Some s \<Rightarrow> subject_matcher s = Subject_Unknown \<or> \<not> principal_present f (subject_kind_of s))"

definition undecidable_predicate :: "'net rule_predicate option \<Rightarrow> bool" where
  "undecidable_predicate p =
     (case p of None \<Rightarrow> True | Some p \<Rightarrow> predicate_matcher p = Pred_Unknown)"

definition undecidable_rule :: "'net loaded_bundle \<Rightarrow> flow \<Rightarrow> 'net rule \<Rightarrow> bool" where
  "undecidable_rule b f r \<longleftrightarrow>
     list_ex (undecidable_subject f) (map (named_subjects b) (subject_refs r) @ map Some (subjects r))
     \<or> list_ex undecidable_predicate (map (named_predicates b) (predicate_refs r) @ map Some (predicates r))"

lemma undecidable_subject_no_match:
  "undecidable_subject f (Some s) \<Longrightarrow> \<not> subject_matches_flow nops s f"
  by (cases "subject_kind_of s")
    (auto simp: undecidable_subject_def subject_matches_flow_def is_some_and_def split: option.splits)

lemma undecidable_rule_no_match:
  assumes "rule_matches nops b f r"
  shows "\<not> undecidable_rule b f r"
proof -
  have "\<not> undecidable_subject f (named_subjects b n)" if "n \<in> set (subject_refs r)" for n
  proof -
    obtain s where "named_subjects b n = Some s" "subject_matches_flow nops s f"
      using assms \<open>n \<in> set (subject_refs r)\<close> unfolding rule_matches_def by blast
    then show ?thesis using undecidable_subject_no_match [of f s nops] by auto
  qed
  moreover have "\<not> undecidable_subject f (Some s)" if "s \<in> set (subjects r)" for s
    using assms that undecidable_subject_no_match [of f s nops] by (auto simp: rule_matches_def)
  moreover have "\<not> undecidable_predicate (named_predicates b n)" if "n \<in> set (predicate_refs r)" for n
  proof -
    obtain p where "named_predicates b n = Some p" "matches_context nops (predicate_matcher p) (flow_context f)"
      using assms \<open>n \<in> set (predicate_refs r)\<close> unfolding rule_matches_def by blast
    then show ?thesis by (auto simp: undecidable_predicate_def)
  qed
  moreover have "\<not> undecidable_predicate (Some p)" if "p \<in> set (predicates r)" for p
    using assms that by (force simp: rule_matches_def undecidable_predicate_def)
  ultimately show ?thesis by (auto simp: undecidable_rule_def list_ex_iff)
qed

lemma evaluate_rules_filter:
  "(\<And>r. r \<in> set rs \<Longrightarrow> \<not> P r \<Longrightarrow> \<not> rule_matches nops b f r) \<Longrightarrow>
     evaluate_rules nops b f (filter P rs) = evaluate_rules nops b f rs"
  by (induction rs) (auto simp: evaluate_rules_Cons simp del: evaluate_rules.simps(2))

section \<open>Concurrent swaps behave like sequential ones\<close>

text \<open>The sequential engine serving a list of decoded swap requests, with the results.\<close>

fun run_swaps ::
  "'net bundle_codec \<Rightarrow> (nat \<Rightarrow> 'net loaded_bundle \<times> bool) \<Rightarrow> nat list \<Rightarrow> 'net policy_engine
     \<Rightarrow> (nat \<times> (policy_eval_error + unit)) list \<times> 'net policy_engine" where
  "run_swaps cd req [] e = ([], e)"
| "run_swaps cd req (t # ts) e =
     (let (r, e') = install_bundle cd (fst (req t)) (snd (req t)) e;
          (rs, e'') = run_swaps cd req ts e'
      in ((t, r) # rs, e''))"

lemma swap_op_refines:
  "install_bundle cd (heap a) force \<lparr>engine_target = tg, engine_bundle = heap v\<rparr> =
     (fst (apply_op (swap_op cd heap a force) v),
      \<lparr>engine_target = tg, engine_bundle = heap (snd (apply_op (swap_op cd heap a force) v))\<rparr>)"
  by (simp add: install_bundle_def swap_op_def)

lemma run_swaps_history:
  "legal (\<lambda>t. swap_op cd heap (addr t) (force t)) v h \<Longrightarrow>
     run_swaps cd (\<lambda>t. (heap (addr t), force t)) (map fst h) \<lparr>engine_target = tg, engine_bundle = heap v\<rparr>
     = (h, \<lparr>engine_target = tg,
            engine_bundle = heap (replay (\<lambda>t. swap_op cd heap (addr t) (force t)) v h)\<rparr>)"
  by (induction h arbitrary: v) (auto simp: swap_op_refines)

interpretation bundle_cell: growing_cell
  "\<lambda>u v. graph_version (heap u) \<le> graph_version (heap v)" "\<lambda>t. swap_op cd heap (addr t) False"
  for heap :: "nat \<Rightarrow> 'net loaded_bundle" and cd addr
  by unfold_locales (auto simp: swap_op_def)

section \<open>Properties of the engine\<close>


text \<open>
  Claim C22. Omitted or unknown facts never authorise: a rule that names a vertex the bundle does
  not define, a matcher this version does not know, or a principal the flow does not carry has
  no influence on the verdict. Dropping all such rules leaves every verdict unchanged.
\<close>

theorem evaluate_ignores_undecidable_rules:
  "evaluate nops (e\<lparr>engine_bundle := engine_bundle e
      \<lparr>rules := filter (\<lambda>r. \<not> undecidable_rule (engine_bundle e) f r) (rules (engine_bundle e))\<rparr>\<rparr>) f
   = evaluate nops e f"
proof -
  let ?b = "engine_bundle e" let ?b' = "?b\<lparr>rules := filter (\<lambda>r. \<not> undecidable_rule ?b f r) (rules ?b)\<rparr>"
  have "rule_matches nops ?b' f = rule_matches nops ?b f"
    by (simp add: rule_matches_def fun_eq_iff)
  moreover have "steering ?b' = steering ?b" by simp
  then have "verb_to_verdict nops v sg f ?b' = verb_to_verdict nops v sg f ?b" for v sg
    unfolding verb_to_verdict_def steering_class_for_flow_def by (simp only:)
  ultimately have "evaluate_rules nops ?b' f rs = evaluate_rules nops ?b f rs" for rs
    by (simp add: evaluate_rules_find split: option.split)
  then show ?thesis
    using undecidable_rule_no_match [of nops ?b f] by (auto simp: evaluate_def intro!: evaluate_rules_filter)
qed

text \<open>
  On an engine built from a bundle body, the verdict follows the deciding verb: it is
  allow exactly when that verb is allow, it blocks exactly when that verb is deny, and a
  suggestion is never itself suggest-only. In particular the evaluator's fail-open branch for a
  suggest-only verb without a suggestion is never taken.
\<close>

theorem evaluate_follows_deciding_verb:
  assumes "engine_from_body nops cd b target = Inr e"
  shows "((evaluate nops e f = Verdict_Allow) = (deciding_verb nops (engine_bundle e) f = Verb_Allow))
    \<and> (is_blocking (evaluate nops e f) = (deciding_verb nops (engine_bundle e) f = Verb_Deny))
    \<and> evaluate nops e f \<noteq> Verdict_SuggestOnly Verb_SuggestOnly"
proof -
  have "wf_bundle target (engine_bundle e)"
    using assms from_body_wf by (auto simp: engine_from_body_def and_then_Inr)
  then obtain v sg where v: "evaluate nops e f = verb_to_verdict nops v sg f (engine_bundle e)"
    "v = deciding_verb nops (engine_bundle e) f"
    "v = Verb_SuggestOnly \<longrightarrow> (\<exists>w. sg = Some w \<and> w \<noteq> Verb_SuggestOnly)"
    by (rule wf_evaluate)
  then show ?thesis
    using verdict_of_suggestion [OF v(3), of nops f "engine_bundle e"] by simp
qed

theorem evaluate_follows_deciding_verb_witness:
  "\<exists>e. engine_from_body v4_net_ops skeleton_codec [1] Edge = Inr e
     \<and> is_blocking (evaluate v4_net_ops e (flow_builder_new Ngfw))
     \<and> evaluate v4_net_ops e (flow_builder_new Ngfw) \<noteq> Verdict_Allow"
proof -
  let ?e = "\<lparr>engine_target = Edge, engine_bundle = skeleton_bundle\<rparr>"
  have e: "engine_from_body v4_net_ops skeleton_codec [1] Edge = Inr ?e"
    by (simp add: engine_from_body_def skeleton_codec_loads)
  have "deciding_verb v4_net_ops (engine_bundle ?e) (flow_builder_new Ngfw) = Verb_Deny"
    by (simp add: deciding_verb_def skeleton_bundle_def)
  then show ?thesis
    using evaluate_follows_deciding_verb [OF e, of "flow_builder_new Ngfw"] e by auto
qed

text \<open>
  The boot skeleton denies everything: for codecs that decode what they encode and read
  \<open>[]\<close> as the empty rule table, an engine starts from the skeleton body, denies every flow, and
  accepts every later bundle whose version is not negative.
\<close>

theorem deny_all_skeleton_denies:
  assumes "dec_envelope cd (enc_envelope cd (deny_all_skeleton target now)) = Inr (deny_all_skeleton target now)"
    and "dec_rules cd [0x5B, 0x5D] = Inr []"
  shows "\<exists>e. engine_from_body nops cd (deny_all_skeleton_body cd target now) target = Inr e
    \<and> (\<forall>f. evaluate nops e f = Verdict_Deny)
    \<and> (\<forall>b lb. from_body nops cd b target = Inr lb \<and> 0 \<le> graph_version lb \<longrightarrow>
          swap nops cd b False e = (Inr (), e\<lparr>engine_bundle := lb\<rparr>))"
proof -
  obtain lb where lb: "from_body nops cd (deny_all_skeleton_body cd target now) target = Inr lb"
    "rules lb = []" "default_verb lb = Verb_Deny" "graph_version lb = 0"
    using assms
    by (auto simp: from_body_Inr deny_all_skeleton_body_def deny_all_skeleton_def decode_rules_def
        decode_steering_def decode_malware_def parse_default_verb_def)
  then show ?thesis
    by (auto simp: engine_from_body_def evaluate_def verb_to_verdict_def swap_def install_bundle_def)
qed

theorem deny_all_skeleton_denies_witness:
  "\<exists>e. engine_from_body v4_net_ops skeleton_codec (deny_all_skeleton_body (skeleton_codec :: (u32 \<times> u8) bundle_codec) Edge 0) Edge = Inr e
    \<and> evaluate v4_net_ops e (flow_builder_new Swg) = Verdict_Deny"
proof -
  let ?cd = "skeleton_codec :: (u32 \<times> u8) bundle_codec"
  have "dec_envelope ?cd (enc_envelope ?cd (deny_all_skeleton Edge 0)) = Inr (deny_all_skeleton Edge 0)"
    "dec_rules ?cd [0x5B, 0x5D] = Inr []"
    by (simp_all add: skeleton_codec_def)
  from deny_all_skeleton_denies [OF this, of v4_net_ops] show ?thesis by blast
qed

text \<open>
  A swap that is not forced never loads an older bundle: it succeeds exactly when the
  body decodes for the engine's target and is not older than the loaded bundle, and then the
  engine runs the decoded bundle; in every other case the engine is unchanged and an error names
  the reason.
\<close>

theorem swap_refuses_downgrade:
  "case from_body nops cd b (engine_target e) of
     Inl err \<Rightarrow> swap nops cd b False e = (Inl err, e)
   | Inr lb \<Rightarrow>
       if graph_version (engine_bundle e) \<le> graph_version lb
       then swap nops cd b False e = (Inr (), e\<lparr>engine_bundle := lb\<rparr>)
       else \<exists>u. swap nops cd b False e =
              (Inl (EvalStale u (graph_version lb) (graph_version (engine_bundle e))), e)"
  by (auto simp: swap_def install_bundle_def split: sum.split)

text \<open>
  Claim C17. Concurrent swaps are linearizable. In every state that any interleaving of any
  number of callers (forced or not) can reach, there is an order of the swaps that have returned
  such that the sequential engine, serving them in this order from the initial bundle, returns
  to each the result it got and ends with the bundle that is now loaded.
\<close>

theorem concurrent_swaps_linearizable:
  assumes "cas_step\<^sup>*\<^sup>* (cell_init a0 (\<lambda>t. swap_op cd heap (addr t) (force t))) s"
  shows "\<exists>order results. distinct order
    \<and> run_swaps cd (\<lambda>t. (heap (addr t), force t)) order \<lparr>engine_target = tg, engine_bundle = heap a0\<rparr>
        = (results, \<lparr>engine_target = tg, engine_bundle = heap (cell s)\<rparr>)
    \<and> (\<forall>t r. threads s t = Done r \<longleftrightarrow> (t, r) \<in> set results)"
proof -
  let ?ops = "\<lambda>t. swap_op cd heap (addr t) (force t)"
  have lin: "linearized a0 ?ops s" using assms by (rule cas_linearizable)
  show ?thesis
    using run_swaps_history [where h = "history s" and v = a0 and tg = tg and cd = cd and heap = heap
        and addr = addr and force = force] linearizedD(4,5) [OF lin] linearized_Done_iff [OF lin] lin
    by (intro exI [of _ "map fst (history s)"] exI [of _ "history s"]) (simp add: linearized_def)
qed

text \<open>Bundles that differ in their version only, at addresses equal to it.\<close>

definition versioned_heap :: "nat \<Rightarrow> (u32 \<times> u8) loaded_bundle" where
  "versioned_heap n = skeleton_bundle\<lparr>graph_version := int n\<rparr>"

lemma versioned_heap_version [simp]: "graph_version (versioned_heap n) = int n"
  by (simp add: versioned_heap_def)

lemma versioned_swap_returns:
  "\<exists>s. cas_step\<^sup>*\<^sup>* (cell_init 3 (\<lambda>t. swap_op skeleton_codec versioned_heap (t + 5) False)) s
     \<and> threads s 0 = Done (Inr ())"
proof -
  let ?i = "cell_init 3 (\<lambda>t. swap_op skeleton_codec versioned_heap (t + 5) False)"
  have "threads ?i 0 = Pending (swap_op skeleton_codec versioned_heap (0 + 5) False)"
    by (simp add: cell_init_def)
  from solo_from_pending [OF this] show ?thesis by (simp add: swap_op_def cell_init_def)
qed

theorem concurrent_swaps_linearizable_witness:
  "\<exists>s results. cas_step\<^sup>*\<^sup>* (cell_init 3 (\<lambda>t. swap_op skeleton_codec versioned_heap (t + 5) False)) s
     \<and> threads s 0 = Done (Inr ()) \<and> (0, Inr ()) \<in> set results
     \<and> (\<exists>order. run_swaps skeleton_codec (\<lambda>t. (versioned_heap (t + 5), False)) order
          \<lparr>engine_target = Edge, engine_bundle = versioned_heap 3\<rparr>
          = (results, \<lparr>engine_target = Edge, engine_bundle = versioned_heap (cell s)\<rparr>))"
proof -
  obtain s where s: "cas_step\<^sup>*\<^sup>* (cell_init 3 (\<lambda>t. swap_op skeleton_codec versioned_heap (t + 5) False)) s"
    "threads s 0 = Done (Inr ())"
    using versioned_swap_returns by blast
  obtain order results where "run_swaps skeleton_codec (\<lambda>t. (versioned_heap (t + 5), False)) order
      \<lparr>engine_target = Edge, engine_bundle = versioned_heap 3\<rparr>
      = (results, \<lparr>engine_target = Edge, engine_bundle = versioned_heap (cell s)\<rparr>)"
    "\<forall>t r. threads s t = Done r \<longleftrightarrow> (t, r) \<in> set results"
    using concurrent_swaps_linearizable [OF s(1), of Edge] by (elim exE conjE)
  then show ?thesis using s by (intro exI [of _ s] exI [of _ results] conjI exI [of _ order]) simp_all
qed

text \<open>
  No interleaving of swaps that are not forced ever downgrades the engine: from every
  reachable state on, the loaded version never decreases, and a caller whose swap returned
  successfully knows that the loaded version is at least its own, then and ever after.
\<close>

theorem concurrent_swaps_never_downgrade:
  assumes "cas_step\<^sup>*\<^sup>* (cell_init a0 (\<lambda>t. swap_op cd heap (addr t) False)) s" "cas_step\<^sup>*\<^sup>* s s'"
  shows "graph_version (heap (cell s)) \<le> graph_version (heap (cell s'))
    \<and> (\<forall>t. threads s t = Done (Inr ()) \<longrightarrow>
         graph_version (heap (addr t)) \<le> graph_version (heap (cell s')))"
proof -
  let ?ops = "\<lambda>t. swap_op cd heap (addr t) False"
  have lin: "linearized a0 ?ops s" using assms(1) by (rule cas_linearizable)
  have grows: "graph_version (heap (cell s)) \<le> graph_version (heap (cell s'))"
    using bundle_cell.execution_grows [OF assms(2) lin] by blast
  have "graph_version (heap (addr t)) \<le> graph_version (heap (cell s))" if "threads s t = Done (Inr ())" for t
  proof -
    have "(t, Inr ()) \<in> set (history s)" using linearizedD(3) [OF lin that] .
    then have "graph_version (heap (addr t)) \<le> graph_version (heap (replay ?ops a0 (history s)))"
      by (rule bundle_cell.result_bounds_replay [OF _ linearizedD(4) [OF lin]])
        (auto simp: swap_op_def split: if_splits)
    then show ?thesis using linearizedD(5) [OF lin] by simp
  qed
  then show ?thesis using grows by force
qed

theorem concurrent_swaps_never_downgrade_witness:
  "\<exists>s. cas_step\<^sup>*\<^sup>* (cell_init 3 (\<lambda>t. swap_op skeleton_codec versioned_heap (t + 5) False)) s
     \<and> threads s 0 = Done (Inr ()) \<and> 5 \<le> graph_version (versioned_heap (cell s))"
proof -
  obtain s where s: "cas_step\<^sup>*\<^sup>* (cell_init 3 (\<lambda>t. swap_op skeleton_codec versioned_heap (t + 5) False)) s"
    "threads s 0 = Done (Inr ())"
    using versioned_swap_returns by blast
  with concurrent_swaps_never_downgrade [OF s(1) rtranclp.rtrancl_refl] show ?thesis by force
qed

text \<open>
  No caller of a swap can be blocked by the others: from every reachable state, a
  caller that runs alone returns.
\<close>

theorem concurrent_swap_can_return:
  assumes "cas_step\<^sup>*\<^sup>* (cell_init a0 (\<lambda>t. swap_op cd heap (addr t) (force t))) s"
  shows "\<exists>s' r. cas_step\<^sup>*\<^sup>* s s' \<and> threads s' t = Done r"
  using cas_linearizable [OF assms] by (rule solo_completes)

theorem concurrent_swap_can_return_witness:
  "\<exists>s' r. cas_step\<^sup>*\<^sup>* (cell_init 3 (\<lambda>t. swap_op skeleton_codec versioned_heap (t + 5) False)) s'
     \<and> threads s' 7 = Done r"
  using concurrent_swap_can_return [OF rtranclp.rtrancl_refl, of 3 skeleton_codec versioned_heap
      "\<lambda>t. t + 5" "\<lambda>_. False" 7] .

end
