(* ===== verification/Updater_Manifest.thy ===== *)
theory Updater_Manifest
  imports Core_Error Trust_Store
begin

text \<open>
  The data of the self-update engine (\<open>sng-updater\<close>): versions, targets and signed manifests
  (\<open>manifest.rs\<close>), the banks of \<open>bank.rs\<close> as far as the errors mention them, the install state
  machine (\<open>state.rs\<close>), the errors and their codes (\<open>error.rs\<close>), and the manifest verifier
  (\<open>verifier.rs\<close>). Ed25519, the MessagePack decoder and the hexadecimal printer are third-party
  and appear as parameters.
\<close>

section \<open>Versions, targets, identifiers\<close>

datatype image_version = ImageVersion (major: u32) (minor: u32) (patch: u32)

text \<open>The derived order: lexicographic in the order of the fields.\<close>

instantiation image_version :: linorder
begin

definition less_eq_image_version :: "image_version \<Rightarrow> image_version \<Rightarrow> bool" where
  "less_eq_image_version v w \<longleftrightarrow>
     major v < major w \<or> major v = major w \<and>
       (minor v < minor w \<or> minor v = minor w \<and> patch v \<le> patch w)"

definition less_image_version :: "image_version \<Rightarrow> image_version \<Rightarrow> bool" where
  "less_image_version v w \<longleftrightarrow>
     major v < major w \<or> major v = major w \<and>
       (minor v < minor w \<or> minor v = minor w \<and> patch v < patch w)"

instance
  by standard (auto simp: less_eq_image_version_def less_image_version_def intro: image_version.expand)

end

definition is_strictly_newer_than :: "image_version \<Rightarrow> image_version \<Rightarrow> bool" where
  "is_strictly_newer_than v w = (v > w)"

datatype update_target = Target_Edge | Target_Agent | Target_CloudPop

fun update_target_display :: "update_target \<Rightarrow> string" where
  "update_target_display Target_Edge = ''edge''"
| "update_target_display Target_Agent = ''agent''"
| "update_target_display Target_CloudPop = ''cloud_pop''"

datatype release_channel = Stable | Beta | Nightly

definition image_version_display :: "image_version \<Rightarrow> string" where
  "image_version_display v =
     decimal (unat (major v)) @ ''.'' @ decimal (unat (minor v)) @ ''.'' @ decimal (unat (patch v))"

definition max_signing_key_id_len :: nat where
  "max_signing_key_id_len = 64"

definition ephemeral_key_id :: string where
  "ephemeral_key_id = ''ephemeral''"

datatype manifest_key_id_error = ManifestKeyId_Empty | ManifestKeyId_TooLong nat nat | ManifestKeyId_Ephemeral

definition manifest_key_id_new :: "string \<Rightarrow> manifest_key_id_error + string" where
  "manifest_key_id_new kid =
     (if kid = [] then Inl ManifestKeyId_Empty
      else if length kid > max_signing_key_id_len
      then Inl (ManifestKeyId_TooLong (length kid) max_signing_key_id_len)
      else if kid = ephemeral_key_id then Inl ManifestKeyId_Ephemeral
      else Inr kid)"

definition manifest_key_is_ephemeral :: "string \<Rightarrow> bool" where
  "manifest_key_is_ephemeral kid = (kid = ephemeral_key_id)"

datatype image_hash_parse_error = InvalidHex | InvalidLength nat

text \<open>\<open>ImageHash::from_hex\<close> over the decoder of the \<open>hex\<close> crate.\<close>

definition image_hash_from_hex ::
  "(string \<Rightarrow> bytes option) \<Rightarrow> string \<Rightarrow> image_hash_parse_error + bytes" where
  "image_hash_from_hex hex_decode s =
     (case hex_decode s of
        None \<Rightarrow> Inl InvalidHex
      | Some b \<Rightarrow> if length b = 32 then Inr b else Inl (InvalidLength (length b)))"

record update_manifest =
  manifest_schema_version :: u8
  manifest_target :: update_target
  manifest_channel :: release_channel
  manifest_version :: image_version
  image_sha256 :: bytes
  image_size_bytes :: u64
  image_url :: string
  release_notes :: string
  signed_at :: int

record signed_manifest =
  envelope_body :: bytes
  envelope_signature :: bytes
  envelope_key_id :: string

section \<open>Banks and the install state machine\<close>

datatype bank = BankA | BankB

fun other_bank :: "bank \<Rightarrow> bank" where
  "other_bank BankA = BankB"
| "other_bank BankB = BankA"

fun bank_display :: "bank \<Rightarrow> string" where
  "bank_display BankA = ''A''"
| "bank_display BankB = ''B''"

lemma other_bank_other [simp]: "other_bank (other_bank b) = b" "other_bank b \<noteq> b" "b \<noteq> other_bank b"
  by (cases b; simp)+

lemma other_bank_cases: "b = c \<or> b = other_bank c"
  by (cases b; cases c) auto

datatype update_state =
  Idle | Downloading | Verifying | Installing | Rebooting | HealthChecking | Committed | RolledBack

fun legal_successors :: "update_state \<Rightarrow> update_state list" where
  "legal_successors Idle = [Downloading]"
| "legal_successors Downloading = [Verifying, Idle]"
| "legal_successors Verifying = [Installing, Idle]"
| "legal_successors Installing = [Rebooting, Idle]"
| "legal_successors Rebooting = [HealthChecking, RolledBack]"
| "legal_successors HealthChecking = [Committed, RolledBack]"
| "legal_successors Committed = [Idle]"
| "legal_successors RolledBack = [Idle]"

definition can_transition_to :: "update_state \<Rightarrow> update_state \<Rightarrow> bool" where
  "can_transition_to s nxt = List.member (legal_successors s) nxt"

datatype state_transition_error = StateTransitionError update_state update_state

definition transition_to :: "update_state \<Rightarrow> update_state \<Rightarrow> state_transition_error + update_state" where
  "transition_to s nxt =
     (if can_transition_to s nxt then Inr nxt else Inl (StateTransitionError s nxt))"

fun is_terminal :: "update_state \<Rightarrow> bool" where
  "is_terminal Committed = True"
| "is_terminal RolledBack = True"
| "is_terminal _ = False"

definition accepts_new_install :: "update_state \<Rightarrow> bool" where
  "accepts_new_install s = (s = Idle)"

fun update_state_display :: "update_state \<Rightarrow> string" where
  "update_state_display Idle = ''idle''"
| "update_state_display Downloading = ''downloading''"
| "update_state_display Verifying = ''verifying''"
| "update_state_display Installing = ''installing''"
| "update_state_display Rebooting = ''rebooting''"
| "update_state_display HealthChecking = ''health_checking''"
| "update_state_display Committed = ''committed''"
| "update_state_display RolledBack = ''rolled_back''"

section \<open>Errors\<close>

datatype updater_error =
    BodyDecode string
  | Upd_EphemeralSigningKey
  | Upd_UnknownSigningKey string
  | Upd_SignatureInvalid
  | ManifestStale image_version image_version
  | ReinstallOfRolledBackVersion image_version bank
  | PostCommitLayoutSync bank image_version u32 string
  | LayoutDiverged
  | Upd_TargetMismatch update_target update_target
  | ImageHashMismatch string string
  | ImageSizeExceeded u64 u64
  | ManifestSizeExceedsPolicy u64 u64
  | ImageTruncated u64 u64
  | DownloadFailure string
  | BankWrite string
  | Bootloader string
  | HealthCheckTimeout u64
  | HealthCheckFailed string
  | InstallBusy
  | StateTransition state_transition_error

primrec updater_error_code :: "updater_error \<Rightarrow> error_code" where
  "updater_error_code (BodyDecode _) = Code_UpdaterManifestBodyDecode"
| "updater_error_code Upd_EphemeralSigningKey = Code_UpdaterManifestSigningKeyUnknown"
| "updater_error_code (Upd_UnknownSigningKey _) = Code_UpdaterManifestSigningKeyUnknown"
| "updater_error_code Upd_SignatureInvalid = Code_UpdaterManifestSignatureInvalid"
| "updater_error_code (ManifestStale _ _) = Code_UpdaterManifestStale"
| "updater_error_code (ReinstallOfRolledBackVersion _ _) = Code_UpdaterReinstallOfRolledBackVersion"
| "updater_error_code (PostCommitLayoutSync _ _ _ _) = Code_UpdaterPostCommitLayoutSync"
| "updater_error_code LayoutDiverged = Code_UpdaterLayoutDiverged"
| "updater_error_code (Upd_TargetMismatch _ _) = Code_UpdaterManifestTargetMismatch"
| "updater_error_code (ImageHashMismatch _ _) = Code_UpdaterImageHashMismatch"
| "updater_error_code (ImageTruncated _ _) = Code_UpdaterImageHashMismatch"
| "updater_error_code (ImageSizeExceeded _ _) = Code_UpdaterImageSizeExceeded"
| "updater_error_code (ManifestSizeExceedsPolicy _ _) = Code_UpdaterImageSizeExceeded"
| "updater_error_code (DownloadFailure _) = Code_Io"
| "updater_error_code (BankWrite _) = Code_UpdaterBankWriteFailure"
| "updater_error_code (Bootloader _) = Code_UpdaterBootloaderFailure"
| "updater_error_code (HealthCheckTimeout _) = Code_UpdaterHealthCheckTimeout"
| "updater_error_code (HealthCheckFailed _) = Code_UpdaterHealthCheckFailed"
| "updater_error_code InstallBusy = Code_UpdaterInstallBusy"
| "updater_error_code (StateTransition _) = Code_UpdaterStateInvalidTransition"

fun state_transition_error_display :: "state_transition_error \<Rightarrow> string" where
  "state_transition_error_display (StateTransitionError f t) =
     ''illegal updater state transition: '' @ update_state_display f @ '' -> '' @ update_state_display t"

text \<open>The text of an error, where the service stores it in a counter-part of its own.\<close>

primrec updater_error_display :: "updater_error \<Rightarrow> string" where
  "updater_error_display (BodyDecode m) = ''manifest decode: '' @ m"
| "updater_error_display Upd_EphemeralSigningKey =
     ''manifest carries ephemeral signing-key id; production updaters must use a persisted key''"
| "updater_error_display (Upd_UnknownSigningKey k) = ''manifest signed with unknown key id: '' @ k"
| "updater_error_display Upd_SignatureInvalid = ''manifest signature verification failed''"
| "updater_error_display (ManifestStale found cur) =
     ''manifest version '' @ image_version_display found @ '' is not strictly newer than committed ''
       @ image_version_display cur"
| "updater_error_display (ReinstallOfRolledBackVersion v b) =
     ''refusing to re-install version '' @ image_version_display v @ '' on slot '' @ bank_display b
       @ '' which was previously rolled back''"
| "updater_error_display (PostCommitLayoutSync b v n e) =
     ''post-commit layout sync failed after '' @ decimal (unat n) @ '' attempts on slot ''
       @ bank_display b @ '' (install IS committed on the bootloader; metadata divergence): '' @ e"
| "updater_error_display LayoutDiverged =
     ''post-commit layout divergence active; refusing install until operator reconciles ''
       @ ''the metadata partition and clears the divergence flag''"
| "updater_error_display (Upd_TargetMismatch a e) =
     ''manifest target '' @ update_target_display a @ '' does not match expected ''
       @ update_target_display e"
| "updater_error_display (ImageHashMismatch e a) =
     ''image sha256 '' @ a @ '' does not match manifest sha256 '' @ e"
| "updater_error_display (ImageSizeExceeded c r) =
     ''image download exceeded declared size: read '' @ decimal (unat r) @ '' bytes, manifest claimed ''
       @ decimal (unat c)"
| "updater_error_display (ManifestSizeExceedsPolicy d m) =
     ''manifest declares image size '' @ decimal (unat d) @ '' bytes which exceeds operator policy ''
       @ ''ceiling of '' @ decimal (unat m) @ '' bytes (rejected before download)''"
| "updater_error_display (ImageTruncated c r) =
     ''image download truncated: read '' @ decimal (unat r) @ '' bytes, manifest claimed ''
       @ decimal (unat c)"
| "updater_error_display (DownloadFailure m) = ''image download failure: '' @ m"
| "updater_error_display (BankWrite m) = ''bank write failure: '' @ m"
| "updater_error_display (Bootloader m) = ''bootloader: '' @ m"
| "updater_error_display (HealthCheckTimeout ms) = ''health check timed out after '' @ decimal (unat ms) @ ''ms''"
| "updater_error_display (HealthCheckFailed m) = ''health check failed: '' @ m"
| "updater_error_display InstallBusy = ''install busy: another install operation is in progress''"
| "updater_error_display (StateTransition e) = ''state transition: '' @ state_transition_error_display e"

section \<open>The manifest verifier\<close>

definition max_known_manifest_schema_version :: u8 where
  "max_known_manifest_schema_version = 1"

datatype version_monotonicity = Newer | SameAsCurrent | Older

definition is_admissible :: "version_monotonicity \<Rightarrow> bool" where
  "is_admissible m = (m = Newer)"

definition compare_versions :: "image_version \<Rightarrow> image_version \<Rightarrow> version_monotonicity" where
  "compare_versions candidate current =
     (if candidate > current then Newer else if candidate = current then SameAsCurrent else Older)"

record 'key manifest_verifier =
  mv_keys :: "string \<rightharpoonup> 'key"
  mv_expected_target :: "update_target option"

datatype add_manifest_key_error = AddManifestKey_Ephemeral | AddManifestKey_InvalidKey string

definition mv_new :: "'key manifest_verifier" where
  "mv_new = \<lparr>mv_keys = Map.empty, mv_expected_target = None\<rparr>"

definition mv_with_target :: "update_target \<Rightarrow> 'key manifest_verifier" where
  "mv_with_target t = \<lparr>mv_keys = Map.empty, mv_expected_target = Some t\<rparr>"

definition mv_add_key ::
  "'key ed25519_ops \<Rightarrow> string \<Rightarrow> bytes \<Rightarrow> 'key manifest_verifier
     \<Rightarrow> add_manifest_key_error + 'key manifest_verifier" where
  "mv_add_key ops kid key_bytes v =
     (if manifest_key_is_ephemeral kid then Inl AddManifestKey_Ephemeral
      else and_then (map_err AddManifestKey_InvalidKey (key_from_bytes ops key_bytes))
        (\<lambda>key. Inr (v\<lparr>mv_keys := (mv_keys v)(kid \<mapsto> key)\<rparr>)))"

definition mv_remove_key :: "string \<Rightarrow> 'key manifest_verifier \<Rightarrow> bool \<times> 'key manifest_verifier" where
  "mv_remove_key kid v = (mv_keys v kid \<noteq> None, v\<lparr>mv_keys := (mv_keys v)(kid := None)\<rparr>)"

definition mv_has_key :: "'key manifest_verifier \<Rightarrow> string \<Rightarrow> bool" where
  "mv_has_key v kid = (mv_keys v kid \<noteq> None)"

definition check_version :: "image_version \<Rightarrow> image_version option \<Rightarrow> updater_error + unit" where
  "check_version v current =
     (case current of
        None \<Rightarrow> Inr ()
      | Some cur \<Rightarrow>
          (case compare_versions v cur of
             Newer \<Rightarrow> Inr ()
           | SameAsCurrent \<Rightarrow> Inl (ManifestStale v cur)
           | Older \<Rightarrow> Inl (ManifestStale v cur)))"

definition mv_verify ::
  "'key ed25519_ops \<Rightarrow> (bytes \<Rightarrow> string + update_manifest) \<Rightarrow> 'key manifest_verifier
     \<Rightarrow> signed_manifest \<Rightarrow> image_version option \<Rightarrow> updater_error + update_manifest" where
  "mv_verify ops dec v env current =
     (if manifest_key_is_ephemeral (envelope_key_id env) then Inl Upd_EphemeralSigningKey
      else
        (case mv_keys v (envelope_key_id env) of
           None \<Rightarrow> Inl (Upd_UnknownSigningKey (envelope_key_id env))
         | Some key \<Rightarrow>
             and_then (map_err (\<lambda>_. Upd_SignatureInvalid)
               (key_verify ops key (envelope_body env) (envelope_signature env))) (\<lambda>_.
             and_then (map_err (\<lambda>e. BodyDecode (''decode manifest: '' @ e)) (dec (envelope_body env))) (\<lambda>m.
             if manifest_schema_version m = 0 \<or> manifest_schema_version m > max_known_manifest_schema_version
             then Inl (BodyDecode (''unsupported schema_version '' @ decimal (unat (manifest_schema_version m))
               @ '', agent supports 1..='' @ decimal (unat max_known_manifest_schema_version)))
             else
               (case mv_expected_target v of
                  Some expected \<Rightarrow>
                    if manifest_target m \<noteq> expected
                    then Inl (Upd_TargetMismatch (manifest_target m) expected)
                    else and_then (check_version (manifest_version m) current) (\<lambda>_. Inr m)
                | None \<Rightarrow> and_then (check_version (manifest_version m) current) (\<lambda>_. Inr m))))))"

section \<open>What the verifier promises\<close>

lemma mv_add_key_Inr:
  "mv_add_key ops kid kb v = Inr v' \<longleftrightarrow>
     \<not> manifest_key_is_ephemeral kid \<and> (\<exists>k. key_from_bytes ops kb = Inr k
       \<and> v' = v\<lparr>mv_keys := (mv_keys v)(kid \<mapsto> k)\<rparr>)"
  by (auto simp: mv_add_key_def and_then_Inr)

lemma check_version_Inr:
  "check_version v current = Inr () \<longleftrightarrow> (case current of None \<Rightarrow> True | Some cur \<Rightarrow> cur < v)"
  by (auto simp: check_version_def compare_versions_def split: option.split)

text \<open>The seven conditions of the verifier, in the order it checks them.\<close>

lemma mv_verify_Inr:
  "mv_verify ops dec v env current = Inr m \<longleftrightarrow>
     envelope_key_id env \<noteq> ephemeral_key_id
     \<and> (\<exists>key. mv_keys v (envelope_key_id env) = Some key
          \<and> key_verify ops key (envelope_body env) (envelope_signature env) = Inr ())
     \<and> dec (envelope_body env) = Inr m
     \<and> manifest_schema_version m = 1
     \<and> (case mv_expected_target v of None \<Rightarrow> True | Some t \<Rightarrow> manifest_target m = t)
     \<and> (case current of None \<Rightarrow> True | Some cur \<Rightarrow> cur < manifest_version m)"
  unfolding mv_verify_def manifest_key_is_ephemeral_def max_known_manifest_schema_version_def u8_not_one
  by (cases "mv_expected_target v"; cases "mv_keys v (envelope_key_id env)")
    (simp_all add: and_then_Inr ex_unit check_version_Inr, auto)

interpretation manifest_store: rotating_trust_store ops manifest_key_is_ephemeral mv_keys
  "mv_add_key ops" "\<lambda>v env. mv_verify ops dec v env current" envelope_key_id envelope_body
  envelope_signature mv_remove_key for ops dec current
  by unfold_locales
    (auto simp: mv_add_key_Inr mv_verify_Inr mv_remove_key_def manifest_key_is_ephemeral_def)

text \<open>
  Removing a key revokes it: whatever other keys are installed afterwards, no envelope
  that names the removed key is accepted, whatever its signature.
\<close>

theorem revoked_manifest_key_rejected:
  assumes "kid \<notin> fst ` set ks" "envelope_key_id env = kid"
  shows "mv_verify ops dec (fold (\<lambda>(k, kb) v. case mv_add_key ops k kb v of Inl _ \<Rightarrow> v | Inr v' \<Rightarrow> v') ks
    (snd (mv_remove_key kid v))) env current \<noteq> Inr m"
proof
  let ?s = "fold (manifest_store.install ops) ks (snd (mv_remove_key kid v))"
  assume "mv_verify ops dec (fold (\<lambda>(k, kb) v. case mv_add_key ops k kb v of Inl _ \<Rightarrow> v | Inr v' \<Rightarrow> v') ks
    (snd (mv_remove_key kid v))) env current = Inr m"
  then have "mv_verify ops dec ?s env current = Inr m"
    unfolding manifest_store.install_def .
  from manifest_store.check_ok [OF this] obtain k where "mv_keys ?s kid = Some k"
    using assms(2) by blast
  from manifest_store.installed_key_origin [OF this] assms(1) manifest_store.remove_keys [of kid v]
  show False by force
qed

theorem revoked_manifest_key_rejected_witness:
  "\<forall>dec m. mv_verify echo_ops dec (fold (\<lambda>(k, kb) v. case mv_add_key echo_ops k kb v of Inl _ \<Rightarrow> v | Inr v' \<Rightarrow> v') [(''k2'', [6])]
     (snd (mv_remove_key ''k1'' \<lparr>mv_keys = [''k1'' \<mapsto> [5]], mv_expected_target = None\<rparr>)))
     \<lparr>envelope_body = [1], envelope_signature = [5, 1], envelope_key_id = ''k1''\<rparr> None \<noteq> Inr m"
  by (intro allI revoked_manifest_key_rejected) simp_all

end
