(* ===== verification/Updater_Bank.thy ===== *)
theory Updater_Bank
  imports Updater_Manifest
begin

text \<open>
  The dual-bank layout, the bank writer and the bootloader of \<open>sng-updater\<close> (\<open>bank.rs\<close>,
  \<open>bootloader.rs\<close>). The two traits the service depends on are records of operations on the
  host \<open>'w\<close> they act on, and what their documentation promises is the contract of a locale over
  a view of that host. The in-memory implementations of the source are modelled in full and
  shown to meet the contracts.
\<close>

section \<open>Layout\<close>

datatype bank_slot_state =
    Slot_Empty
  | Slot_Committed image_version
  | Slot_Staged image_version
  | Slot_RolledBack image_version

fun slot_version :: "bank_slot_state \<Rightarrow> image_version option" where
  "slot_version Slot_Empty = None"
| "slot_version (Slot_Committed v) = Some v"
| "slot_version (Slot_Staged v) = Some v"
| "slot_version (Slot_RolledBack v) = Some v"

record bank_layout =
  active :: bank
  slot_a :: bank_slot_state
  slot_b :: bank_slot_state

definition cold_start_layout :: bank_layout where
  "cold_start_layout = \<lparr>active = BankA, slot_a = Slot_Empty, slot_b = Slot_Empty\<rparr>"

fun slot_state :: "bank_layout \<Rightarrow> bank \<Rightarrow> bank_slot_state" where
  "slot_state l BankA = slot_a l"
| "slot_state l BankB = slot_b l"

definition active_state :: "bank_layout \<Rightarrow> bank_slot_state" where
  "active_state l = slot_state l (active l)"

definition inactive_state :: "bank_layout \<Rightarrow> bank_slot_state" where
  "inactive_state l = slot_state l (other_bank (active l))"

definition active_version :: "bank_layout \<Rightarrow> image_version option" where
  "active_version l = slot_version (active_state l)"

definition inactive :: "bank_layout \<Rightarrow> bank" where
  "inactive l = other_bank (active l)"

text \<open>The assignment \<open>match slot { A => layout.slot_a = s, B => layout.slot_b = s }\<close>.\<close>

fun set_slot :: "bank \<Rightarrow> bank_slot_state \<Rightarrow> bank_layout \<Rightarrow> bank_layout" where
  "set_slot BankA s l = l\<lparr>slot_a := s\<rparr>"
| "set_slot BankB s l = l\<lparr>slot_b := s\<rparr>"

lemma set_slot_simps [simp]:
  "active (set_slot b s l) = active l"
  "slot_state (set_slot b s l) b' = (if b' = b then s else slot_state l b')"
  by (cases b; cases b'; simp)+

lemma slot_state_active_update [simp]: "slot_state (l\<lparr>active := b\<rparr>) b' = slot_state l b'"
  by (cases b') simp_all

record write_outcome =
  outcome_slot :: bank
  outcome_state :: bank_slot_state
  bytes_written :: u64

section \<open>The traits\<close>

record ('w, 'h) bank_writer_ops =
  bw_layout :: "'w \<Rightarrow> (updater_error + bank_layout) \<times> 'w"
  bw_open_for_write :: "bank \<Rightarrow> 'w \<Rightarrow> (updater_error + 'h) \<times> 'w"
  bw_write_chunk :: "bytes \<Rightarrow> 'h \<times> 'w \<Rightarrow> (updater_error + unit) \<times> ('h \<times> 'w)"
  bw_finish :: "'h \<Rightarrow> image_version \<Rightarrow> 'w \<Rightarrow> (updater_error + write_outcome) \<times> 'w"
  bw_abandon :: "'h \<Rightarrow> 'w \<Rightarrow> (updater_error + unit) \<times> 'w"
  bw_mark_rolled_back :: "bank \<Rightarrow> image_version \<Rightarrow> 'w \<Rightarrow> (updater_error + unit) \<times> 'w"
  bw_mark_committed :: "bank \<Rightarrow> image_version \<Rightarrow> 'w \<Rightarrow> (updater_error + unit) \<times> 'w"
  bw_set_active :: "bank \<Rightarrow> 'w \<Rightarrow> (updater_error + unit) \<times> 'w"

datatype active_bank_state = Boot_Committed bank | Boot_Pending bank bank

fun boot_current :: "active_bank_state \<Rightarrow> bank" where
  "boot_current (Boot_Committed b) = b"
| "boot_current (Boot_Pending b _) = b"

record 'w bootloader_ops =
  bl_active :: "'w \<Rightarrow> (updater_error + active_bank_state) \<times> 'w"
  bl_swap_to :: "bank \<Rightarrow> 'w \<Rightarrow> (updater_error + active_bank_state) \<times> 'w"
  bl_commit :: "'w \<Rightarrow> (updater_error + active_bank_state) \<times> 'w"
  bl_rollback :: "'w \<Rightarrow> (updater_error + active_bank_state) \<times> 'w"

section \<open>In-memory bank writer\<close>

record in_memory_bank =
  mem_layout :: bank_layout
  slot_a_bytes :: bytes
  slot_b_bytes :: bytes
  fail_open_with :: "string option"
  fail_finish_with :: "string option"
  fail_write_chunk_with :: "string option"
  set_active_failures_remaining :: u32
  set_active_failure_message :: "string option"
  set_active_call_count :: u32
  mark_committed_failures_remaining :: u32
  mark_committed_failure_message :: "string option"
  mark_committed_call_count :: u32

definition mem_bank_with_layout :: "bank_layout \<Rightarrow> in_memory_bank" where
  "mem_bank_with_layout l =
     \<lparr>mem_layout = l, slot_a_bytes = [], slot_b_bytes = [], fail_open_with = None,
      fail_finish_with = None, fail_write_chunk_with = None, set_active_failures_remaining = 0,
      set_active_failure_message = None, set_active_call_count = 0,
      mark_committed_failures_remaining = 0, mark_committed_failure_message = None,
      mark_committed_call_count = 0\<rparr>"

fun mem_slot_bytes :: "in_memory_bank \<Rightarrow> bank \<Rightarrow> bytes" where
  "mem_slot_bytes m BankA = slot_a_bytes m"
| "mem_slot_bytes m BankB = slot_b_bytes m"

fun set_slot_bytes :: "bank \<Rightarrow> bytes \<Rightarrow> in_memory_bank \<Rightarrow> in_memory_bank" where
  "set_slot_bytes BankA b m = m\<lparr>slot_a_bytes := b\<rparr>"
| "set_slot_bytes BankB b m = m\<lparr>slot_b_bytes := b\<rparr>"

record mem_handle =
  handle_slot :: bank
  handle_buffer :: bytes

definition mem_get_layout :: "in_memory_bank \<Rightarrow> (updater_error + bank_layout) \<times> in_memory_bank" where
  "mem_get_layout m = (Inr (mem_layout m), m)"

definition mem_open_for_write :: "bank \<Rightarrow> in_memory_bank \<Rightarrow> (updater_error + mem_handle) \<times> in_memory_bank" where
  "mem_open_for_write slot m =
     (case fail_open_with m of
        Some msg \<Rightarrow> (Inl (BankWrite (''forced: '' @ msg)), m)
      | None \<Rightarrow>
          if active (mem_layout m) = slot
          then (Inl (BankWrite (''cannot open active slot '' @ bank_display slot @ '' for write'')), m)
          else (Inr \<lparr>handle_slot = slot, handle_buffer = []\<rparr>, m))"

definition mem_write_chunk ::
  "bytes \<Rightarrow> mem_handle \<times> in_memory_bank \<Rightarrow> (updater_error + unit) \<times> (mem_handle \<times> in_memory_bank)" where
  "mem_write_chunk chunk = (\<lambda>(h, m).
     case fail_write_chunk_with m of
       Some msg \<Rightarrow> (Inl (BankWrite (''forced: '' @ msg)), (h, m))
     | None \<Rightarrow> (Inr (), (h\<lparr>handle_buffer := handle_buffer h @ chunk\<rparr>, m)))"

definition mem_finish ::
  "mem_handle \<Rightarrow> image_version \<Rightarrow> in_memory_bank \<Rightarrow> (updater_error + write_outcome) \<times> in_memory_bank" where
  "mem_finish h v m =
     (case fail_finish_with m of
        Some msg \<Rightarrow> (Inl (BankWrite (''forced: '' @ msg)), m)
      | None \<Rightarrow>
          let m1 = set_slot_bytes (handle_slot h) (handle_buffer h) m;
              m2 = m1\<lparr>mem_layout := set_slot (handle_slot h) (Slot_Staged v) (mem_layout m1)\<rparr>
          in (Inr \<lparr>outcome_slot = handle_slot h, outcome_state = Slot_Staged v,
                   bytes_written = of_nat (length (handle_buffer h))\<rparr>, m2))"

definition mem_abandon :: "mem_handle \<Rightarrow> in_memory_bank \<Rightarrow> (updater_error + unit) \<times> in_memory_bank" where
  "mem_abandon h m = (Inr (), m)"

definition mem_mark_rolled_back ::
  "bank \<Rightarrow> image_version \<Rightarrow> in_memory_bank \<Rightarrow> (updater_error + unit) \<times> in_memory_bank" where
  "mem_mark_rolled_back slot v m =
     (Inr (), m\<lparr>mem_layout := set_slot slot (Slot_RolledBack v) (mem_layout m)\<rparr>)"

definition unwrap_or :: "'a option \<Rightarrow> 'a \<Rightarrow> 'a" where
  "unwrap_or x d = (case x of Some y \<Rightarrow> y | None \<Rightarrow> d)"

definition mem_mark_committed ::
  "bank \<Rightarrow> image_version \<Rightarrow> in_memory_bank \<Rightarrow> (updater_error + unit) \<times> in_memory_bank" where
  "mem_mark_committed slot v m0 =
     (let m = m0\<lparr>mark_committed_call_count := mark_committed_call_count m0 + 1\<rparr> in
      if mark_committed_failures_remaining m > 0
      then (Inl (BankWrite (''forced: '' @ unwrap_or (mark_committed_failure_message m) ''emulated transient io'')),
            m\<lparr>mark_committed_failures_remaining := mark_committed_failures_remaining m - 1\<rparr>)
      else (Inr (), m\<lparr>mem_layout := set_slot slot (Slot_Committed v) (mem_layout m)\<rparr>))"

definition mem_set_active :: "bank \<Rightarrow> in_memory_bank \<Rightarrow> (updater_error + unit) \<times> in_memory_bank" where
  "mem_set_active slot m0 =
     (let m = m0\<lparr>set_active_call_count := set_active_call_count m0 + 1\<rparr> in
      if set_active_failures_remaining m > 0
      then (Inl (BankWrite (''forced: '' @ unwrap_or (set_active_failure_message m) ''emulated transient io'')),
            m\<lparr>set_active_failures_remaining := set_active_failures_remaining m - 1\<rparr>)
      else (Inr (), m\<lparr>mem_layout := (mem_layout m)\<lparr>active := slot\<rparr>\<rparr>))"

section \<open>In-memory bootloader\<close>

record in_memory_boot =
  boot_state :: active_bank_state
  boot_fail_with :: "string option"
  swap_count :: u64
  commit_count :: u64
  rollback_count :: u64

definition mem_boot_new :: "bank \<Rightarrow> in_memory_boot" where
  "mem_boot_new b =
     \<lparr>boot_state = Boot_Committed b, boot_fail_with = None, swap_count = 0, commit_count = 0,
      rollback_count = 0\<rparr>"

definition em_dash :: string where
  "em_dash = map char_of [0xE2 :: nat, 0x80, 0x94]"

definition mem_boot_active :: "in_memory_boot \<Rightarrow> (updater_error + active_bank_state) \<times> in_memory_boot" where
  "mem_boot_active m = (Inr (boot_state m), m)"

definition mem_boot_swap_to ::
  "bank \<Rightarrow> in_memory_boot \<Rightarrow> (updater_error + active_bank_state) \<times> in_memory_boot" where
  "mem_boot_swap_to b m =
     (case boot_fail_with m of
        Some msg \<Rightarrow> (Inl (Bootloader (''forced: '' @ msg)), m)
      | None \<Rightarrow>
          (case boot_state m of
             Boot_Pending _ _ \<Rightarrow> (Inl (Bootloader ''swap already pending''), m)
           | Boot_Committed prev \<Rightarrow>
               (Inr (Boot_Pending b prev),
                m\<lparr>boot_state := Boot_Pending b prev, swap_count := swap_count m + 1\<rparr>)))"

definition mem_boot_commit :: "in_memory_boot \<Rightarrow> (updater_error + active_bank_state) \<times> in_memory_boot" where
  "mem_boot_commit m =
     (case boot_fail_with m of
        Some msg \<Rightarrow> (Inl (Bootloader (''forced: '' @ msg)), m)
      | None \<Rightarrow>
          (case boot_state m of
             Boot_Pending b _ \<Rightarrow>
               (Inr (Boot_Committed b), m\<lparr>boot_state := Boot_Committed b, commit_count := commit_count m + 1\<rparr>)
           | Boot_Committed _ \<Rightarrow>
               (Inl (Bootloader (''no swap pending '' @ em_dash @ '' commit is a no-op'')), m)))"

definition mem_boot_rollback :: "in_memory_boot \<Rightarrow> (updater_error + active_bank_state) \<times> in_memory_boot" where
  "mem_boot_rollback m =
     (case boot_fail_with m of
        Some msg \<Rightarrow> (Inl (Bootloader (''forced: '' @ msg)), m)
      | None \<Rightarrow>
          (case boot_state m of
             Boot_Pending _ prev \<Rightarrow>
               (Inr (Boot_Committed prev),
                m\<lparr>boot_state := Boot_Committed prev, rollback_count := rollback_count m + 1\<rparr>)
           | Boot_Committed _ \<Rightarrow>
               (Inl (Bootloader (''no swap pending '' @ em_dash @ '' rollback is a no-op'')), m)))"

section \<open>What the traits promise\<close>

text \<open>
  What can be observed of a host: the recorded layout, the bytes in the two slots and the state
  of the bootloader.
\<close>

record host_view =
  hv_layout :: bank_layout
  hv_bytes :: "bank \<Rightarrow> bytes"
  hv_boot :: active_bank_state

text \<open>Only what concerns slot \<open>b\<close> may differ; only its record may differ.\<close>

definition touches_slot :: "bank \<Rightarrow> host_view \<Rightarrow> host_view \<Rightarrow> bool" where
  "touches_slot b v v' \<longleftrightarrow> hv_boot v' = hv_boot v \<and> active (hv_layout v') = active (hv_layout v)
     \<and> (\<forall>c. c \<noteq> b \<longrightarrow> slot_state (hv_layout v') c = slot_state (hv_layout v) c \<and> hv_bytes v' c = hv_bytes v c)"

definition relabels_slot :: "bank \<Rightarrow> host_view \<Rightarrow> host_view \<Rightarrow> bool" where
  "relabels_slot b v v' \<longleftrightarrow> touches_slot b v v' \<and> hv_bytes v' = hv_bytes v"

lemma touches_slot_refl [simp]: "touches_slot b v v" "relabels_slot b v v"
  by (simp_all add: touches_slot_def relabels_slot_def)

lemma touches_slot_trans: "touches_slot b u v \<Longrightarrow> touches_slot b v w \<Longrightarrow> touches_slot b u w"
  by (simp add: touches_slot_def)

locale bank_writer =
  fixes bops :: "('w, 'h) bank_writer_ops"
    and view :: "'w \<Rightarrow> host_view"
    and slot_of :: "'h \<Rightarrow> bank"
    and buffer_of :: "'h \<Rightarrow> bytes"
  assumes layout_law: "\<And>w r w'. bw_layout bops w = (r, w') \<Longrightarrow>
      view w' = view w \<and> (\<forall>l. r = Inr l \<longrightarrow> l = hv_layout (view w))"
    and open_law: "\<And>b w r w'. bw_open_for_write bops b w = (r, w') \<Longrightarrow>
      view w' = view w \<and> (\<forall>h. r = Inr h \<longrightarrow>
        b \<noteq> active (hv_layout (view w)) \<and> slot_of h = b \<and> buffer_of h = [])"
    and write_law: "\<And>c h w r h' w'. bw_write_chunk bops c (h, w) = (r, (h', w')) \<Longrightarrow>
      view w' = view w \<and> slot_of h' = slot_of h \<and> (r = Inr () \<longrightarrow> buffer_of h' = buffer_of h @ c)"
    and finish_law: "\<And>h v w r w'. bw_finish bops h v w = (r, w') \<Longrightarrow>
      touches_slot (slot_of h) (view w) (view w')
      \<and> (\<forall>x. r = Inr x \<longrightarrow> hv_bytes (view w') (slot_of h) = buffer_of h
           \<and> slot_state (hv_layout (view w')) (slot_of h) = Slot_Staged v)"
    and abandon_law: "\<And>h w r w'. bw_abandon bops h w = (r, w') \<Longrightarrow> view w' = view w"
    and mark_rolled_back_law: "\<And>b v w r w'. bw_mark_rolled_back bops b v w = (r, w') \<Longrightarrow>
      relabels_slot b (view w) (view w')
      \<and> (r = Inr () \<longrightarrow> slot_state (hv_layout (view w')) b = Slot_RolledBack v)"
    and mark_committed_law: "\<And>b v w r w'. bw_mark_committed bops b v w = (r, w') \<Longrightarrow>
      relabels_slot b (view w) (view w')
      \<and> (r = Inr () \<longrightarrow> slot_state (hv_layout (view w')) b = Slot_Committed v)"
    and set_active_law: "\<And>b w r w'. bw_set_active bops b w = (r, w') \<Longrightarrow>
      hv_bytes (view w') = hv_bytes (view w) \<and> hv_boot (view w') = hv_boot (view w)
      \<and> slot_state (hv_layout (view w')) = slot_state (hv_layout (view w))
      \<and> active (hv_layout (view w')) \<in> {active (hv_layout (view w)), b}
      \<and> (r = Inr () \<longrightarrow> active (hv_layout (view w')) = b)"

locale bootloader =
  fixes lops :: "'w bootloader_ops"
    and view :: "'w \<Rightarrow> host_view"
  assumes active_law: "bl_active lops w = (r, w') \<Longrightarrow>
      view w' = view w \<and> (\<forall>x. r = Inr x \<longrightarrow> x = hv_boot (view w))"
    and swap_law: "bl_swap_to lops b w = (r, w') \<Longrightarrow>
      (case r of Inl _ \<Rightarrow> view w' = view w
       | Inr _ \<Rightarrow> \<exists>prev. hv_boot (view w) = Boot_Committed prev
           \<and> view w' = (view w)\<lparr>hv_boot := Boot_Pending b prev\<rparr>)"
    and commit_law: "bl_commit lops w = (r, w') \<Longrightarrow>
      (case r of Inl _ \<Rightarrow> view w' = view w
       | Inr _ \<Rightarrow> \<exists>b prev. hv_boot (view w) = Boot_Pending b prev
           \<and> view w' = (view w)\<lparr>hv_boot := Boot_Committed b\<rparr>)"
    and rollback_law: "bl_rollback lops w = (r, w') \<Longrightarrow>
      (case r of Inl _ \<Rightarrow> view w' = view w
       | Inr _ \<Rightarrow> \<exists>b prev. hv_boot (view w) = Boot_Pending b prev
           \<and> view w' = (view w)\<lparr>hv_boot := Boot_Committed prev\<rparr>)"

section \<open>The in-memory adapters keep the contracts\<close>

text \<open>A host with the in-memory writer and bootloader; other devices may be added to it.\<close>

record mem_host =
  host_bank :: in_memory_bank
  host_boot :: in_memory_boot

definition mem_view :: "'z mem_host_scheme \<Rightarrow> host_view" where
  "mem_view w =
     \<lparr>hv_layout = mem_layout (host_bank w), hv_bytes = mem_slot_bytes (host_bank w),
      hv_boot = boot_state (host_boot w)\<rparr>"

definition on_bank ::
  "(in_memory_bank \<Rightarrow> 'r \<times> in_memory_bank) \<Rightarrow> 'z mem_host_scheme \<Rightarrow> 'r \<times> 'z mem_host_scheme" where
  "on_bank f w = (case f (host_bank w) of (r, m) \<Rightarrow> (r, w\<lparr>host_bank := m\<rparr>))"

definition on_boot ::
  "(in_memory_boot \<Rightarrow> 'r \<times> in_memory_boot) \<Rightarrow> 'z mem_host_scheme \<Rightarrow> 'r \<times> 'z mem_host_scheme" where
  "on_boot f w = (case f (host_boot w) of (r, m) \<Rightarrow> (r, w\<lparr>host_boot := m\<rparr>))"

definition mem_bank_ops :: "('z mem_host_scheme, mem_handle) bank_writer_ops" where
  "mem_bank_ops =
     \<lparr>bw_layout = on_bank mem_get_layout,
      bw_open_for_write = (\<lambda>b. on_bank (mem_open_for_write b)),
      bw_write_chunk = (\<lambda>c (h, w). case mem_write_chunk c (h, host_bank w) of
         (r, (h', m)) \<Rightarrow> (r, (h', w\<lparr>host_bank := m\<rparr>))),
      bw_finish = (\<lambda>h v. on_bank (mem_finish h v)),
      bw_abandon = (\<lambda>h. on_bank (mem_abandon h)),
      bw_mark_rolled_back = (\<lambda>b v. on_bank (mem_mark_rolled_back b v)),
      bw_mark_committed = (\<lambda>b v. on_bank (mem_mark_committed b v)),
      bw_set_active = (\<lambda>b. on_bank (mem_set_active b))\<rparr>"

definition mem_boot_ops :: "'z mem_host_scheme bootloader_ops" where
  "mem_boot_ops =
     \<lparr>bl_active = on_boot mem_boot_active, bl_swap_to = (\<lambda>b. on_boot (mem_boot_swap_to b)),
      bl_commit = on_boot mem_boot_commit, bl_rollback = on_boot mem_boot_rollback\<rparr>"

lemma mem_slot_bytes_other [simp]:
  "mem_slot_bytes (m\<lparr>mem_layout := l\<rparr>) b = mem_slot_bytes m b"
  "mem_slot_bytes (m\<lparr>mark_committed_call_count := n\<rparr>) b = mem_slot_bytes m b"
  "mem_slot_bytes (m\<lparr>mark_committed_failures_remaining := n\<rparr>) b = mem_slot_bytes m b"
  "mem_slot_bytes (m\<lparr>set_active_call_count := n\<rparr>) b = mem_slot_bytes m b"
  "mem_slot_bytes (m\<lparr>set_active_failures_remaining := n\<rparr>) b = mem_slot_bytes m b"
  by (cases b; simp)+

lemma set_slot_bytes_simps [simp]:
  "mem_slot_bytes (set_slot_bytes b bs m) c = (if c = b then bs else mem_slot_bytes m c)"
  "mem_layout (set_slot_bytes b bs m) = mem_layout m"
  by (cases b; cases c; simp)+

lemmas mem_bank_defs =
  mem_bank_ops_def on_bank_def mem_view_def mem_get_layout_def mem_open_for_write_def
  mem_write_chunk_def mem_finish_def mem_abandon_def mem_mark_rolled_back_def
  mem_mark_committed_def mem_set_active_def touches_slot_def relabels_slot_def Let_def

lemmas mem_boot_defs =
  mem_boot_ops_def on_boot_def mem_view_def mem_boot_active_def mem_boot_swap_to_def
  mem_boot_commit_def mem_boot_rollback_def

interpretation mem_bank: bank_writer mem_bank_ops mem_view handle_slot handle_buffer
  by unfold_locales
    (auto simp: mem_bank_defs fun_eq_iff split: option.splits if_splits prod.splits)

interpretation mem_boot: bootloader mem_boot_ops mem_view
  by unfold_locales
    (auto simp: mem_boot_defs split: option.splits active_bank_state.splits prod.splits)

end
