(* ===== verification/Updater_Download.thy ===== *)
theory Updater_Download
  imports Updater_Bank
begin

text \<open>
  Streaming an image (\<open>sng-updater/src/download.rs\<close>): the size-bounded hasher, the sink that
  feeds hasher and bank in lockstep, the downloader trait with its contract, and the in-memory
  downloader. SHA-256 (crate \<open>sha2\<close>) and hexadecimal printing (crate \<open>hex\<close>) are parameters.
\<close>

section \<open>The streaming hasher\<close>

record 'c digest_ops =
  sha_new :: 'c
  sha_update :: "bytes \<Rightarrow> 'c \<Rightarrow> 'c"
  sha_finalize :: "'c \<Rightarrow> bytes"
  hex_encode :: "bytes \<Rightarrow> string"

record image_receipt =
  receipt_size_bytes :: u64
  receipt_sha256 :: bytes

record 'c streaming_hasher =
  hasher :: 'c
  size_read :: u64
  max_size :: u64

definition hasher_new :: "'c digest_ops \<Rightarrow> u64 \<Rightarrow> 'c streaming_hasher" where
  "hasher_new sha n = \<lparr>hasher = sha_new sha, size_read = 0, max_size = n\<rparr>"

definition hasher_write_chunk ::
  "'c digest_ops \<Rightarrow> bytes \<Rightarrow> 'c streaming_hasher \<Rightarrow> (updater_error + unit) \<times> 'c streaming_hasher" where
  "hasher_write_chunk sha chunk hs =
     (case checked_add (size_read hs) (of_nat (length chunk)) of
        None \<Rightarrow> (Inl (ImageSizeExceeded (max_size hs) (- 1)), hs)
      | Some new_total \<Rightarrow>
          if new_total > max_size hs
          then (Inl (ImageSizeExceeded (max_size hs) new_total), hs)
          else (Inr (), hs\<lparr>hasher := sha_update sha chunk (hasher hs), size_read := new_total\<rparr>))"

definition hasher_finalise :: "'c digest_ops \<Rightarrow> 'c streaming_hasher \<Rightarrow> image_receipt" where
  "hasher_finalise sha hs =
     \<lparr>receipt_size_bytes = size_read hs, receipt_sha256 = sha_finalize sha (hasher hs)\<rparr>"

section \<open>Errors and sinks\<close>

datatype download_error =
    Transport string
  | Status string
  | Truncated u64 u64
  | SizeExceeded u64 u64
  | Dl_BankWrite string

fun download_error_display :: "download_error \<Rightarrow> string" where
  "download_error_display (Transport m) = ''transport: '' @ m"
| "download_error_display (Status m) = ''upstream status: '' @ m"
| "download_error_display (Truncated e r) =
     ''truncated: read '' @ decimal (unat r) @ '' of '' @ decimal (unat e)"
| "download_error_display (SizeExceeded c a) =
     ''size exceeded: declared '' @ decimal (unat c) @ '' bytes, attempted '' @ decimal (unat a)"
| "download_error_display (Dl_BankWrite m) = ''bank write: '' @ m"

definition map_hasher_error :: "updater_error \<Rightarrow> download_error" where
  "map_hasher_error e =
     (case e of
        ImageSizeExceeded claimed read \<Rightarrow> SizeExceeded claimed read
      | other \<Rightarrow> Transport (''hasher rejected chunk: '' @ updater_error_display other))"

definition map_bank_error :: "updater_error \<Rightarrow> download_error" where
  "map_bank_error e = Dl_BankWrite (updater_error_display e)"

text \<open>A sink consumes chunks; the state it writes to is threaded by the downloader.\<close>

type_synonym 'k chunk_sink = "bytes \<Rightarrow> 'k \<Rightarrow> (download_error + unit) \<times> 'k"

definition hasher_sink :: "'c digest_ops \<Rightarrow> 'c streaming_hasher chunk_sink" where
  "hasher_sink sha chunk hs =
     (case hasher_write_chunk sha chunk hs of (r, hs') \<Rightarrow> (map_err map_hasher_error r, hs'))"

type_synonym ('c, 'h, 'w) tee_state = "('c streaming_hasher \<times> 'h) \<times> 'w"

definition tee_write_chunk ::
  "'c digest_ops \<Rightarrow> ('w, 'h) bank_writer_ops \<Rightarrow> ('c, 'h, 'w) tee_state chunk_sink" where
  "tee_write_chunk sha bops chunk = (\<lambda>((hs, h), w).
     case hasher_write_chunk sha chunk hs of
       (Inl e, hs') \<Rightarrow> (Inl (map_hasher_error e), ((hs', h), w))
     | (Inr _, hs') \<Rightarrow>
         (case bw_write_chunk bops chunk (h, w) of
            (Inl e, (h', w')) \<Rightarrow> (Inl (map_bank_error e), ((hs', h'), w'))
          | (Inr _, (h', w')) \<Rightarrow> (Inr (), ((hs', h'), w'))))"

section \<open>The in-memory downloader\<close>

record in_memory_downloader =
  payloads :: "string \<rightharpoonup> bytes"
  dl_fail_with :: "download_error option"
  chunk_size :: nat
  dl_calls :: u64
  truncate_after :: "u64 option"

definition mem_downloader_new :: in_memory_downloader where
  "mem_downloader_new =
     \<lparr>payloads = Map.empty, dl_fail_with = None, chunk_size = 64 * 1024, dl_calls = 0,
      truncate_after = None\<rparr>"

definition mem_dl_register :: "string \<Rightarrow> bytes \<Rightarrow> in_memory_downloader \<Rightarrow> in_memory_downloader" where
  "mem_dl_register url b d = d\<lparr>payloads := (payloads d)(url \<mapsto> b)\<rparr>"

definition mem_dl_set_chunk_size :: "nat \<Rightarrow> in_memory_downloader \<Rightarrow> in_memory_downloader" where
  "mem_dl_set_chunk_size n d = d\<lparr>chunk_size := max n 1\<rparr>"

text \<open>\<open>slice::chunks\<close>, for a chunk size of at least one.\<close>

fun chunks :: "nat \<Rightarrow> 'a list \<Rightarrow> 'a list list" where
  "chunks n xs = (if n = 0 \<or> xs = [] then [] else take n xs # chunks n (drop n xs))"

declare chunks.simps [simp del]

text \<open>The loop over the chunks, with the optional truncation of the payload.\<close>

fun mem_feed ::
  "u64 option \<Rightarrow> u64 \<Rightarrow> 'k chunk_sink \<Rightarrow> bytes list \<Rightarrow> u64 \<Rightarrow> 'k \<Rightarrow> (download_error + unit) \<times> 'k" where
  "mem_feed tr declared sink [] written k = (Inr (), k)"
| "mem_feed tr declared sink (c # cs) written k =
     (case tr of
        Some t \<Rightarrow>
          if saturating_add written (of_nat (length c)) > t
          then
            let n = unat (saturating_sub t written) in
            if n > 0
            then (case sink (take n c) k of
                    (Inl e, k') \<Rightarrow> (Inl e, k')
                  | (Inr _, k') \<Rightarrow> (Inl (Truncated declared (written + of_nat n)), k'))
            else (Inl (Truncated declared written), k)
          else
            (case sink c k of
               (Inl e, k') \<Rightarrow> (Inl e, k')
             | (Inr _, k') \<Rightarrow> mem_feed tr declared sink cs (written + of_nat (length c)) k')
      | None \<Rightarrow>
          (case sink c k of
             (Inl e, k') \<Rightarrow> (Inl e, k')
           | (Inr _, k') \<Rightarrow> mem_feed tr declared sink cs (written + of_nat (length c)) k'))"

definition mem_deliver ::
  "in_memory_downloader \<Rightarrow> string \<Rightarrow> u64 \<Rightarrow> 'k chunk_sink \<Rightarrow> 'k \<Rightarrow> (download_error + unit) \<times> 'k" where
  "mem_deliver d url declared sink k =
     (case dl_fail_with d of
        Some e \<Rightarrow> (Inl e, k)
      | None \<Rightarrow>
          (case payloads d url of
             None \<Rightarrow> (Inl (Status (''no payload registered for url '' @ url)), k)
           | Some b \<Rightarrow>
               (case mem_feed (truncate_after d) declared sink (chunks (chunk_size d) b) 0 k of
                  (Inl e, k') \<Rightarrow> (Inl e, k')
                | (Inr _, k') \<Rightarrow>
                    if of_nat (length b) < declared
                    then (Inl (Truncated declared (of_nat (length b))), k')
                    else (Inr (), k'))))"

text \<open>A host with the in-memory adapters of the previous theory and this downloader.\<close>

record mem_net_host = mem_host +
  host_dl :: in_memory_downloader

definition mem_download ::
  "string \<Rightarrow> u64 \<Rightarrow> ('t \<times> 'z mem_net_host_scheme) chunk_sink \<Rightarrow> 't \<times> 'z mem_net_host_scheme
     \<Rightarrow> (download_error + unit) \<times> ('t \<times> 'z mem_net_host_scheme)" where
  "mem_download url declared sink = (\<lambda>(t, w).
     mem_deliver (host_dl w) url declared sink
       (t, w\<lparr>host_dl := (host_dl w)\<lparr>dl_calls := dl_calls (host_dl w) + 1\<rparr>\<rparr>))"

section \<open>What a downloader promises\<close>

text \<open>
  A downloader reaches the host through the sink only, apart from its own devices, and it
  propagates a failing write: whatever the sink maintains while its writes succeed holds when
  the download succeeds, and when it fails, unless a failing write was the last.
\<close>

locale downloader =
  fixes dl :: "string \<Rightarrow> u64 \<Rightarrow> ('t \<times> 'w) chunk_sink \<Rightarrow> 't \<times> 'w \<Rightarrow> (download_error + unit) \<times> ('t \<times> 'w)"
    and view :: "'w \<Rightarrow> host_view"
  assumes download_law: "\<lbrakk>\<And>c k r k'. I k \<Longrightarrow> sink c k = (r, k') \<Longrightarrow> (case r of Inr _ \<Rightarrow> I k' | Inl _ \<Rightarrow> J k');
      \<And>t w w'. I (t, w) \<Longrightarrow> view w' = view w \<Longrightarrow> I (t, w');
      I k; dl url n sink k = (r, k')\<rbrakk> \<Longrightarrow>
      (case r of Inr _ \<Rightarrow> I k' | Inl _ \<Rightarrow> I k' \<or> J k')"

lemma mem_feed_continue:
  assumes "\<And>t. tr = Some t \<Longrightarrow> saturating_add written (of_nat (length c)) \<le> t" "sink c k = (x, k1)"
  shows "mem_feed tr n sink (c # cs) written k =
    (case x of Inl e \<Rightarrow> (Inl e, k1) | Inr _ \<Rightarrow> mem_feed tr n sink cs (written + of_nat (length c)) k1)"
  using assms by (cases tr) (auto simp: not_less split: sum.splits)

lemma mem_feed_truncate:
  assumes "saturating_add written (of_nat (length c)) > t"
  shows "mem_feed (Some t) n sink (c # cs) written k =
    (let m = unat (saturating_sub t written) in
     if m > 0
     then (case sink (take m c) k of (Inl e, k') \<Rightarrow> (Inl e, k')
           | (Inr _, k') \<Rightarrow> (Inl (Truncated n (written + of_nat m)), k'))
     else (Inl (Truncated n written), k))"
  using assms by (simp add: Let_def)

lemma mem_feed_inv:
  assumes sink: "\<And>c k r k'. I k \<Longrightarrow> sink c k = (r, k') \<Longrightarrow> (case r of Inr _ \<Rightarrow> I k' | Inl _ \<Rightarrow> J k')"
    and "I k" "mem_feed tr n sink cs written k = (r, k')"
  shows "case r of Inr _ \<Rightarrow> I k' | Inl _ \<Rightarrow> I k' \<or> J k'"
  using assms(2,3)
proof (induction cs arbitrary: written k)
  case (Cons c cs)
  show ?case
  proof (cases "\<exists>t. tr = Some t \<and> saturating_add written (of_nat (length c)) > t")
    case True
    then obtain t where t: "tr = Some t" "saturating_add written (of_nat (length c)) > t" by blast
    obtain x k1 where x: "sink (take (unat (saturating_sub t written)) c) k = (x, k1)"
      by (cases "sink (take (unat (saturating_sub t written)) c) k")
    show ?thesis
      using Cons.prems sink [OF Cons.prems(1) x]
      unfolding t(1) mem_feed_truncate [OF t(2)] Let_def x
      by (cases x) (auto split: if_splits)
  next
    case False
    obtain x k1 where x: "sink c k = (x, k1)" by (cases "sink c k")
    have nxt: "mem_feed tr n sink (c # cs) written k =
        (case x of Inl e \<Rightarrow> (Inl e, k1) | Inr _ \<Rightarrow> mem_feed tr n sink cs (written + of_nat (length c)) k1)"
      by (rule mem_feed_continue) (use False x in auto)
    show ?thesis
      using Cons.IH [of k1] Cons.prems sink [OF Cons.prems(1) x] nxt by (cases x) (auto simp del: mem_feed.simps)
  qed
qed auto

lemma mem_deliver_inv:
  assumes "\<And>c k r k'. I k \<Longrightarrow> sink c k = (r, k') \<Longrightarrow> (case r of Inr _ \<Rightarrow> I k' | Inl _ \<Rightarrow> J k')"
    and "I k" "mem_deliver d url n sink k = (r, k')"
  shows "case r of Inr _ \<Rightarrow> I k' | Inl _ \<Rightarrow> I k' \<or> J k'"
proof (cases "payloads d url")
  case None
  then show ?thesis using assms(2,3) by (auto simp: mem_deliver_def split: option.splits)
next
  case (Some b)
  obtain x k1 where x: "mem_feed (truncate_after d) n sink (chunks (chunk_size d) b) 0 k = (x, k1)"
    by (cases "mem_feed (truncate_after d) n sink (chunks (chunk_size d) b) 0 k")
  show ?thesis
    using assms(2,3) Some x mem_feed_inv [of I sink J k, OF assms(1,2) x]
    by (auto simp: mem_deliver_def split: option.splits sum.splits if_splits)
qed

interpretation mem_dl: downloader mem_download mem_view
proof
  fix I J :: "'t \<times> 'z mem_net_host_scheme \<Rightarrow> bool" and sink k url n r k'
  assume sink: "\<And>c k r k'. I k \<Longrightarrow> sink c k = (r, k') \<Longrightarrow> (case r of Inr _ \<Rightarrow> I k' | Inl _ \<Rightarrow> J k')"
    and stable: "\<And>t w w'. I (t, w) \<Longrightarrow> mem_view w' = mem_view w \<Longrightarrow> I (t, w')"
    and k: "I k" and dl: "mem_download url n sink k = (r, k')"
  obtain t w where tw: "k = (t, w)" by (cases k)
  let ?w = "w\<lparr>host_dl := (host_dl w)\<lparr>dl_calls := dl_calls (host_dl w) + 1\<rparr>\<rparr>"
  have "mem_view ?w = mem_view w" by (simp add: mem_view_def)
  then have "I (t, ?w)" using stable k tw by blast
  then show "case r of Inr _ \<Rightarrow> I k' | Inl _ \<Rightarrow> I k' \<or> J k'"
    using mem_deliver_inv [of I sink J "(t, ?w)" "host_dl w" url n r k', OF sink] dl tw
    by (simp add: mem_download_def)
qed

section \<open>What hasher and sink establish\<close>

text \<open>
  The hasher has seen exactly the chunks \<open>cs\<close>: its digest state, its counter and its bound.
\<close>

definition hasher_saw :: "'c digest_ops \<Rightarrow> u64 \<Rightarrow> bytes list \<Rightarrow> 'c streaming_hasher \<Rightarrow> bool" where
  "hasher_saw sha n cs hs \<longleftrightarrow>
     hasher hs = fold (sha_update sha) cs (sha_new sha) \<and> max_size hs = n
     \<and> size_read hs = of_nat (length (concat cs)) \<and> size_read hs \<le> n"

lemma hasher_saw_new: "hasher_saw sha n [] (hasher_new sha n)"
  by (simp add: hasher_saw_def hasher_new_def)

lemma hasher_saw_write:
  assumes "hasher_saw sha n cs hs" "hasher_write_chunk sha c hs = (Inr u, hs')"
  shows "hasher_saw sha n (cs @ [c]) hs'"
  using assms
  by (auto simp: hasher_saw_def hasher_write_chunk_def checked_add_Some not_less
      split: option.splits if_splits)

context bank_writer
begin

definition tee_saw :: "'c digest_ops \<Rightarrow> u64 \<Rightarrow> bank \<Rightarrow> host_view \<Rightarrow> ('c, 'h, 'w) tee_state \<Rightarrow> bool" where
  "tee_saw sha n b v = (\<lambda>((hs, h), w).
     view w = v \<and> slot_of h = b \<and> (\<exists>cs. hasher_saw sha n cs hs \<and> buffer_of h = concat cs))"

definition tee_failed :: "bank \<Rightarrow> host_view \<Rightarrow> ('c, 'h, 'w) tee_state \<Rightarrow> bool" where
  "tee_failed b v = (\<lambda>((hs, h), w). view w = v \<and> slot_of h = b)"

lemma tee_saw_step:
  assumes "tee_saw sha n b v k" "tee_write_chunk sha bops c k = (r, k')"
  shows "case r of Inr _ \<Rightarrow> tee_saw sha n b v k' | Inl _ \<Rightarrow> tee_failed b v k'"
proof -
  obtain hs h w where k: "k = ((hs, h), w)" by (metis prod.exhaust)
  obtain x hs1 where hw: "hasher_write_chunk sha c hs = (x, hs1)" by (cases "hasher_write_chunk sha c hs")
  obtain y h1 w1 where bw: "bw_write_chunk bops c (h, w) = (y, (h1, w1))" by (metis prod.exhaust)
  obtain cs where cs: "hasher_saw sha n cs hs" "buffer_of h = concat cs" "view w = v" "slot_of h = b"
    using assms(1) by (auto simp: tee_saw_def k)
  show ?thesis
  proof (cases x)
    case (Inl e)
    then show ?thesis using assms(2) cs hw by (auto simp: tee_write_chunk_def k tee_failed_def)
  next
    case (Inr u)
    then have "hasher_saw sha n (cs @ [c]) hs1" using hasher_saw_write [OF cs(1)] hw by simp
    then show ?thesis
      using assms(2) Inr hw bw write_law [OF bw] cs
      by (auto simp: tee_write_chunk_def k tee_failed_def tee_saw_def split: sum.splits
          intro: exI [of _ "cs @ [c]"])
  qed
qed

end

section \<open>Downloading into the hasher\<close>

lemma concat_chunks [simp]: "n > 0 \<Longrightarrow> concat (chunks n xs) = xs"
  by (induction n xs rule: chunks.induct) (subst chunks.simps, simp)

lemma hasher_write_chunk_bound:
  assumes "hasher_saw sha n cs hs" "length (concat cs) + length c < 2 ^ 64"
  shows "if length (concat cs) + length c \<le> unat n
    then \<exists>hs'. hasher_write_chunk sha c hs = (Inr (), hs') \<and> hasher_saw sha n (cs @ [c]) hs'
    else \<exists>e. hasher_write_chunk sha c hs = (Inl e, hs)"
proof -
  have c: "unat (of_nat (length c) :: u64) = length c" using assms(2) by (simp add: unat_of_nat_less)
  have s: "unat (size_read hs) = length (concat cs)"
    using assms by (simp add: hasher_saw_def unat_of_nat_less)
  then have "checked_add (size_read hs) (of_nat (length c)) = Some (size_read hs + of_nat (length c))"
    using assms(2) c by (simp add: checked_add_def)
  moreover have "unat (size_read hs + of_nat (length c)) = length (concat cs) + length c"
    using assms(2) c s by (simp add: unat_add_no_overflow)
  then have "max_size hs < size_read hs + of_nat (length c) \<longleftrightarrow> unat n < length (concat cs) + length c"
    using assms(1) by (simp add: word_less_nat_alt hasher_saw_def)
  ultimately show ?thesis
    using hasher_saw_write [OF assms(1), of c "()"]
    by (auto simp: hasher_write_chunk_def)
qed

lemma mem_feed_hasher:
  assumes "hasher_saw sha n pre hs" "length (concat (pre @ cs)) < 2 ^ 64"
  shows "if length (concat (pre @ cs)) \<le> unat n
    then \<exists>hs'. mem_feed None m (hasher_sink sha) cs w hs = (Inr (), hs') \<and> hasher_saw sha n (pre @ cs) hs'
    else \<exists>e hs'. mem_feed None m (hasher_sink sha) cs w hs = (Inl e, hs')"
  using assms
proof (induction cs arbitrary: pre hs w)
  case Nil
  then have "length (concat pre) \<le> unat n"
    by (auto simp: hasher_saw_def word_le_nat_alt unat_of_nat_less)
  then show ?case using Nil by simp
next
  case (Cons c cs)
  show ?case
  proof (cases "length (concat pre) + length c \<le> unat n")
    case True
    then obtain hs' where "hasher_write_chunk sha c hs = (Inr (), hs')" "hasher_saw sha n (pre @ [c]) hs'"
      using hasher_write_chunk_bound [OF Cons.prems(1), of c] Cons.prems(2) by auto
    moreover from this(1) have "hasher_sink sha c hs = (Inr (), hs')" by (simp add: hasher_sink_def)
    ultimately show ?thesis
      using Cons.IH [of "pre @ [c]" hs' "w + of_nat (length c)"] Cons.prems(2)
      by (auto split: if_splits)
  next
    case False
    then show ?thesis
      using hasher_write_chunk_bound [OF Cons.prems(1), of c] Cons.prems(2)
      by (auto simp: hasher_sink_def)
  qed
qed

text \<open>
  Downloading a registered payload into the size-bounded hasher succeeds exactly when
  the payload has the declared size; the receipt then carries this size and the digest state of
  the payload's bytes, chunk by chunk and in order.
\<close>

theorem download_ok_iff_declared_size:
  assumes "dl_fail_with d = None" "truncate_after d = None" "payloads d url = Some b"
    "chunk_size d > 0" "length b < 2 ^ 64"
  shows "case mem_deliver d url n (hasher_sink sha) (hasher_new sha n) of
    (r, hs) \<Rightarrow> (r = Inr ()) = (length b = unat n)
      \<and> (r = Inr () \<longrightarrow> hasher_finalise sha hs =
           \<lparr>receipt_size_bytes = n,
            receipt_sha256 = sha_finalize sha (fold (sha_update sha) (chunks (chunk_size d) b) (sha_new sha))\<rparr>)"
proof -
  let ?m = "mem_feed None n (hasher_sink sha) (chunks (chunk_size d) b) 0 (hasher_new sha n)"
  have d: "mem_deliver d url n (hasher_sink sha) (hasher_new sha n) =
      (case ?m of (Inl e, k') \<Rightarrow> (Inl e, k')
       | (Inr _, k') \<Rightarrow> if of_nat (length b) < n then (Inl (Truncated n (of_nat (length b))), k') else (Inr (), k'))"
    using assms by (simp add: mem_deliver_def)
  have lt: "of_nat (length b) < n \<longleftrightarrow> length b < unat n"
    using assms(5) by (simp add: word_less_nat_alt unat_of_nat_less)
  have feed: "if length b \<le> unat n
      then \<exists>hs'. ?m = (Inr (), hs') \<and> hasher_saw sha n (chunks (chunk_size d) b) hs'
      else \<exists>e hs'. ?m = (Inl e, hs')"
    using mem_feed_hasher [OF hasher_saw_new [of sha n], of "chunks (chunk_size d) b" n 0] assms(4,5)
    by (simp split: if_splits)
  show ?thesis
  proof (cases "length b \<le> unat n")
    case True
    then obtain hs' where "?m = (Inr (), hs')" "hasher_saw sha n (chunks (chunk_size d) b) hs'"
      using feed by auto
    then show ?thesis
      using True assms(4) by (auto simp: d lt hasher_saw_def hasher_finalise_def)
  next
    case False
    then obtain e hs' where "?m = (Inl e, hs')" using feed by auto
    then show ?thesis using False by (simp add: d)
  qed
qed

text \<open>A digest for the examples: the bytes themselves.\<close>

definition identity_digest :: "bytes digest_ops" where
  "identity_digest =
     \<lparr>sha_new = [], sha_update = (\<lambda>c s. s @ c), sha_finalize = (\<lambda>s. s), hex_encode = (\<lambda>_. ''hex'')\<rparr>"

theorem download_ok_iff_declared_size_witness:
  "fst (mem_deliver (mem_dl_set_chunk_size 2 (mem_dl_register ''u'' [1, 2, 3] mem_downloader_new)) ''u'' 3
      (hasher_sink identity_digest) (hasher_new identity_digest 3)) = Inr ()
   \<and> fst (mem_deliver (mem_dl_set_chunk_size 2 (mem_dl_register ''u'' [1, 2, 3] mem_downloader_new)) ''u'' 4
      (hasher_sink identity_digest) (hasher_new identity_digest 4)) \<noteq> Inr ()"
proof -
  let ?d = "mem_dl_set_chunk_size 2 (mem_dl_register ''u'' [1, 2, 3] mem_downloader_new)"
  have d: "dl_fail_with ?d = None" "truncate_after ?d = None" "payloads ?d ''u'' = Some [1, 2, 3]"
    "chunk_size ?d > 0" "length [1, 2, 3 :: u8] < 2 ^ 64"
    by (simp_all add: mem_dl_set_chunk_size_def mem_dl_register_def mem_downloader_new_def)
  show ?thesis
    using download_ok_iff_declared_size [OF d, of 3 identity_digest]
      download_ok_iff_declared_size [OF d, of 4 identity_digest]
    by (auto simp: case_prod_beta)
qed

end
