(* ===== verification/Updater_Policy.thy ===== *)
theory Updater_Policy
  imports Updater_Download
begin

text \<open>
  The operator policy, the counters, the health check and the manifest source of \<open>sng-updater\<close>
  (\<open>policy.rs\<close>, \<open>stats.rs\<close>, \<open>healthcheck.rs\<close>, \<open>source.rs\<close>). A \<open>Duration\<close> and an \<open>Instant\<close> are
  natural numbers of nanoseconds.
\<close>

section \<open>Policy\<close>

definition max_image_bytes_hard_cap :: u64 where
  "max_image_bytes_hard_cap = 4 * 1024 * 1024 * 1024"

record updater_policy =
  max_image_bytes :: u64
  health_check_window :: nat
  health_check_timeout :: nat
  health_check_interval :: nat
  min_healthy_probes :: u32
  allow_reinstall_of_rolled_back_version :: bool
  post_commit_bookkeeping_max_attempts :: u32
  post_commit_bookkeeping_backoff :: nat

definition default_updater_policy :: updater_policy where
  "default_updater_policy =
     \<lparr>max_image_bytes = 1024 * 1024 * 1024, health_check_window = from_secs (5 * 60),
      health_check_timeout = from_secs 15, health_check_interval = from_secs 10,
      min_healthy_probes = 1, allow_reinstall_of_rolled_back_version = False,
      post_commit_bookkeeping_max_attempts = 3, post_commit_bookkeeping_backoff = from_millis 50\<rparr>"

datatype policy_validation_error =
    MaxImageBytesZero
  | MaxImageBytesExceedsHardCap u64 u64
  | HealthCheckWindowZero
  | HealthCheckTimeoutZero
  | HealthCheckIntervalZero
  | HealthCheckTimeoutExceedsWindow
  | HealthCheckIntervalExceedsWindow
  | MinHealthyProbesZero
  | PostCommitBookkeepingMaxAttemptsZero
  | PostCommitBookkeepingBackoffZero

definition validate_policy :: "updater_policy \<Rightarrow> policy_validation_error + unit" where
  "validate_policy p =
     (if max_image_bytes p = 0 then Inl MaxImageBytesZero
      else if max_image_bytes p > max_image_bytes_hard_cap
      then Inl (MaxImageBytesExceedsHardCap (max_image_bytes p) max_image_bytes_hard_cap)
      else if health_check_window p = 0 then Inl HealthCheckWindowZero
      else if health_check_timeout p = 0 then Inl HealthCheckTimeoutZero
      else if health_check_interval p = 0 then Inl HealthCheckIntervalZero
      else if health_check_timeout p > health_check_window p then Inl HealthCheckTimeoutExceedsWindow
      else if health_check_interval p > health_check_window p then Inl HealthCheckIntervalExceedsWindow
      else if min_healthy_probes p = 0 then Inl MinHealthyProbesZero
      else if post_commit_bookkeeping_max_attempts p = 0 then Inl PostCommitBookkeepingMaxAttemptsZero
      else if post_commit_bookkeeping_backoff p = 0 then Inl PostCommitBookkeepingBackoffZero
      else Inr ())"

lemma validate_policy_Inr:
  "validate_policy p = Inr () \<longleftrightarrow>
     max_image_bytes p \<noteq> 0 \<and> max_image_bytes p \<le> max_image_bytes_hard_cap
     \<and> 0 < health_check_timeout p \<and> health_check_timeout p \<le> health_check_window p
     \<and> 0 < health_check_interval p \<and> health_check_interval p \<le> health_check_window p
     \<and> min_healthy_probes p \<noteq> 0 \<and> post_commit_bookkeeping_max_attempts p \<noteq> 0
     \<and> 0 < post_commit_bookkeeping_backoff p"
  by (auto simp: validate_policy_def not_less split: if_splits)

section \<open>Counters\<close>

record updater_stats =
  manifest_polls :: u64
  manifest_source_errors :: u64
  manifest_signature_errors :: u64
  manifest_unknown_key_errors :: u64
  manifest_body_decode_errors :: u64
  manifest_target_mismatch_errors :: u64
  manifest_stale_errors :: u64
  manifest_admitted :: u64
  install_hash_mismatch :: u64
  install_truncated :: u64
  install_bank_errors :: u64
  install_bootloader_errors :: u64
  install_committed :: u64
  install_rolled_back :: u64
  install_concurrency_rejections :: u64
  health_check_probes :: u64
  health_check_timeouts :: u64
  health_check_probe_timeouts :: u64
  install_reinstall_of_rolled_back_rejections :: u64
  install_post_commit_layout_sync_retries :: u64
  install_post_commit_layout_sync_failures :: u64
  install_layout_diverged_rejections :: u64

definition stats_new :: updater_stats where
  "stats_new =
     \<lparr>manifest_polls = 0, manifest_source_errors = 0, manifest_signature_errors = 0,
      manifest_unknown_key_errors = 0, manifest_body_decode_errors = 0,
      manifest_target_mismatch_errors = 0, manifest_stale_errors = 0, manifest_admitted = 0,
      install_hash_mismatch = 0, install_truncated = 0, install_bank_errors = 0,
      install_bootloader_errors = 0, install_committed = 0, install_rolled_back = 0,
      install_concurrency_rejections = 0, health_check_probes = 0, health_check_timeouts = 0,
      health_check_probe_timeouts = 0, install_reinstall_of_rolled_back_rejections = 0,
      install_post_commit_layout_sync_retries = 0, install_post_commit_layout_sync_failures = 0,
      install_layout_diverged_rejections = 0\<rparr>"

definition install_outcome_total :: "updater_stats \<Rightarrow> u64" where
  "install_outcome_total s = saturating_add (install_committed s) (install_rolled_back s)"

section \<open>Health check and clock\<close>

datatype health_report = Healthy string | Unhealthy string

fun is_healthy :: "health_report \<Rightarrow> bool" where
  "is_healthy (Healthy _) = True"
| "is_healthy (Unhealthy _) = False"

fun report_details :: "health_report \<Rightarrow> string" where
  "report_details (Healthy d) = d"
| "report_details (Unhealthy d) = d"

text \<open>
  The probe under \<open>tokio::time::timeout\<close> gives no report when the timeout passes first. Time is
  read with \<open>hc_now\<close> (\<open>Instant::now\<close>) and passes while a probe runs and in \<open>hc_sleep\<close>.
\<close>

record 'w health_ops =
  hc_probe :: "nat \<Rightarrow> 'w \<Rightarrow> (updater_error + health_report) option \<times> 'w"
  hc_now :: "'w \<Rightarrow> nat"
  hc_sleep :: "nat \<Rightarrow> 'w \<Rightarrow> 'w"

text \<open>Instants never decrease, a sleep lasts at least as long as asked, and neither it nor a probe touches the host.\<close>

locale health_env =
  fixes hops :: "'w health_ops" and view :: "'w \<Rightarrow> host_view"
  assumes probe_law: "hc_probe hops t w = (r, w') \<Longrightarrow> view w' = view w \<and> hc_now hops w \<le> hc_now hops w'"
    and sleep_law: "view (hc_sleep hops d w) = view w \<and> hc_now hops w + d \<le> hc_now hops (hc_sleep hops d w)"

record static_health_check =
  hc_queue :: "health_report list"
  hc_default :: health_report
  hc_fail_with :: "string option"
  hc_delay :: nat
  hc_calls :: u64

definition static_health_new :: static_health_check where
  "static_health_new =
     \<lparr>hc_queue = [], hc_default = Unhealthy ''no probes configured'', hc_fail_with = None,
      hc_delay = 0, hc_calls = 0\<rparr>"

definition always_healthy :: "string \<Rightarrow> static_health_check" where
  "always_healthy d = static_health_new\<lparr>hc_default := Healthy d\<rparr>"

text \<open>A host with all in-memory adapters and a clock.\<close>

record mem_full_host = mem_net_host +
  host_health :: static_health_check
  host_clock :: nat

definition static_probe ::
  "nat \<Rightarrow> 'z mem_full_host_scheme \<Rightarrow> (updater_error + health_report) option \<times> 'z mem_full_host_scheme" where
  "static_probe limit w =
     (let hc = (host_health w)\<lparr>hc_calls := hc_calls (host_health w) + 1\<rparr> in
      case hc_fail_with hc of
        Some msg \<Rightarrow> (Some (Inl (HealthCheckFailed msg)), w\<lparr>host_health := hc\<rparr>)
      | None \<Rightarrow>
          if hc_delay hc > limit
          then (None, w\<lparr>host_health := hc, host_clock := host_clock w + limit\<rparr>)
          else
            (case hc_queue hc of
               r # rs \<Rightarrow>
                 (Some (Inr r), w\<lparr>host_health := hc\<lparr>hc_queue := rs\<rparr>, host_clock := host_clock w + hc_delay hc\<rparr>)
             | [] \<Rightarrow>
                 (Some (Inr (hc_default hc)), w\<lparr>host_health := hc, host_clock := host_clock w + hc_delay hc\<rparr>)))"

definition mem_health_ops :: "'z mem_full_host_scheme health_ops" where
  "mem_health_ops =
     \<lparr>hc_probe = static_probe, hc_now = host_clock,
      hc_sleep = (\<lambda>d w. w\<lparr>host_clock := host_clock w + d\<rparr>)\<rparr>"

interpretation mem_health: health_env mem_health_ops mem_view
  by unfold_locales
    (auto simp: mem_health_ops_def static_probe_def mem_view_def Let_def
      split: option.splits list.splits if_splits)

section \<open>Manifest source\<close>

datatype source_error = Source_Transport string | Source_Rejected string

definition map_source_error :: "source_error \<Rightarrow> updater_error" where
  "map_source_error e = (case e of Source_Transport m \<Rightarrow> DownloadFailure m | Source_Rejected m \<Rightarrow> DownloadFailure m)"

record static_source =
  src_queue :: "signed_manifest list"
  src_fail_with :: "string option"
  latest_calls :: u64
  next_after_calls :: u64

definition static_latest :: "static_source \<Rightarrow> (source_error + signed_manifest option) \<times> static_source" where
  "static_latest s0 =
     (let s = s0\<lparr>latest_calls := latest_calls s0 + 1\<rparr> in
      case src_fail_with s of
        Some msg \<Rightarrow> (Inl (Source_Transport msg), s)
      | None \<Rightarrow>
          (case src_queue s of [] \<Rightarrow> (Inr None, s) | e # es \<Rightarrow> (Inr (Some e), s\<lparr>src_queue := es\<rparr>)))"

definition static_next_after :: "static_source \<Rightarrow> (source_error + signed_manifest option) \<times> static_source" where
  "static_next_after s0 =
     (let s = s0\<lparr>next_after_calls := next_after_calls s0 + 1\<rparr> in
      case src_fail_with s of
        Some msg \<Rightarrow> (Inl (Source_Transport msg), s)
      | None \<Rightarrow>
          (case src_queue s of [] \<Rightarrow> (Inr None, s) | e # es \<Rightarrow> (Inr (Some e), s\<lparr>src_queue := es\<rparr>)))"

end
