(* ===== verification/Updater_Service.thy ===== *)
theory Updater_Service
  imports Updater_Policy
begin

text \<open>
  The orchestrator of \<open>sng-updater\<close> (\<open>service.rs\<close>): polling, verification, streaming into the
  inactive bank, the bootloader swap, the health-check loop, commit with its bookkeeping retries,
  and rollback. Operations are written in the state-and-result monad; the adapters act on the
  host, which is part of the state. The health-check loop is a partial function, so that not
  terminating would be the value \<^const>\<open>None\<close>.
\<close>

section \<open>State\<close>

datatype rollback_reason =
    Reason_Unhealthy string
  | Reason_Timeout
  | Reason_ProbeTimeout
  | Reason_Errored string

datatype install_outcome =
    NoManifestAvailable
  | Outcome_Committed image_version bank
  | Outcome_RolledBack image_version bank rollback_reason

datatype health_loop_outcome = Loop_Healthy | Loop_Unhealthy rollback_reason

record ('w, 'h, 'c, 'key) updater_env =
  env_latest :: "update_target \<Rightarrow> 'w \<Rightarrow> (source_error + signed_manifest option) \<times> 'w"
  env_bank :: "('w, 'h) bank_writer_ops"
  env_boot :: "'w bootloader_ops"
  env_download :: "string \<Rightarrow> u64 \<Rightarrow> ('c, 'h, 'w) tee_state chunk_sink \<Rightarrow> ('c, 'h, 'w) tee_state
     \<Rightarrow> (download_error + unit) \<times> ('c, 'h, 'w) tee_state"
  env_health :: "'w health_ops"
  env_sha :: "'c digest_ops"
  env_ed25519 :: "'key ed25519_ops"
  env_decode :: "bytes \<Rightarrow> string + update_manifest"

record ('w, 'key) updater_service =
  svc_target :: update_target
  svc_verifier :: "'key manifest_verifier"
  svc_policy :: updater_policy
  svc_stats :: updater_stats
  svc_state :: update_state
  install_locked :: bool
  current_version_override :: "image_version option"
  svc_ticks :: u64
  layout_diverged :: bool
  svc_host :: 'w

type_synonym ('w, 'key, 'a) svc_act = "(('w, 'key) updater_service, updater_error, 'a) act"

text \<open>A call of an adapter, and a counter that is bumped.\<close>

definition on_host :: "('w \<Rightarrow> (updater_error + 'a) \<times> 'w) \<Rightarrow> ('w, 'key, 'a) svc_act" where
  "on_host f = (\<lambda>s. case f (svc_host s) of (r, w) \<Rightarrow> Some (r, s\<lparr>svc_host := w\<rparr>))"

definition bump :: "(updater_stats \<Rightarrow> updater_stats) \<Rightarrow> ('w, 'key) updater_service \<Rightarrow> ('w, 'key) updater_service" where
  "bump f s = s\<lparr>svc_stats := f (svc_stats s)\<rparr>"

definition bump_bank_errors :: "('w, 'key) updater_service \<Rightarrow> ('w, 'key) updater_service" where
  "bump_bank_errors = bump (\<lambda>t. t\<lparr>install_bank_errors := install_bank_errors t + 1\<rparr>)"

definition bump_bootloader_errors :: "('w, 'key) updater_service \<Rightarrow> ('w, 'key) updater_service" where
  "bump_bootloader_errors = bump (\<lambda>t. t\<lparr>install_bootloader_errors := install_bootloader_errors t + 1\<rparr>)"

section \<open>Building and configuring\<close>

datatype service_build_error = MissingComponent string | PolicyInvalid policy_validation_error

record ('w, 'h, 'c, 'key) updater_service_builder =
  bld_target :: "update_target option"
  bld_source :: "(update_target \<Rightarrow> 'w \<Rightarrow> (source_error + signed_manifest option) \<times> 'w) option"
  bld_verifier :: "'key manifest_verifier option"
  bld_downloader :: "(string \<Rightarrow> u64 \<Rightarrow> ('c, 'h, 'w) tee_state chunk_sink \<Rightarrow> ('c, 'h, 'w) tee_state
     \<Rightarrow> (download_error + unit) \<times> ('c, 'h, 'w) tee_state) option"
  bld_bank_writer :: "('w, 'h) bank_writer_ops option"
  bld_bootloader :: "'w bootloader_ops option"
  bld_health_check :: "'w health_ops option"
  bld_policy :: "updater_policy option"
  bld_current_version_override :: "image_version option"

definition ok_or :: "'a option \<Rightarrow> 'e \<Rightarrow> 'e + 'a" where
  "ok_or x e = (case x of Some y \<Rightarrow> Inr y | None \<Rightarrow> Inl e)"

text \<open>The built service comes with its adapters; digest, signature scheme and decoder are those of the libraries.\<close>

definition build_service ::
  "'c digest_ops \<Rightarrow> 'key ed25519_ops \<Rightarrow> (bytes \<Rightarrow> string + update_manifest) \<Rightarrow> 'w
     \<Rightarrow> ('w, 'h, 'c, 'key) updater_service_builder
     \<Rightarrow> service_build_error + (('w, 'h, 'c, 'key) updater_env \<times> ('w, 'key) updater_service)" where
  "build_service sha ed dec w b =
     and_then (ok_or (bld_target b) (MissingComponent ''target'')) (\<lambda>target.
     and_then (ok_or (bld_source b) (MissingComponent ''source'')) (\<lambda>source.
     and_then (ok_or (bld_verifier b) (MissingComponent ''verifier'')) (\<lambda>verifier.
     and_then (ok_or (bld_downloader b) (MissingComponent ''downloader'')) (\<lambda>dl.
     and_then (ok_or (bld_bank_writer b) (MissingComponent ''bank_writer'')) (\<lambda>bank.
     and_then (ok_or (bld_bootloader b) (MissingComponent ''bootloader'')) (\<lambda>boot.
     and_then (ok_or (bld_health_check b) (MissingComponent ''health_check'')) (\<lambda>health.
     let policy = unwrap_or (bld_policy b) default_updater_policy in
     and_then (map_err PolicyInvalid (validate_policy policy)) (\<lambda>_.
       Inr (\<lparr>env_latest = source, env_bank = bank, env_boot = boot, env_download = dl,
             env_health = health, env_sha = sha, env_ed25519 = ed, env_decode = dec\<rparr>,
            \<lparr>svc_target = target, svc_verifier = verifier, svc_policy = policy, svc_stats = stats_new,
             svc_state = Idle, install_locked = False,
             current_version_override = bld_current_version_override b,
             svc_ticks = 0, layout_diverged = False, svc_host = w\<rparr>)))))))))"

definition reload_policy ::
  "updater_policy \<Rightarrow> ('w, 'key) updater_service
     \<Rightarrow> (policy_validation_error + updater_policy) \<times> ('w, 'key) updater_service" where
  "reload_policy policy s =
     (case validate_policy policy of
        Inl e \<Rightarrow> (Inl e, s)
      | Inr _ \<Rightarrow> (Inr policy, s\<lparr>svc_policy := policy\<rparr>))"

definition set_current_version_override ::
  "image_version option \<Rightarrow> ('w, 'key) updater_service \<Rightarrow> ('w, 'key) updater_service" where
  "set_current_version_override v s = s\<lparr>current_version_override := v\<rparr>"

definition clear_layout_divergence :: "('w, 'key) updater_service \<Rightarrow> ('w, 'key) updater_service" where
  "clear_layout_divergence s = s\<lparr>layout_diverged := False\<rparr>"

definition derive_current_version :: "('w, 'key) updater_service \<Rightarrow> bank_layout \<Rightarrow> image_version option" where
  "derive_current_version s layout =
     (case current_version_override s of Some v \<Rightarrow> Some v | None \<Rightarrow> active_version layout)"

section \<open>State-machine steps\<close>

definition transition :: "update_state \<Rightarrow> update_state \<Rightarrow> ('w, 'key, update_state) svc_act" where
  "transition f t = (\<lambda>s.
     if svc_state s \<noteq> f then Some (Inl (StateTransition (StateTransitionError (svc_state s) t)), s)
     else
       (case transition_to f t of
          Inl e \<Rightarrow> Some (Inl (StateTransition e), s)
        | Inr nxt \<Rightarrow> Some (Inr nxt, s\<lparr>svc_state := nxt, svc_ticks := svc_ticks s + 1\<rparr>)))"

definition force_reset_to_idle :: "('w, 'key) updater_service \<Rightarrow> ('w, 'key) updater_service" where
  "force_reset_to_idle s =
     (if svc_state s = Idle then s else s\<lparr>svc_state := Idle, svc_ticks := svc_ticks s + 1\<rparr>)"

definition bump_verifier_error :: "updater_error \<Rightarrow> updater_stats \<Rightarrow> updater_stats" where
  "bump_verifier_error e t =
     (case e of
        BodyDecode _ \<Rightarrow> t\<lparr>manifest_body_decode_errors := manifest_body_decode_errors t + 1\<rparr>
      | Upd_SignatureInvalid \<Rightarrow> t\<lparr>manifest_signature_errors := manifest_signature_errors t + 1\<rparr>
      | Upd_EphemeralSigningKey \<Rightarrow> t\<lparr>manifest_signature_errors := manifest_signature_errors t + 1\<rparr>
      | Upd_UnknownSigningKey _ \<Rightarrow> t\<lparr>manifest_unknown_key_errors := manifest_unknown_key_errors t + 1\<rparr>
      | Upd_TargetMismatch _ _ \<Rightarrow>
          t\<lparr>manifest_target_mismatch_errors := manifest_target_mismatch_errors t + 1\<rparr>
      | ManifestStale _ _ \<Rightarrow> t\<lparr>manifest_stale_errors := manifest_stale_errors t + 1\<rparr>
      | _ \<Rightarrow> t)"

definition enforce_no_reinstall_of_rolled_back ::
  "bank_layout \<Rightarrow> bank \<Rightarrow> update_manifest \<Rightarrow> updater_policy \<Rightarrow> ('w, 'key, unit) svc_act" where
  "enforce_no_reinstall_of_rolled_back layout slot m policy =
     (if allow_reinstall_of_rolled_back_version policy then ret ()
      else
        (case slot_state layout slot of
           Slot_RolledBack v \<Rightarrow>
             if v = manifest_version m
             then bnd (modify (bump (\<lambda>t. t\<lparr>install_reinstall_of_rolled_back_rejections :=
                        install_reinstall_of_rolled_back_rejections t + 1\<rparr>)))
                    (\<lambda>_. raise (ReinstallOfRolledBackVersion (manifest_version m) slot))
             else ret ()
         | _ \<Rightarrow> ret ()))"

section \<open>Streaming\<close>

definition map_download_error :: "download_error \<Rightarrow> updater_error" where
  "map_download_error e =
     (case e of
        Truncated expected read \<Rightarrow> ImageTruncated expected read
      | SizeExceeded claimed attempted \<Rightarrow> ImageSizeExceeded claimed attempted
      | Dl_BankWrite msg \<Rightarrow> BankWrite msg
      | other \<Rightarrow> DownloadFailure (download_error_display other))"

definition bump_download_error :: "download_error \<Rightarrow> updater_stats \<Rightarrow> updater_stats" where
  "bump_download_error e t =
     (case e of
        Truncated _ _ \<Rightarrow> t\<lparr>install_truncated := install_truncated t + 1\<rparr>
      | Dl_BankWrite _ \<Rightarrow> t\<lparr>install_bank_errors := install_bank_errors t + 1\<rparr>
      | _ \<Rightarrow> t)"

text \<open>The hasher and the handle are borrowed mutably: their new states come back on every path.\<close>

definition stream_into_bank ::
  "('w, 'h, 'c, 'key) updater_env \<Rightarrow> 'h \<Rightarrow> 'c streaming_hasher \<Rightarrow> update_manifest
     \<Rightarrow> ('w, 'key, (updater_error + unit) \<times> 'c streaming_hasher \<times> 'h) svc_act" where
  "stream_into_bank env h hs m = (\<lambda>s.
     case env_download env (image_url m) (image_size_bytes m)
            (tee_write_chunk (env_sha env) (env_bank env)) ((hs, h), svc_host s) of
       (r, ((hs', h'), w')) \<Rightarrow>
         (case r of
            Inr _ \<Rightarrow> Some (Inr (Inr (), hs', h'), s\<lparr>svc_host := w'\<rparr>)
          | Inl e \<Rightarrow> Some (Inr (Inl (map_download_error e), hs', h'),
                           bump (bump_download_error e) (s\<lparr>svc_host := w'\<rparr>))))"

section \<open>Bookkeeping after the commit\<close>

definition try_post_commit_bookkeeping ::
  "('w, 'h, 'c, 'key) updater_env \<Rightarrow> bank \<Rightarrow> image_version \<Rightarrow> ('w, 'key, unit) svc_act" where
  "try_post_commit_bookkeeping env slot v =
     bnd (on_host (bw_mark_committed (env_bank env) slot v)) (\<lambda>_.
     bnd (on_host (bw_set_active (env_bank env) slot)) (\<lambda>_. ret ()))"

text \<open>
  The retry loop: \<open>n\<close> attempts are left. It gives \<^const>\<open>None\<close> as soon as an attempt succeeds and
  the last error when all have failed. It sleeps between attempts only.
\<close>

fun bookkeeping_attempts ::
  "('w, 'h, 'c, 'key) updater_env \<Rightarrow> bank \<Rightarrow> image_version \<Rightarrow> nat \<Rightarrow> nat \<Rightarrow> updater_error option
     \<Rightarrow> ('w, 'key, updater_error option option) svc_act" where
  "bookkeeping_attempts env slot v 0 backoff prev = ret (Some prev)"
| "bookkeeping_attempts env slot v (Suc n) backoff prev =
     attempt (try_post_commit_bookkeeping env slot v) (\<lambda>r.
       case r of
         Inr _ \<Rightarrow> ret None
       | Inl e \<Rightarrow>
           bnd (modify (bump (\<lambda>t. t\<lparr>install_post_commit_layout_sync_retries :=
                  install_post_commit_layout_sync_retries t + 1\<rparr>))) (\<lambda>_.
           if n > 0
           then bnd (modify (\<lambda>s. s\<lparr>svc_host := hc_sleep (env_health env) backoff (svc_host s)\<rparr>)) (\<lambda>_.
                  bookkeeping_attempts env slot v n (duration_saturating_mul backoff 2) (Some e))
           else bookkeeping_attempts env slot v n backoff (Some e)))"

definition run_post_commit_bookkeeping ::
  "('w, 'h, 'c, 'key) updater_env \<Rightarrow> bank \<Rightarrow> image_version \<Rightarrow> ('w, 'key, unit) svc_act" where
  "run_post_commit_bookkeeping env slot v =
     bnd (gets svc_policy) (\<lambda>policy.
     bnd (bookkeeping_attempts env slot v (unat (post_commit_bookkeeping_max_attempts policy))
            (post_commit_bookkeeping_backoff policy) None) (\<lambda>r.
       case r of
         None \<Rightarrow> ret ()
       | Some prev \<Rightarrow>
           bnd (modify (bump (\<lambda>t. t\<lparr>install_post_commit_layout_sync_failures :=
                  install_post_commit_layout_sync_failures t + 1\<rparr>))) (\<lambda>_.
           bnd (modify (\<lambda>s. s\<lparr>layout_diverged := True\<rparr>)) (\<lambda>_.
           raise (PostCommitLayoutSync slot v (post_commit_bookkeeping_max_attempts policy)
             (case prev of None \<Rightarrow> ''no error recorded'' | Some e \<Rightarrow> updater_error_display e))))))"

section \<open>The health-check loop\<close>

partial_function (option) health_loop ::
  "('w, 'h, 'c, 'key) updater_env \<Rightarrow> updater_policy \<Rightarrow> nat \<Rightarrow> u32 \<Rightarrow> ('w, 'key) updater_service
     \<Rightarrow> (health_loop_outcome \<times> ('w, 'key) updater_service) option" where
  "health_loop env policy deadline consecutive s =
     (if hc_now (env_health env) (svc_host s) \<ge> deadline
      then Some (Loop_Unhealthy Reason_Timeout,
             bump (\<lambda>t. t\<lparr>health_check_timeouts := health_check_timeouts t + 1\<rparr>) s)
      else
        let s1 = bump (\<lambda>t. t\<lparr>health_check_probes := health_check_probes t + 1\<rparr>) s in
        (case hc_probe (env_health env) (health_check_timeout policy) (svc_host s1) of
           (r, w) \<Rightarrow>
             let s2 = s1\<lparr>svc_host := w\<rparr> in
             (case r of
                Some (Inr (Healthy d)) \<Rightarrow>
                  let n = saturating_add consecutive 1 in
                  if n \<ge> min_healthy_probes policy then Some (Loop_Healthy, s2)
                  else health_loop env policy deadline n
                    (s2\<lparr>svc_host := hc_sleep (env_health env) (health_check_interval policy) (svc_host s2)\<rparr>)
              | Some (Inr (Unhealthy d)) \<Rightarrow> Some (Loop_Unhealthy (Reason_Unhealthy d), s2)
              | Some (Inl e) \<Rightarrow> Some (Loop_Unhealthy (Reason_Errored (updater_error_display e)), s2)
              | None \<Rightarrow>
                  Some (Loop_Unhealthy Reason_ProbeTimeout,
                    bump (\<lambda>t. t\<lparr>health_check_probe_timeouts := health_check_probe_timeouts t + 1\<rparr>) s2))))"

declare health_loop.simps [code]

definition run_health_check_loop ::
  "('w, 'h, 'c, 'key) updater_env \<Rightarrow> ('w, 'key, health_loop_outcome) svc_act" where
  "run_health_check_loop env = (\<lambda>s.
     map_option (\<lambda>(r, s'). (Inr r, s'))
       (health_loop env (svc_policy s)
         (hc_now (env_health env) (svc_host s) + health_check_window (svc_policy s)) 0 s))"

section \<open>One install\<close>

text \<open>
  \<open>run_install\<close> in its parts: download, verify and stage the image; swap and probe; commit; roll
  back.
\<close>

definition verify_and_finish ::
  "('w, 'h, 'c, 'key) updater_env \<Rightarrow> update_manifest \<Rightarrow> 'c streaming_hasher \<Rightarrow> 'h \<Rightarrow> ('w, 'key, unit) svc_act" where
  "verify_and_finish env m hs h =
     bnd (transition Downloading Verifying) (\<lambda>_.
     let receipt = hasher_finalise (env_sha env) hs in
     if receipt_sha256 receipt \<noteq> image_sha256 m
     then
       bnd (modify (bump (\<lambda>t. t\<lparr>install_hash_mismatch := install_hash_mismatch t + 1\<rparr>))) (\<lambda>_.
       attempt (on_host (bw_abandon (env_bank env) h)) (\<lambda>_.
       raise (ImageHashMismatch (hex_encode (env_sha env) (image_sha256 m))
         (hex_encode (env_sha env) (receipt_sha256 receipt)))))
     else if receipt_size_bytes receipt \<noteq> image_size_bytes m
     then
       attempt (on_host (bw_abandon (env_bank env) h)) (\<lambda>_.
       raise (ImageTruncated (image_size_bytes m) (receipt_size_bytes receipt)))
     else
       bnd (transition Verifying Installing) (\<lambda>_.
       bnd (inspect_err bump_bank_errors (on_host (bw_finish (env_bank env) h (manifest_version m))))
         (\<lambda>_. ret ())))"

definition stage_image ::
  "('w, 'h, 'c, 'key) updater_env \<Rightarrow> update_manifest \<Rightarrow> bank \<Rightarrow> ('w, 'key, unit) svc_act" where
  "stage_image env m slot =
     bnd (inspect_err bump_bank_errors (on_host (bw_open_for_write (env_bank env) slot))) (\<lambda>h0.
     bnd (stream_into_bank env h0 (hasher_new (env_sha env) (image_size_bytes m)) m) (\<lambda>(r, hs, h).
     case r of
       Inl e \<Rightarrow> attempt (on_host (bw_abandon (env_bank env) h)) (\<lambda>_. raise e)
     | Inr _ \<Rightarrow> verify_and_finish env m hs h))"

definition swap_and_probe ::
  "('w, 'h, 'c, 'key) updater_env \<Rightarrow> bank \<Rightarrow> ('w, 'key, health_loop_outcome) svc_act" where
  "swap_and_probe env slot =
     bnd (transition Installing Rebooting) (\<lambda>_.
     bnd (inspect_err bump_bootloader_errors (on_host (bl_swap_to (env_boot env) slot))) (\<lambda>_.
     bnd (transition Rebooting HealthChecking) (\<lambda>_.
     run_health_check_loop env)))"

definition commit_install ::
  "('w, 'h, 'c, 'key) updater_env \<Rightarrow> update_manifest \<Rightarrow> bank \<Rightarrow> ('w, 'key, install_outcome) svc_act" where
  "commit_install env m slot =
     bnd (inspect_err bump_bootloader_errors (on_host (bl_commit (env_boot env)))) (\<lambda>_.
     bnd (run_post_commit_bookkeeping env slot (manifest_version m)) (\<lambda>_.
     bnd (modify (bump (\<lambda>t. t\<lparr>install_committed := install_committed t + 1\<rparr>))) (\<lambda>_.
     bnd (transition HealthChecking Committed) (\<lambda>_.
     bnd (transition Committed Idle) (\<lambda>_.
     ret (Outcome_Committed (manifest_version m) slot))))))"

definition rollback_install ::
  "('w, 'h, 'c, 'key) updater_env \<Rightarrow> update_manifest \<Rightarrow> bank \<Rightarrow> rollback_reason
     \<Rightarrow> ('w, 'key, install_outcome) svc_act" where
  "rollback_install env m slot reason =
     bnd (inspect_err bump_bootloader_errors (on_host (bl_rollback (env_boot env)))) (\<lambda>_.
     bnd (inspect_err bump_bank_errors (on_host (bw_mark_rolled_back (env_bank env) slot (manifest_version m)))) (\<lambda>_.
     bnd (modify (bump (\<lambda>t. t\<lparr>install_rolled_back := install_rolled_back t + 1\<rparr>))) (\<lambda>_.
     bnd (transition HealthChecking RolledBack) (\<lambda>_.
     bnd (transition RolledBack Idle) (\<lambda>_.
     ret (Outcome_RolledBack (manifest_version m) slot reason))))))"

definition run_install ::
  "('w, 'h, 'c, 'key) updater_env \<Rightarrow> update_manifest \<Rightarrow> bank \<Rightarrow> ('w, 'key, install_outcome) svc_act" where
  "run_install env m slot =
     bnd (stage_image env m slot) (\<lambda>_.
     bnd (swap_and_probe env slot) (\<lambda>r.
     case r of
       Loop_Healthy \<Rightarrow> commit_install env m slot
     | Loop_Unhealthy reason \<Rightarrow> rollback_install env m slot reason))"

text \<open>
  What \<open>install_from_envelope\<close> does while it holds the install lock: after the manifest is
  verified, and from the start.
\<close>

definition install_verified ::
  "('w, 'h, 'c, 'key) updater_env \<Rightarrow> bank_layout \<Rightarrow> update_manifest \<Rightarrow> ('w, 'key, install_outcome) svc_act" where
  "install_verified env layout m =
     bnd (modify (bump (\<lambda>t. t\<lparr>manifest_admitted := manifest_admitted t + 1\<rparr>))) (\<lambda>_.
     bnd (gets svc_policy) (\<lambda>policy.
     if image_size_bytes m > max_image_bytes policy
     then raise (ManifestSizeExceedsPolicy (image_size_bytes m) (max_image_bytes policy))
     else
       let slot = inactive layout in
       bnd (enforce_no_reinstall_of_rolled_back layout slot m policy) (\<lambda>_.
       bnd (transition Idle Downloading) (\<lambda>_.
       inspect_err force_reset_to_idle (run_install env m slot)))))"

definition admit_and_install ::
  "('w, 'h, 'c, 'key) updater_env \<Rightarrow> signed_manifest \<Rightarrow> ('w, 'key, install_outcome) svc_act" where
  "admit_and_install env envelope =
     bnd (inspect_err bump_bank_errors (on_host (bw_layout (env_bank env)))) (\<lambda>layout.
     bnd (gets (\<lambda>s. mv_verify (env_ed25519 env) (env_decode env) (svc_verifier s) envelope
            (derive_current_version s layout))) (\<lambda>r.
     case r of
       Inl e \<Rightarrow> bnd (modify (bump (bump_verifier_error e))) (\<lambda>_. raise e)
     | Inr m \<Rightarrow> install_verified env layout m))"

definition take_install_lock :: "('w, 'key, unit) svc_act" where
  "take_install_lock = (\<lambda>s.
     if install_locked s
     then Some (Inl InstallBusy,
            bump (\<lambda>t. t\<lparr>install_concurrency_rejections := install_concurrency_rejections t + 1\<rparr>) s)
     else Some (Inr (), s\<lparr>install_locked := True\<rparr>))"

definition refuse_if_diverged :: "('w, 'key, unit) svc_act" where
  "refuse_if_diverged = (\<lambda>s.
     if layout_diverged s
     then Some (Inl LayoutDiverged,
            bump (\<lambda>t. t\<lparr>install_layout_diverged_rejections := install_layout_diverged_rejections t + 1\<rparr>) s)
     else Some (Inr (), s))"

text \<open>The lock guard is dropped on every path out of the function.\<close>

definition with_lock_released :: "('w, 'key, 'a) svc_act \<Rightarrow> ('w, 'key, 'a) svc_act" where
  "with_lock_released m = (\<lambda>s. map_option (\<lambda>(r, s'). (r, s'\<lparr>install_locked := False\<rparr>)) (m s))"

definition install_from_envelope ::
  "('w, 'h, 'c, 'key) updater_env \<Rightarrow> signed_manifest \<Rightarrow> ('w, 'key, install_outcome) svc_act" where
  "install_from_envelope env envelope =
     bnd refuse_if_diverged (\<lambda>_.
     bnd take_install_lock (\<lambda>_.
     with_lock_released (admit_and_install env envelope)))"

definition poll_and_install ::
  "('w, 'h, 'c, 'key) updater_env \<Rightarrow> ('w, 'key, install_outcome) svc_act" where
  "poll_and_install env =
     bnd (modify (bump (\<lambda>t. t\<lparr>manifest_polls := manifest_polls t + 1\<rparr>))) (\<lambda>_.
     bnd (gets svc_target) (\<lambda>target. (\<lambda>s.
       case env_latest env target (svc_host s) of
         (Inr (Some envelope), w) \<Rightarrow> install_from_envelope env envelope (s\<lparr>svc_host := w\<rparr>)
       | (Inr None, w) \<Rightarrow> Some (Inr NoManifestAvailable, s\<lparr>svc_host := w\<rparr>)
       | (Inl e, w) \<Rightarrow>
           Some (Inl (map_source_error e),
             bump (\<lambda>t. t\<lparr>manifest_source_errors := manifest_source_errors t + 1\<rparr>) (s\<lparr>svc_host := w\<rparr>)))))"

end
