(* ===== verification/Updater_Contract.thy ===== *)
theory Updater_Contract
  imports Updater_Service
begin

text \<open>
  What an install guarantees, whatever adapters the service is wired with, as long as they keep
  their contracts. The contracts of bank writer, bootloader, downloader, health check and manifest
  source are one locale; the operations of the service are verified in it by triples, and the
  in-memory adapters of the source interpret it.
\<close>

section \<open>The contracts the service relies on\<close>

locale update_host =
  bank_writer "env_bank env" view slot_of buffer_of
  + bootloader "env_boot env" view
  + downloader "env_download env" view
  + health_env "env_health env" view
  for env :: "('w, 'h, 'c, 'key) updater_env"
    and view :: "'w \<Rightarrow> host_view"
    and slot_of :: "'h \<Rightarrow> bank"
    and buffer_of :: "'h \<Rightarrow> bytes"
  + fixes sha256 :: "bytes \<Rightarrow> bytes"
  assumes digest_law: "\<And>cs. sha_finalize (env_sha env) (fold (sha_update (env_sha env)) cs (sha_new (env_sha env)))
      = sha256 (concat cs)"
    and source_law: "\<And>t w r w'. env_latest env t w = (r, w') \<Longrightarrow> view w' = view w"

text \<open>The static source of \<open>source.rs\<close> joins the in-memory host.\<close>

record mem_source_host = mem_full_host +
  host_source :: static_source

definition mem_latest ::
  "update_target \<Rightarrow> mem_source_host \<Rightarrow> (source_error + signed_manifest option) \<times> mem_source_host" where
  "mem_latest t w = (case static_latest (host_source w) of (r, x) \<Rightarrow> (r, w\<lparr>host_source := x\<rparr>))"

definition mem_env ::
  "'c digest_ops \<Rightarrow> 'key ed25519_ops \<Rightarrow> (bytes \<Rightarrow> string + update_manifest)
     \<Rightarrow> (mem_source_host, mem_handle, 'c, 'key) updater_env" where
  "mem_env sha ed dec =
     \<lparr>env_latest = mem_latest, env_bank = mem_bank_ops, env_boot = mem_boot_ops,
      env_download = mem_download, env_health = mem_health_ops, env_sha = sha,
      env_ed25519 = ed, env_decode = dec\<rparr>"

lemma mem_env_simps [simp]:
  "env_latest (mem_env sha ed dec) = mem_latest"
  "env_bank (mem_env sha ed dec) = mem_bank_ops"
  "env_boot (mem_env sha ed dec) = mem_boot_ops"
  "env_download (mem_env sha ed dec) = mem_download"
  "env_health (mem_env sha ed dec) = mem_health_ops"
  "env_sha (mem_env sha ed dec) = sha"
  "env_ed25519 (mem_env sha ed dec) = ed"
  "env_decode (mem_env sha ed dec) = dec"
  by (simp_all add: mem_env_def)

lemma identity_digest_fold: "fold (sha_update identity_digest) cs acc = acc @ concat cs"
  by (induction cs arbitrary: acc) (simp_all add: identity_digest_def)

interpretation mem_update: update_host "mem_env identity_digest ed dec" mem_view handle_slot handle_buffer id
proof (rule update_host.intro)
  show "update_host_axioms (mem_env identity_digest ed dec) mem_view id"
    by unfold_locales
      (auto simp: mem_latest_def mem_view_def identity_digest_fold, auto simp: identity_digest_def split: prod.splits)
qed (simp_all add: mem_bank.bank_writer_axioms mem_boot.bootloader_axioms mem_dl.downloader_axioms
    mem_health.health_env_axioms)

section \<open>Reasoning about the service\<close>

text \<open>
  The configuration is that of \<open>s0\<close>, the machine is in state \<open>st\<close>, the divergence flag is \<open>d\<close>, and
  the host satisfies \<open>R\<close>.
\<close>

definition same_config :: "('w, 'key) updater_service \<Rightarrow> ('w, 'key) updater_service \<Rightarrow> bool" where
  "same_config s0 s \<longleftrightarrow> svc_target s = svc_target s0 \<and> svc_verifier s = svc_verifier s0
     \<and> svc_policy s = svc_policy s0 \<and> install_locked s = install_locked s0
     \<and> current_version_override s = current_version_override s0"

lemma same_config_refl [simp]: "same_config s s"
  by (simp add: same_config_def)

lemma same_config_updates [simp]:
  "same_config s0 (bump f s) = same_config s0 s"
  "same_config s0 (s\<lparr>svc_host := w\<rparr>) = same_config s0 s"
  "same_config s0 (s\<lparr>svc_state := st, svc_ticks := n\<rparr>) = same_config s0 s"
  "same_config s0 (s\<lparr>layout_diverged := d\<rparr>) = same_config s0 s"
  by (simp_all add: same_config_def bump_def)

lemma bump_simps [simp]:
  "svc_state (bump f s) = svc_state s" "layout_diverged (bump f s) = layout_diverged s"
  "svc_host (bump f s) = svc_host s" "svc_policy (bump f s) = svc_policy s"
  "install_locked (bump f s) = install_locked s"
  by (simp_all add: bump_def)

lemma bump_errors_simps [simp]:
  "bump_bank_errors s = bump (\<lambda>t. t\<lparr>install_bank_errors := install_bank_errors t + 1\<rparr>) s"
  "bump_bootloader_errors s = bump (\<lambda>t. t\<lparr>install_bootloader_errors := install_bootloader_errors t + 1\<rparr>) s"
  by (simp_all add: bump_bank_errors_def bump_bootloader_errors_def)

text \<open>What an install leaves behind on the host, by how it ends.\<close>

definition others_kept :: "bank \<Rightarrow> host_view \<Rightarrow> host_view \<Rightarrow> bool" where
  "others_kept slot v0 v \<longleftrightarrow>
     (\<forall>c. c \<noteq> slot \<longrightarrow> slot_state (hv_layout v) c = slot_state (hv_layout v0) c \<and> hv_bytes v c = hv_bytes v0 c)"

definition committed_effect ::
  "(bytes \<Rightarrow> bytes) \<Rightarrow> update_manifest \<Rightarrow> bank \<Rightarrow> host_view \<Rightarrow> host_view \<Rightarrow> bool" where
  "committed_effect sha256 m slot v0 v \<longleftrightarrow> others_kept slot v0 v
     \<and> hv_boot v = Boot_Committed slot \<and> active (hv_layout v) = slot
     \<and> slot_state (hv_layout v) slot = Slot_Committed (manifest_version m)
     \<and> sha256 (hv_bytes v slot) = image_sha256 m \<and> of_nat (length (hv_bytes v slot)) = image_size_bytes m"

definition rolled_back_effect :: "update_manifest \<Rightarrow> bank \<Rightarrow> host_view \<Rightarrow> host_view \<Rightarrow> bool" where
  "rolled_back_effect m slot v0 v \<longleftrightarrow> others_kept slot v0 v
     \<and> hv_boot v = hv_boot v0 \<and> active (hv_layout v) = active (hv_layout v0)
     \<and> slot_state (hv_layout v) slot = Slot_RolledBack (manifest_version m)"

text \<open>
  A failed install: nothing but the target slot changed; or the bootloader was left with the swap
  pending; or it is committed to the new slot and the divergence flag \<open>d\<close> is up.
\<close>

definition failed_effect :: "bank \<Rightarrow> host_view \<Rightarrow> bool \<Rightarrow> host_view \<Rightarrow> bool" where
  "failed_effect slot v0 d v \<longleftrightarrow> others_kept slot v0 v
     \<and> (if d then hv_boot v = Boot_Committed slot
        else active (hv_layout v) = active (hv_layout v0)
          \<and> (hv_boot v = hv_boot v0 \<or> (\<exists>prev. hv_boot v0 = Boot_Committed prev \<and> hv_boot v = Boot_Pending slot prev)))"

lemma touches_failed: "touches_slot slot v0 v \<Longrightarrow> failed_effect slot v0 False v"
  by (auto simp: touches_slot_def failed_effect_def others_kept_def)

text \<open>When an envelope is admitted, given the layout \<open>l\<close> on record.\<close>

definition admitted ::
  "('w, 'h, 'c, 'key) updater_env \<Rightarrow> ('w, 'key) updater_service \<Rightarrow> bank_layout \<Rightarrow> signed_manifest
     \<Rightarrow> update_manifest \<Rightarrow> bool" where
  "admitted env s l envelope m \<longleftrightarrow>
     mv_verify (env_ed25519 env) (env_decode env) (svc_verifier s) envelope (derive_current_version s l) = Inr m
     \<and> image_size_bytes m \<le> max_image_bytes (svc_policy s)
     \<and> (slot_state l (inactive l) = Slot_RolledBack (manifest_version m)
          \<longrightarrow> allow_reinstall_of_rolled_back_version (svc_policy s))"

context update_host
begin

definition svc_at ::
  "('w, 'key) updater_service \<Rightarrow> update_state \<Rightarrow> bool \<Rightarrow> (host_view \<Rightarrow> bool) \<Rightarrow> ('w, 'key) updater_service \<Rightarrow> bool" where
  "svc_at s0 st d R s \<longleftrightarrow>
     same_config s0 s \<and> svc_state s = st \<and> layout_diverged s = d \<and> R (view (svc_host s))"

definition svc_failed ::
  "('w, 'key) updater_service \<Rightarrow> (bool \<Rightarrow> host_view \<Rightarrow> bool) \<Rightarrow> ('w, 'key) updater_service \<Rightarrow> bool" where
  "svc_failed s0 R s \<longleftrightarrow> same_config s0 s \<and> R (layout_diverged s) (view (svc_host s))"

lemma svc_at_bump [simp]:
  "svc_at s0 st d R (bump f s) = svc_at s0 st d R s"
  "svc_failed s0 F (bump f s) = svc_failed s0 F s"
  by (simp_all add: svc_at_def svc_failed_def)

lemma svc_at_failed: "svc_at s0 st d R s \<Longrightarrow> (\<And>v. R v \<Longrightarrow> F d v) \<Longrightarrow> svc_failed s0 F s"
  by (simp add: svc_at_def svc_failed_def)

lemma triple_transition:
  assumes "can_transition_to f t"
  shows "triple (svc_at s0 f d R) (transition f t) (\<lambda>_. svc_at s0 t d R) E"
  using assms by (auto simp: triple_def transition_def transition_to_def svc_at_def)

lemma triple_on_host_at:
  assumes "\<And>w r w'. R (view w) \<Longrightarrow> op w = (r, w') \<Longrightarrow>
      (case r of Inr x \<Rightarrow> R' x (view w') | Inl _ \<Rightarrow> F (view w'))"
  shows "triple (svc_at s0 st d R) (on_host op) (\<lambda>x. svc_at s0 st d (R' x)) (\<lambda>_. svc_at s0 st d F)"
proof (rule tripleI)
  fix s assume s: "svc_at s0 st d R s"
  obtain r w' where r: "op (svc_host s) = (r, w')" by (cases "op (svc_host s)")
  then show "outcome (\<lambda>x. svc_at s0 st d (R' x)) (\<lambda>_. svc_at s0 st d F) (on_host op s)"
    using assms [of "svc_host s" r w'] s by (cases r) (auto simp: on_host_def svc_at_def)
qed

lemma triple_on_host:
  assumes "\<And>w r w'. R (view w) \<Longrightarrow> op w = (r, w') \<Longrightarrow>
      (case r of Inr x \<Rightarrow> R' x (view w') | Inl _ \<Rightarrow> F d (view w'))"
  shows "triple (svc_at s0 st d R) (on_host op) (\<lambda>x. svc_at s0 st d (R' x)) (\<lambda>_. svc_failed s0 F)"
  by (rule triple_conseq [OF triple_on_host_at [where F = "F d", OF assms]]) (auto intro: svc_at_failed)

lemma triple_bump: "triple (svc_at s0 st d R) (modify (bump f)) (\<lambda>_. svc_at s0 st d R) E"
  by (simp add: triple_def modify_def)

lemma triple_abandon_raise:
  assumes "\<And>v. R v \<Longrightarrow> F d v"
  shows "triple (svc_at s0 st d R) (attempt (on_host (bw_abandon (env_bank env) h)) (\<lambda>_. raise e)) Q
    (\<lambda>_. svc_failed s0 F)"
proof (rule triple_attempt)
  show "triple (svc_at s0 st d R) (on_host (bw_abandon (env_bank env) h))
      (\<lambda>_. svc_at s0 st d R) (\<lambda>_. svc_failed s0 F)"
    by (rule triple_on_host) (use assms in \<open>auto dest: abandon_law split: sum.split\<close>)
qed (auto intro!: triple_raise intro: svc_at_failed assms)

subsection \<open>Staging\<close>

definition is_image :: "update_manifest \<Rightarrow> bytes \<Rightarrow> bool" where
  "is_image m b \<longleftrightarrow> sha256 b = image_sha256 m \<and> of_nat (length b) = image_size_bytes m"

definition streamed :: "update_manifest \<Rightarrow> 'c streaming_hasher \<Rightarrow> 'h \<Rightarrow> bool" where
  "streamed m hs h \<longleftrightarrow> (\<exists>cs. hasher_saw (env_sha env) (image_size_bytes m) cs hs \<and> buffer_of h = concat cs)"

lemma streamed_receipt:
  assumes "streamed m hs h"
  shows "receipt_sha256 (hasher_finalise (env_sha env) hs) = sha256 (buffer_of h)"
    "receipt_size_bytes (hasher_finalise (env_sha env) hs) = of_nat (length (buffer_of h))"
  using assms by (auto simp: streamed_def hasher_finalise_def hasher_saw_def digest_law)

definition staged :: "update_manifest \<Rightarrow> bank \<Rightarrow> host_view \<Rightarrow> host_view \<Rightarrow> bool" where
  "staged m slot v0 v \<longleftrightarrow> touches_slot slot v0 v
     \<and> slot_state (hv_layout v) slot = Slot_Staged (manifest_version m) \<and> is_image m (hv_bytes v slot)"

lemma tee_saw_new: "tee_saw sha n (slot_of h) (view w) ((hasher_new sha n, h), w)" if "buffer_of h = []"
  using hasher_saw_new [of sha n] that by (auto simp: tee_saw_def intro!: exI [of _ "[]"])

lemma tee_saw_view: "tee_saw sha n b v (t, w) \<Longrightarrow> view w' = view w \<Longrightarrow> tee_saw sha n b v (t, w')"
  by (auto simp: tee_saw_def)

lemma triple_stream:
  "triple (svc_at s0 st d (\<lambda>v. v = v0 \<and> slot_of h = slot \<and> buffer_of h = []))
     (stream_into_bank env h (hasher_new (env_sha env) (image_size_bytes m)) m)
     (\<lambda>(r, hs, h'). svc_at s0 st d (\<lambda>v. v = v0 \<and> slot_of h' = slot \<and> (r = Inr () \<longrightarrow> streamed m hs h')))
     E"
proof (rule tripleI)
  fix s assume s: "svc_at s0 st d (\<lambda>v. v = v0 \<and> slot_of h = slot \<and> buffer_of h = []) s"
  let ?n = "image_size_bytes m" and ?sink = "tee_write_chunk (env_sha env) (env_bank env)"
  let ?k = "((hasher_new (env_sha env) ?n, h), svc_host s)"
  obtain r hs' h' w' where dl: "env_download env (image_url m) ?n ?sink ?k = (r, ((hs', h'), w'))"
    by (metis prod.exhaust)
  have "case r of Inr _ \<Rightarrow> tee_saw (env_sha env) ?n slot v0 ((hs', h'), w')
      | Inl _ \<Rightarrow> tee_saw (env_sha env) ?n slot v0 ((hs', h'), w') \<or> tee_failed slot v0 ((hs', h'), w')"
    by (rule download_law [of "tee_saw (env_sha env) ?n slot v0" ?sink "tee_failed slot v0" ?k,
          OF tee_saw_step tee_saw_view _ dl])
      (use s tee_saw_new in \<open>auto simp: svc_at_def\<close>)
  then show "outcome (\<lambda>(r, hs, h'). svc_at s0 st d (\<lambda>v. v = v0 \<and> slot_of h' = slot \<and> (r = Inr () \<longrightarrow> streamed m hs h')))
      E (stream_into_bank env h (hasher_new (env_sha env) ?n) m s)"
    using s dl
    by (cases r) (auto simp: stream_into_bank_def svc_at_def tee_saw_def tee_failed_def streamed_def)
qed

lemma triple_finish:
  "triple (svc_at s0 st d (\<lambda>v. v = v0 \<and> slot_of h = slot \<and> is_image m (buffer_of h)))
     (on_host (bw_finish (env_bank env) h (manifest_version m)))
     (\<lambda>_. svc_at s0 st d (staged m slot v0)) (\<lambda>_. svc_failed s0 (\<lambda>d' v. d' = d \<and> touches_slot slot v0 v))"
  by (rule triple_on_host) (auto dest!: finish_law simp: staged_def split: sum.split)

lemma triple_verify_and_finish:
  "triple (svc_at s0 Downloading d (\<lambda>v. v = v0 \<and> slot_of h = slot \<and> streamed m hs h))
     (verify_and_finish env m hs h) (\<lambda>_. svc_at s0 Installing d (staged m slot v0))
     (\<lambda>_. svc_failed s0 (\<lambda>d' v. d' = d \<and> touches_slot slot v0 v))"
  (is "triple (?S Downloading) _ ?Q ?F")
proof -
  let ?R = "hasher_finalise (env_sha env) hs"
  have abandon: "triple (?S Verifying) (attempt (on_host (bw_abandon (env_bank env) h)) (\<lambda>_. raise e)) ?Q ?F" for e
    by (rule triple_abandon_raise) simp
  have finish: "triple (?S Installing) (bnd (inspect_err bump_bank_errors
        (on_host (bw_finish (env_bank env) h (manifest_version m)))) (\<lambda>_. ret ())) ?Q ?F"
    if "receipt_sha256 ?R = image_sha256 m" "receipt_size_bytes ?R = image_size_bytes m"
  proof -
    have "triple (?S Installing) (on_host (bw_finish (env_bank env) h (manifest_version m)))
        (\<lambda>_. svc_at s0 Installing d (staged m slot v0)) ?F"
      by (rule triple_conseq [OF triple_finish [of s0 Installing d v0 h slot m]])
        (use that in \<open>auto simp: svc_at_def is_image_def streamed_receipt\<close>)
    then show ?thesis by (intro triple_bnd [OF triple_inspect_err triple_ret]) simp_all
  qed
  have steps: "can_transition_to Downloading Verifying" "can_transition_to Verifying Installing"
    by (simp_all add: can_transition_to_def)
  show ?thesis
    unfolding verify_and_finish_def Let_def
    by (intro triple_bnd [OF triple_transition [OF steps(1)]] triple_if triple_bnd [OF triple_bump abandon]
          abandon triple_bnd [OF triple_transition [OF steps(2)]] finish) simp_all
qed

lemma triple_stage_image:
  "triple (svc_at s0 Downloading d (\<lambda>v. v = v0)) (stage_image env m slot)
     (\<lambda>_. svc_at s0 Installing d (staged m slot v0))
     (\<lambda>_. svc_failed s0 (\<lambda>d' v. d' = d \<and> touches_slot slot v0 v))"
  (is "triple _ _ ?Q ?F")
proof -
  have opened: "triple (svc_at s0 Downloading d (\<lambda>v. v = v0))
      (inspect_err bump_bank_errors (on_host (bw_open_for_write (env_bank env) slot)))
      (\<lambda>h. svc_at s0 Downloading d (\<lambda>v. v = v0 \<and> slot_of h = slot \<and> buffer_of h = [])) ?F"
    unfolding bump_errors_simps [abs_def]
    by (rule triple_inspect_err, unfold svc_at_bump, rule triple_on_host)
      (auto dest!: open_law split: sum.split)
  show ?thesis
    unfolding stage_image_def
  proof (rule triple_bnd [OF opened triple_bnd [OF triple_stream]])
    fix h0 and x :: "(updater_error + unit) \<times> 'c streaming_hasher \<times> 'h"
    obtain r hs h where x: "x = (r, hs, h)" by (metis prod.exhaust)
    show "triple (case x of (r, hs, h') \<Rightarrow>
          svc_at s0 Downloading d (\<lambda>v. v = v0 \<and> slot_of h' = slot \<and> (r = Inr () \<longrightarrow> streamed m hs h')))
        (case x of (r, hs, h) \<Rightarrow> case r of
           Inl e \<Rightarrow> attempt (on_host (bw_abandon (env_bank env) h)) (\<lambda>_. raise e)
         | Inr _ \<Rightarrow> verify_and_finish env m hs h) ?Q ?F"
      by (cases r) (auto simp: x triple_verify_and_finish intro!: triple_abandon_raise)
  qed
qed

subsection \<open>Swapping and probing\<close>

lemma health_loop_returns:
  assumes "0 < health_check_interval p" "svc_at s0 st d R s"
  shows "\<exists>r s'. health_loop env p deadline n s = Some (r, s') \<and> svc_at s0 st d R s'"
  using assms(2)
proof (induction "deadline - hc_now (env_health env) (svc_host s)" arbitrary: n s rule: less_induct)
  case less
  let ?s1 = "bump (\<lambda>t. t\<lparr>health_check_probes := health_check_probes t + 1\<rparr>) s"
  obtain r w where w: "hc_probe (env_health env) (health_check_timeout p) (svc_host s) = (r, w)"
    by (cases "hc_probe (env_health env) (health_check_timeout p) (svc_host s)")
  let ?s2 = "?s1\<lparr>svc_host := w\<rparr>"
  let ?s3 = "?s2\<lparr>svc_host := hc_sleep (env_health env) (health_check_interval p) w\<rparr>"
  note pl = probe_law [OF w] and sl = sleep_law [of "health_check_interval p" w]
  show ?case
  proof (cases "deadline \<le> hc_now (env_health env) (svc_host s)")
    case True
    then show ?thesis using less.prems by (subst health_loop.simps) simp
  next
    case False
    have s2: "svc_at s0 st d R ?s2" "svc_at s0 st d R ?s3"
      using less.prems pl sl by (simp_all add: svc_at_def)
    have "deadline - hc_now (env_health env) (svc_host ?s3) < deadline - hc_now (env_health env) (svc_host s)"
      using False assms(1) conjunct2 [OF pl] conjunct2 [OF sl] by simp
    from less.hyps [OF this s2(2)] show ?thesis
      using False w s2(1)
      by (subst health_loop.simps) (simp add: Let_def split: option.split sum.split health_report.split)
  qed
qed

lemma triple_health_loop:
  assumes "0 < health_check_interval (svc_policy s0)"
  shows "triple (svc_at s0 st d R) (run_health_check_loop env) (\<lambda>_. svc_at s0 st d R) E"
proof (rule tripleI)
  fix s assume s: "svc_at s0 st d R s"
  then have "0 < health_check_interval (svc_policy s)" using assms by (simp add: svc_at_def same_config_def)
  from health_loop_returns [OF this s,
      of "hc_now (env_health env) (svc_host s) + health_check_window (svc_policy s)" 0]
  show "outcome (\<lambda>_. svc_at s0 st d R) E (run_health_check_loop env s)"
    by (auto simp: run_health_check_loop_def)
qed

definition swapped :: "bank \<Rightarrow> host_view \<Rightarrow> host_view \<Rightarrow> bool" where
  "swapped slot v1 v \<longleftrightarrow>
     (\<exists>prev. hv_boot v1 = Boot_Committed prev \<and> v = v1\<lparr>hv_boot := Boot_Pending slot prev\<rparr>)"

lemma triple_swap_and_probe:
  assumes "0 < health_check_interval (svc_policy s0)"
  shows "triple (svc_at s0 Installing d R) (swap_and_probe env slot)
    (\<lambda>_. svc_at s0 HealthChecking d (\<lambda>v. \<exists>v1. R v1 \<and> swapped slot v1 v))
    (\<lambda>_. svc_failed s0 (\<lambda>d' v. d' = d \<and> R v))"
proof -
  have swap: "triple (svc_at s0 Rebooting d R)
      (inspect_err bump_bootloader_errors (on_host (bl_swap_to (env_boot env) slot)))
      (\<lambda>_. svc_at s0 Rebooting d (\<lambda>v. \<exists>v1. R v1 \<and> swapped slot v1 v)) (\<lambda>_. svc_failed s0 (\<lambda>d' v. d' = d \<and> R v))"
    unfolding bump_errors_simps [abs_def]
    by (rule triple_inspect_err, unfold svc_at_bump, rule triple_on_host)
      (auto dest!: swap_law simp: swapped_def split: sum.splits)
  have steps: "can_transition_to Installing Rebooting" "can_transition_to Rebooting HealthChecking"
    by (simp_all add: can_transition_to_def)
  show ?thesis
    unfolding swap_and_probe_def
    by (rule triple_bnd [OF triple_transition [OF steps(1)] triple_bnd [OF swap
          triple_bnd [OF triple_transition [OF steps(2)] triple_health_loop [OF assms]]]])
qed

subsection \<open>Commit and rollback\<close>

text \<open>The bookkeeping only ever records slot \<open>slot\<close> and moves the active pointer to it.\<close>

definition tracks :: "bank \<Rightarrow> host_view \<Rightarrow> host_view \<Rightarrow> bool" where
  "tracks slot v1 v \<longleftrightarrow> hv_boot v = hv_boot v1 \<and> hv_bytes v = hv_bytes v1
     \<and> (\<forall>c. c \<noteq> slot \<longrightarrow> slot_state (hv_layout v) c = slot_state (hv_layout v1) c)"

definition recorded :: "bank \<Rightarrow> image_version \<Rightarrow> host_view \<Rightarrow> bool" where
  "recorded slot ver v \<longleftrightarrow> active (hv_layout v) = slot \<and> slot_state (hv_layout v) slot = Slot_Committed ver"

lemma triple_try_bookkeeping:
  "triple (svc_at s0 st d (tracks slot v1)) (try_post_commit_bookkeeping env slot ver)
     (\<lambda>_. svc_at s0 st d (\<lambda>v. tracks slot v1 v \<and> recorded slot ver v))
     (\<lambda>_. svc_at s0 st d (tracks slot v1))"
  unfolding try_post_commit_bookkeeping_def
proof (intro triple_bnd [OF triple_on_host_at triple_bnd [OF triple_on_host_at triple_ret]])
  fix w r w' assume "tracks slot v1 (view w)" "bw_mark_committed (env_bank env) slot ver w = (r, w')"
  then show "case r of
      Inr _ \<Rightarrow> tracks slot v1 (view w') \<and> slot_state (hv_layout (view w')) slot = Slot_Committed ver
    | Inl _ \<Rightarrow> tracks slot v1 (view w')"
    by (auto dest!: mark_committed_law simp: relabels_slot_def touches_slot_def tracks_def split: sum.split)
next
  fix w r w' assume "tracks slot v1 (view w) \<and> slot_state (hv_layout (view w)) slot = Slot_Committed ver"
    "bw_set_active (env_bank env) slot w = (r, w')"
  then show "case r of Inr _ \<Rightarrow> tracks slot v1 (view w') \<and> recorded slot ver (view w')
    | Inl _ \<Rightarrow> tracks slot v1 (view w')"
    by (auto dest!: set_active_law simp: recorded_def tracks_def split: sum.split)
qed

lemma triple_bookkeeping_attempts:
  "triple (svc_at s0 st d (tracks slot v1)) (bookkeeping_attempts env slot ver n backoff prev)
     (\<lambda>r. svc_at s0 st d (\<lambda>v. tracks slot v1 v \<and> (r = None \<longrightarrow> recorded slot ver v))) E"
proof (induction n arbitrary: backoff prev)
  case 0
  then show ?case by (auto intro!: triple_ret simp: svc_at_def)
next
  case (Suc n)
  have slept: "triple (svc_at s0 st d (tracks slot v1))
      (modify (\<lambda>s. s\<lparr>svc_host := hc_sleep (env_health env) b (svc_host s)\<rparr>)) (\<lambda>_. svc_at s0 st d (tracks slot v1)) E"
    for b using sleep_law [of b] by (auto intro!: triple_modify simp: svc_at_def)
  show ?case
    unfolding bookkeeping_attempts.simps
    by (rule triple_attempt [OF triple_try_bookkeeping], unfold sum.case)
      (auto intro!: triple_ret triple_bnd [OF triple_bump] triple_if triple_bnd [OF slept] Suc)
qed

lemma triple_bookkeeping:
  "triple (svc_at s0 st d (tracks slot v1)) (run_post_commit_bookkeeping env slot ver)
     (\<lambda>_. svc_at s0 st d (\<lambda>v. tracks slot v1 v \<and> recorded slot ver v))
     (\<lambda>_. svc_failed s0 (\<lambda>d' v. d' \<and> tracks slot v1 v))"
  (is "triple ?P _ ?Q ?F")
proof -
  have lock: "triple (svc_at s0 st d (tracks slot v1)) (bnd (modify (bump f)) (\<lambda>_.
      bnd (modify (\<lambda>s. s\<lparr>layout_diverged := True\<rparr>)) (\<lambda>_. raise e))) ?Q ?F" for f e
    by (auto simp: triple_def act_simps svc_at_def svc_failed_def)
  show ?thesis
    unfolding run_post_commit_bookkeeping_def
  proof (rule triple_bnd [OF triple_gets triple_bnd [OF triple_bookkeeping_attempts]])
    fix policy :: updater_policy and r :: "updater_error option option"
    show "triple (svc_at s0 st d (\<lambda>v. tracks slot v1 v \<and> (r = None \<longrightarrow> recorded slot ver v)))
      (case r of None \<Rightarrow> ret ()
       | Some prev \<Rightarrow> bnd (modify (bump (\<lambda>t. t\<lparr>install_post_commit_layout_sync_failures :=
              install_post_commit_layout_sync_failures t + 1\<rparr>))) (\<lambda>_.
           bnd (modify (\<lambda>s. s\<lparr>layout_diverged := True\<rparr>)) (\<lambda>_.
           raise (PostCommitLayoutSync slot ver (post_commit_bookkeeping_max_attempts policy)
             (case prev of None \<Rightarrow> ''no error recorded'' | Some e \<Rightarrow> updater_error_display e))))) ?Q ?F"
      by (cases r) (auto intro!: triple_ret lock)
  qed
qed

lemma triple_commit_install:
  assumes "hv_boot v2 = Boot_Pending slot p"
  shows "triple (svc_at s0 HealthChecking d (\<lambda>v. v = v2)) (commit_install env m slot)
    (\<lambda>r s. r = Outcome_Committed (manifest_version m) slot \<and> svc_at s0 Idle d (\<lambda>v.
       tracks slot (v2\<lparr>hv_boot := Boot_Committed slot\<rparr>) v \<and> recorded slot (manifest_version m) v) s)
    (\<lambda>_. svc_failed s0 (\<lambda>d' v. d' = d \<and> v = v2 \<or> d' \<and> tracks slot (v2\<lparr>hv_boot := Boot_Committed slot\<rparr>) v))"
  (is "triple _ _ ?Q ?F")
proof -
  let ?v = "v2\<lparr>hv_boot := Boot_Committed slot\<rparr>"
  have commit: "triple (svc_at s0 HealthChecking d (\<lambda>v. v = v2))
      (inspect_err bump_bootloader_errors (on_host (bl_commit (env_boot env))))
      (\<lambda>_. svc_at s0 HealthChecking d (tracks slot ?v)) ?F"
    unfolding bump_errors_simps [abs_def]
    by (rule triple_inspect_err, unfold svc_at_bump, rule triple_on_host)
      (use assms in \<open>auto dest!: commit_law simp: tracks_def split: sum.splits\<close>)
  have book: "triple (svc_at s0 HealthChecking d (tracks slot ?v)) (run_post_commit_bookkeeping env slot (manifest_version m))
      (\<lambda>_. svc_at s0 HealthChecking d (\<lambda>v. tracks slot ?v v \<and> recorded slot (manifest_version m) v)) ?F"
    by (rule triple_conseq [OF triple_bookkeeping]) (auto simp: svc_failed_def)
  have steps: "can_transition_to HealthChecking Committed" "can_transition_to Committed Idle"
    by (simp_all add: can_transition_to_def)
  show ?thesis
    unfolding commit_install_def
    by (rule triple_bnd [OF commit triple_bnd [OF book triple_bnd [OF triple_bump
          triple_bnd [OF triple_transition [OF steps(1)] triple_bnd [OF triple_transition [OF steps(2)] triple_ret]]]]])
      simp
qed

lemma triple_rollback_install:
  assumes "hv_boot v2 = Boot_Pending slot p"
  shows "triple (svc_at s0 HealthChecking d (\<lambda>v. v = v2)) (rollback_install env m slot reason)
    (\<lambda>r s. r = Outcome_RolledBack (manifest_version m) slot reason \<and> svc_at s0 Idle d (\<lambda>v.
       relabels_slot slot (v2\<lparr>hv_boot := Boot_Committed p\<rparr>) v
       \<and> slot_state (hv_layout v) slot = Slot_RolledBack (manifest_version m)) s)
    (\<lambda>_. svc_failed s0 (\<lambda>d' v. d' = d \<and> (v = v2 \<or> relabels_slot slot (v2\<lparr>hv_boot := Boot_Committed p\<rparr>) v)))"
  (is "triple _ _ ?Q ?F")
proof -
  let ?v = "v2\<lparr>hv_boot := Boot_Committed p\<rparr>"
  have rollback: "triple (svc_at s0 HealthChecking d (\<lambda>v. v = v2))
      (inspect_err bump_bootloader_errors (on_host (bl_rollback (env_boot env))))
      (\<lambda>_. svc_at s0 HealthChecking d (\<lambda>v. v = ?v)) ?F"
    unfolding bump_errors_simps [abs_def]
    by (rule triple_inspect_err, unfold svc_at_bump, rule triple_on_host)
      (use assms in \<open>auto dest!: rollback_law split: sum.splits\<close>)
  have mark: "triple (svc_at s0 HealthChecking d (\<lambda>v. v = ?v))
      (inspect_err bump_bank_errors (on_host (bw_mark_rolled_back (env_bank env) slot (manifest_version m))))
      (\<lambda>_. svc_at s0 HealthChecking d (\<lambda>v. relabels_slot slot ?v v
         \<and> slot_state (hv_layout v) slot = Slot_RolledBack (manifest_version m))) ?F"
    unfolding bump_errors_simps [abs_def]
    by (rule triple_inspect_err, unfold svc_at_bump, rule triple_on_host)
      (auto dest!: mark_rolled_back_law split: sum.splits)
  have steps: "can_transition_to HealthChecking RolledBack" "can_transition_to RolledBack Idle"
    by (simp_all add: can_transition_to_def)
  show ?thesis
    unfolding rollback_install_def
    by (rule triple_bnd [OF rollback triple_bnd [OF mark triple_bnd [OF triple_bump
          triple_bnd [OF triple_transition [OF steps(1)] triple_bnd [OF triple_transition [OF steps(2)] triple_ret]]]]])
      simp
qed

subsection \<open>A whole install\<close>

lemma triple_pointwise:
  assumes "\<And>v2. R v2 \<Longrightarrow> triple (svc_at s0 st d (\<lambda>v. v = v2)) p Q E"
  shows "triple (svc_at s0 st d R) p Q E"
proof (rule tripleI)
  fix s assume "svc_at s0 st d R s"
  then show "outcome Q E (p s)"
    using tripleD [OF assms [of "view (svc_host s)"], of s] by (simp add: svc_at_def)
qed

lemma swapped_committed:
  assumes "staged m slot v0 v1" "swapped slot v1 v2" "tracks slot (v2\<lparr>hv_boot := Boot_Committed slot\<rparr>) v"
    "recorded slot (manifest_version m) v"
  shows "committed_effect sha256 m slot v0 v"
  using assms
  by (auto simp: staged_def swapped_def tracks_def recorded_def committed_effect_def others_kept_def
      touches_slot_def is_image_def)

lemma swapped_rolled_back:
  assumes "staged m slot v0 v1" "swapped slot v1 v2" "hv_boot v2 = Boot_Pending slot p"
    "relabels_slot slot (v2\<lparr>hv_boot := Boot_Committed p\<rparr>) v"
  shows "others_kept slot v0 v \<and> hv_boot v = hv_boot v0 \<and> active (hv_layout v) = active (hv_layout v0)"
  using assms
  by (auto simp: staged_def swapped_def relabels_slot_def others_kept_def touches_slot_def)

lemma swapped_failed:
  assumes "staged m slot v0 v1" "swapped slot v1 v2"
  shows "failed_effect slot v0 False v2"
    and "tracks slot (v2\<lparr>hv_boot := Boot_Committed slot\<rparr>) v \<Longrightarrow> failed_effect slot v0 True v"
  using assms by (auto simp: staged_def swapped_def tracks_def failed_effect_def others_kept_def touches_slot_def)

definition install_ends ::
  "('w, 'key) updater_service \<Rightarrow> update_manifest \<Rightarrow> bank \<Rightarrow> host_view \<Rightarrow> install_outcome
     \<Rightarrow> ('w, 'key) updater_service \<Rightarrow> bool" where
  "install_ends s0 m slot v0 r s \<longleftrightarrow>
     r = Outcome_Committed (manifest_version m) slot \<and> svc_at s0 Idle False (committed_effect sha256 m slot v0) s
     \<or> (\<exists>reason. r = Outcome_RolledBack (manifest_version m) slot reason)
       \<and> svc_at s0 Idle False (rolled_back_effect m slot v0) s"

lemma triple_run_install:
  assumes "0 < health_check_interval (svc_policy s0)"
  shows "triple (svc_at s0 Downloading False (\<lambda>v. v = v0)) (run_install env m slot)
    (install_ends s0 m slot v0) (\<lambda>_. svc_failed s0 (failed_effect slot v0))"
  (is "triple _ _ ?Q ?F")
proof -
  have stage: "triple (svc_at s0 Downloading False (\<lambda>v. v = v0)) (stage_image env m slot)
      (\<lambda>_. svc_at s0 Installing False (staged m slot v0)) ?F"
    by (rule triple_conseq [OF triple_stage_image]) (auto simp: svc_failed_def touches_failed)
  have swap: "triple (svc_at s0 Installing False (staged m slot v0)) (swap_and_probe env slot)
      (\<lambda>_. svc_at s0 HealthChecking False (\<lambda>v. \<exists>v1. staged m slot v0 v1 \<and> swapped slot v1 v)) ?F"
    by (rule triple_conseq [OF triple_swap_and_probe [OF assms]])
      (auto simp: svc_failed_def staged_def touches_failed)
  show ?thesis
    unfolding run_install_def
  proof (rule triple_bnd [OF stage triple_bnd [OF swap]], rule triple_pointwise)
    fix r v2 assume "\<exists>v1. staged m slot v0 v1 \<and> swapped slot v1 v2"
    then obtain v1 p where v2: "staged m slot v0 v1" "swapped slot v1 v2" "hv_boot v2 = Boot_Pending slot p"
      by (auto simp: swapped_def)
    note facts = swapped_committed [OF v2(1,2)] swapped_rolled_back [OF v2] swapped_failed [OF v2(1,2)]
    show "triple (svc_at s0 HealthChecking False (\<lambda>v. v = v2))
        (case r of Loop_Healthy \<Rightarrow> commit_install env m slot
         | Loop_Unhealthy reason \<Rightarrow> rollback_install env m slot reason) ?Q ?F"
    proof (cases r)
      case Loop_Healthy
      show ?thesis
        unfolding Loop_Healthy health_loop_outcome.case
        by (rule triple_conseq [OF triple_commit_install [OF v2(3)]])
          (use facts in \<open>auto simp: install_ends_def svc_at_def svc_failed_def\<close>)
    next
      case (Loop_Unhealthy reason)
      show ?thesis
        unfolding Loop_Unhealthy health_loop_outcome.case
        by (rule triple_conseq [OF triple_rollback_install [OF v2(3)]])
          (use facts in \<open>auto simp: install_ends_def svc_at_def svc_failed_def rolled_back_effect_def failed_effect_def\<close>)
    qed
  qed
qed

lemma triple_enforce:
  "triple (svc_at s0 st d R) (enforce_no_reinstall_of_rolled_back l slot m policy)
     (\<lambda>_ s. svc_at s0 st d R s \<and> (slot_state l slot = Slot_RolledBack (manifest_version m)
        \<longrightarrow> allow_reinstall_of_rolled_back_version policy))
     (\<lambda>_. svc_at s0 st d R)"
  by (auto simp: enforce_no_reinstall_of_rolled_back_def triple_def act_simps split: bank_slot_state.split)

lemma force_reset_failed:
  "svc_failed s0 F s \<Longrightarrow> svc_failed s0 F (force_reset_to_idle s) \<and> svc_state (force_reset_to_idle s) = Idle"
  by (auto simp: svc_failed_def force_reset_to_idle_def)

lemma touches_nothing: "failed_effect slot v0 False v0"
  by (simp add: touches_failed)

lemma triple_install_verified:
  assumes pos: "0 < health_check_interval (svc_policy s0)" and l: "l = hv_layout v0"
    and verified: "mv_verify (env_ed25519 env) (env_decode env) (svc_verifier s0) envelope
      (derive_current_version s0 l) = Inr m"
  shows "triple (svc_at s0 Idle False (\<lambda>v. v = v0)) (install_verified env l m)
    (\<lambda>r s. admitted env s0 l envelope m \<and> install_ends s0 m (inactive l) v0 r s)
    (\<lambda>_ s. svc_failed s0 (failed_effect (inactive l) v0) s \<and> svc_state s = Idle)"
  (is "triple ?P _ ?Q ?F")
proof -
  have clean: "?P s \<Longrightarrow> ?F e s" for s e
    by (auto simp: svc_at_def svc_failed_def touches_nothing)
  have install: "triple ?P (bnd (transition Idle Downloading)
      (\<lambda>_. inspect_err force_reset_to_idle (run_install env m (inactive l)))) (install_ends s0 m (inactive l) v0) ?F"
  proof (rule triple_bnd [OF triple_transition triple_inspect_err])
    show "triple (svc_at s0 Downloading False (\<lambda>v. v = v0)) (run_install env m (inactive l))
       (install_ends s0 m (inactive l) v0) (\<lambda>e s. ?F e (force_reset_to_idle s))"
      by (rule triple_conseq [OF triple_run_install [OF pos]]) (auto dest: force_reset_failed)
  qed (simp add: can_transition_to_def)
  have policy: "triple ?P (gets svc_policy) (\<lambda>policy s. ?P s \<and> policy = svc_policy s0) ?F"
    by (rule triple_gets) (auto simp: svc_at_def same_config_def)
  have enforce: "triple (\<lambda>s. ?P s \<and> policy = svc_policy s0)
      (enforce_no_reinstall_of_rolled_back l (inactive l) m policy)
      (\<lambda>_ s. ?P s \<and> admitted env s0 l envelope m) ?F"
    if "\<not> max_image_bytes policy < image_size_bytes m" for policy
    by (cases "policy = svc_policy s0", rule triple_conseq [OF triple_enforce])
      (use that in \<open>auto simp: clean admitted_def verified triple_def\<close>)
  have finish: "triple (\<lambda>s. ?P s \<and> admitted env s0 l envelope m) (bnd (transition Idle Downloading)
      (\<lambda>_. inspect_err force_reset_to_idle (run_install env m (inactive l)))) ?Q ?F"
    using install by (fastforce simp: triple_def intro: outcome_mono)
  have "triple (\<lambda>s. ?P s \<and> policy = svc_policy s0)
      (if max_image_bytes policy < image_size_bytes m
       then raise (ManifestSizeExceedsPolicy (image_size_bytes m) (max_image_bytes policy))
       else bnd (enforce_no_reinstall_of_rolled_back l (inactive l) m policy) (\<lambda>_.
         bnd (transition Idle Downloading) (\<lambda>_. inspect_err force_reset_to_idle (run_install env m (inactive l)))))
      ?Q ?F" for policy
    by (intro triple_if triple_raise triple_bnd [OF enforce finish]) (auto simp: clean)
  then show ?thesis
    unfolding install_verified_def Let_def by (rule triple_bnd [OF triple_bump triple_bnd [OF policy]])
qed

lemma triple_admit_and_install:
  assumes "0 < health_check_interval (svc_policy s0)"
  shows "triple (svc_at s0 Idle False (\<lambda>v. v = v0)) (admit_and_install env envelope)
    (\<lambda>r s. \<exists>m. admitted env s0 (hv_layout v0) envelope m \<and> install_ends s0 m (inactive (hv_layout v0)) v0 r s)
    (\<lambda>_ s. svc_failed s0 (failed_effect (inactive (hv_layout v0)) v0) s \<and> svc_state s = Idle)"
  (is "triple ?P _ ?Q ?F")
proof -
  let ?verify = "\<lambda>l. mv_verify (env_ed25519 env) (env_decode env) (svc_verifier s0) envelope (derive_current_version s0 l)"
  have clean: "?P s \<Longrightarrow> ?F e s" for s e
    by (auto simp: svc_at_def svc_failed_def touches_nothing)
  have layout: "triple ?P (inspect_err bump_bank_errors (on_host (bw_layout (env_bank env))))
      (\<lambda>l s. ?P s \<and> l = hv_layout v0) ?F"
  proof (rule triple_inspect_err, rule triple_conseq)
    show "triple ?P (on_host (bw_layout (env_bank env)))
        (\<lambda>l. svc_at s0 Idle False (\<lambda>v. v = v0 \<and> l = hv_layout v0)) (\<lambda>_. ?P)"
      by (rule triple_on_host_at) (auto dest!: layout_law split: sum.split)
  qed (auto simp: svc_at_def svc_failed_def touches_nothing)
  have verify: "triple (\<lambda>s. ?P s \<and> l = hv_layout v0)
      (gets (\<lambda>s. mv_verify (env_ed25519 env) (env_decode env) (svc_verifier s) envelope (derive_current_version s l)))
      (\<lambda>r s. ?P s \<and> l = hv_layout v0 \<and> r = ?verify l) ?F" for l
    by (rule triple_gets) (auto simp: svc_at_def same_config_def derive_current_version_def)
  have "triple (\<lambda>s. ?P s \<and> l = hv_layout v0 \<and> r = ?verify l)
      (case r of Inl e \<Rightarrow> bnd (modify (bump (bump_verifier_error e))) (\<lambda>_. raise e)
       | Inr m \<Rightarrow> install_verified env l m) ?Q ?F" for l r
  proof (cases r)
    case (Inl e)
    then show ?thesis by (auto simp: triple_def act_simps svc_at_def svc_failed_def touches_nothing)
  next
    case (Inr m)
    then show ?thesis
      using triple_install_verified [OF assms, of "hv_layout v0" v0 envelope m]
      by (fastforce simp: triple_def intro: outcome_mono)
  qed
  then show ?thesis
    unfolding admit_and_install_def by (rule triple_bnd [OF layout triple_bnd [OF verify]])
qed

text \<open>The result of an install started by a ready service, in full.\<close>

lemma install_result:
  assumes "0 < health_check_interval (svc_policy s)" "svc_state s = Idle" "\<not> install_locked s" "\<not> layout_diverged s"
  obtains r s' where "install_from_envelope env envelope s = Some (r, s')"
    "same_config s s'" "svc_state s' = Idle"
    "case r of
       Inl _ \<Rightarrow> failed_effect (inactive (hv_layout (view (svc_host s)))) (view (svc_host s)) (layout_diverged s') (view (svc_host s'))
     | Inr out \<Rightarrow> \<not> layout_diverged s' \<and> (\<exists>m. admitted env s (hv_layout (view (svc_host s))) envelope m
         \<and> (let slot = inactive (hv_layout (view (svc_host s))) in
            out = Outcome_Committed (manifest_version m) slot
              \<and> committed_effect sha256 m slot (view (svc_host s)) (view (svc_host s'))
            \<or> (\<exists>reason. out = Outcome_RolledBack (manifest_version m) slot reason)
              \<and> rolled_back_effect m slot (view (svc_host s)) (view (svc_host s'))))"
proof -
  let ?s0 = "s\<lparr>install_locked := True\<rparr>" and ?v0 = "view (svc_host s)"
  have pos: "0 < health_check_interval (svc_policy ?s0)" using assms(1) by simp
  have "svc_at ?s0 Idle False (\<lambda>v. v = ?v0) ?s0" using assms by (simp add: svc_at_def)
  note out = tripleD [OF triple_admit_and_install [OF pos, of ?v0 envelope] this]
  then obtain r s1 where r: "admit_and_install env envelope ?s0 = Some (r, s1)"
    by (cases "admit_and_install env envelope ?s0" rule: act_result_cases) auto
  have adm: "admitted env ?s0 l envelope m = admitted env s l envelope m" for l m
    by (simp add: admitted_def derive_current_version_def)
  show thesis
  proof (rule that [of r "s1\<lparr>install_locked := False\<rparr>"])
    show "install_from_envelope env envelope s = Some (r, s1\<lparr>install_locked := False\<rparr>)"
      using assms r by (simp add: install_from_envelope_def refuse_if_diverged_def take_install_lock_def
          with_lock_released_def bnd_def)
    show "same_config s (s1\<lparr>install_locked := False\<rparr>)"
      using out assms unfolding r
      by (cases r) (auto simp: svc_failed_def install_ends_def svc_at_def same_config_def)
  qed (use out in \<open>cases r; auto simp: r adm svc_failed_def install_ends_def svc_at_def Let_def\<close>)+
qed

end

section \<open>The service over its lifetime\<close>

text \<open>
  Between calls the machine is idle and unlocked, its policy is valid, and unless the divergence
  flag is up, a committed bootloader boots the slot the layout calls active.
\<close>

definition svc_inv :: "('w \<Rightarrow> host_view) \<Rightarrow> ('w, 'key) updater_service \<Rightarrow> bool" where
  "svc_inv view s \<longleftrightarrow> svc_state s = Idle \<and> \<not> install_locked s \<and> validate_policy (svc_policy s) = Inr ()
     \<and> (\<not> layout_diverged s \<longrightarrow>
          hv_boot (view (svc_host s)) \<in> {Boot_Committed (active (hv_layout (view (svc_host s)))),
            Boot_Pending (inactive (hv_layout (view (svc_host s)))) (active (hv_layout (view (svc_host s))))})"

text \<open>
  What happens to a service: installs and polls, changes of configuration and of the trust store,
  and an operator who repairs the metadata partition before clearing the divergence flag.
\<close>

inductive svc_step ::
  "('w, 'h, 'c, 'key) updater_env \<Rightarrow> ('w \<Rightarrow> host_view) \<Rightarrow> ('w, 'key) updater_service
     \<Rightarrow> ('w, 'key) updater_service \<Rightarrow> bool"
  for env :: "('w, 'h, 'c, 'key) updater_env" and view :: "'w \<Rightarrow> host_view" where
  install: "install_from_envelope env envelope s = Some (r, s') \<Longrightarrow> svc_step env view s s'"
| poll: "poll_and_install env s = Some (r, s') \<Longrightarrow> svc_step env view s s'"
| reload: "reload_policy p s = (r, s') \<Longrightarrow> svc_step env view s s'"
| override: "svc_step env view s (set_current_version_override v s)"
| rotate: "svc_step env view s (s\<lparr>svc_verifier := v\<rparr>)"
| reconcile: "hv_boot (view w) = Boot_Committed (active (hv_layout (view w)))
    \<Longrightarrow> svc_step env view s (clear_layout_divergence (s\<lparr>svc_host := w\<rparr>))"

lemma validated_interval: "validate_policy p = Inr () \<Longrightarrow> 0 < health_check_interval p"
  by (simp add: validate_policy_Inr)

lemma diverged_install:
  "layout_diverged s \<Longrightarrow> install_from_envelope env envelope s =
     Some (Inl LayoutDiverged, bump (\<lambda>t. t\<lparr>install_layout_diverged_rejections := install_layout_diverged_rejections t + 1\<rparr>) s)"
  by (simp add: install_from_envelope_def refuse_if_diverged_def bnd_def)

lemma inactive_neq_active [simp]: "inactive l \<noteq> active l" "active l \<noteq> inactive l"
  by (cases "active l"; simp add: inactive_def)+

lemma svc_inv_bump [simp]: "svc_inv view (bump f s) = svc_inv view s"
  by (simp add: svc_inv_def)

context update_host
begin

lemma install_keeps_inv:
  assumes "svc_inv view s"
  obtains r s' where "install_from_envelope env envelope s = Some (r, s')" "svc_inv view s'"
    "same_config s s'"
    "\<And>b. hv_boot (view (svc_host s)) = Boot_Committed b \<Longrightarrow> hv_bytes (view (svc_host s')) b = hv_bytes (view (svc_host s)) b"
proof (cases "layout_diverged s")
  case True
  show thesis by (rule that, rule diverged_install [OF True]) (use assms in auto)
next
  case False
  have s: "0 < health_check_interval (svc_policy s)" "svc_state s = Idle" "\<not> install_locked s"
    using assms by (auto simp: svc_inv_def validated_interval)
  obtain r s' where r: "install_from_envelope env envelope s = Some (r, s')" "same_config s s'" "svc_state s' = Idle"
    "case r of
       Inl _ \<Rightarrow> failed_effect (inactive (hv_layout (view (svc_host s)))) (view (svc_host s)) (layout_diverged s') (view (svc_host s'))
     | Inr out \<Rightarrow> \<not> layout_diverged s' \<and> (\<exists>m. admitted env s (hv_layout (view (svc_host s))) envelope m
         \<and> (let slot = inactive (hv_layout (view (svc_host s))) in
            out = Outcome_Committed (manifest_version m) slot
              \<and> committed_effect sha256 m slot (view (svc_host s)) (view (svc_host s'))
            \<or> (\<exists>reason. out = Outcome_RolledBack (manifest_version m) slot reason)
              \<and> rolled_back_effect m slot (view (svc_host s)) (view (svc_host s'))))"
    by (rule install_result [OF s False, of envelope])
  show thesis
  proof (rule that [OF r(1) _ r(2)])
    show "svc_inv view s'"
      using r(2-4) assms s False
      by (cases r) (auto simp: svc_inv_def same_config_def Let_def failed_effect_def committed_effect_def
          rolled_back_effect_def inactive_def)
    show "hv_bytes (view (svc_host s')) b = hv_bytes (view (svc_host s)) b"
      if "hv_boot (view (svc_host s)) = Boot_Committed b" for b
      using r(4) assms that False
      by (cases r) (auto simp: svc_inv_def Let_def failed_effect_def committed_effect_def
          rolled_back_effect_def others_kept_def)
  qed
qed

end

end
