(* ===== verification/Updater_Guarantees.thy ===== *)
theory Updater_Guarantees
  imports Updater_Contract "HOL-Library.Code_Target_Numeral"
begin

text \<open>
  The guarantees of the updater service, for all adapters that keep their contracts, together
  with a small wired service (in-memory adapters, an identity digest, an echoing signature
  scheme) on which they are evaluated, and the two ways in which a service can leave them.
\<close>

section \<open>A wired service\<close>

definition demo_manifest :: "u8 \<Rightarrow> bytes \<Rightarrow> update_manifest" where
  "demo_manifest n img =
     \<lparr>manifest_schema_version = 1, manifest_target = Target_Edge, manifest_channel = Stable,
      manifest_version = ImageVersion 1 (ucast n) 0, image_sha256 = img, image_size_bytes = of_nat (length img),
      image_url = replicate (unat n) (CHR ''u''), release_notes = [], signed_at = 0\<rparr>"

fun demo_decode :: "bytes \<Rightarrow> string + update_manifest" where
  "demo_decode [] = Inl ''empty''"
| "demo_decode (n # img) = Inr (demo_manifest n img)"

definition demo_envelope :: "bytes \<Rightarrow> signed_manifest" where
  "demo_envelope b = \<lparr>envelope_body = b, envelope_signature = 5 # b, envelope_key_id = ''k1''\<rparr>"

definition demo_policy :: updater_policy where
  "demo_policy =
     \<lparr>max_image_bytes = 100, health_check_window = 5, health_check_timeout = 2, health_check_interval = 1,
      min_healthy_probes = 2, allow_reinstall_of_rolled_back_version = False,
      post_commit_bookkeeping_max_attempts = 3, post_commit_bookkeeping_backoff = 1\<rparr>"

definition demo_host :: "health_report list \<Rightarrow> mem_source_host" where
  "demo_host reports =
     \<lparr>host_bank = mem_bank_with_layout \<lparr>active = BankA, slot_a = Slot_Committed (ImageVersion 1 1 0), slot_b = Slot_Empty\<rparr>,
      host_boot = mem_boot_new BankA,
      host_dl = mem_dl_set_chunk_size 2 (mem_dl_register ''uu'' [7, 7, 7]
        (mem_dl_register ''uuu'' [8, 8] \<lparr>payloads = Map.empty, dl_fail_with = None, chunk_size = 2, dl_calls = 0, truncate_after = None\<rparr>)),
      host_health = static_health_new\<lparr>hc_queue := reports\<rparr>, host_clock = 0,
      host_source = \<lparr>src_queue = [], src_fail_with = None, latest_calls = 0, next_after_calls = 0\<rparr>\<rparr>"

definition demo_service :: "mem_source_host \<Rightarrow> (mem_source_host, bytes) updater_service" where
  "demo_service w =
     \<lparr>svc_target = Target_Edge, svc_verifier = \<lparr>mv_keys = [''k1'' \<mapsto> [5]], mv_expected_target = Some Target_Edge\<rparr>,
      svc_policy = demo_policy, svc_stats = stats_new, svc_state = Idle, install_locked = False,
      current_version_override = None, svc_ticks = 0, layout_diverged = False, svc_host = w\<rparr>"

definition demo_env :: "(mem_source_host, mem_handle, bytes, bytes) updater_env" where
  "demo_env = mem_env identity_digest echo_ops demo_decode"

lemma demo_update_host: "update_host demo_env mem_view handle_slot handle_buffer id"
  unfolding demo_env_def by (rule mem_update.update_host_axioms)

lemma demo_svc_inv: "svc_inv mem_view (demo_service (demo_host reports))"
  by (simp add: svc_inv_def demo_service_def demo_host_def demo_policy_def validate_policy_def
      max_image_bytes_hard_cap_def mem_view_def mem_bank_with_layout_def mem_boot_new_def)



definition healthy_host :: mem_source_host where
  "healthy_host = demo_host [Healthy [], Healthy []]"

definition sick_host :: mem_source_host where
  "sick_host = demo_host [Healthy [], Unhealthy ''disk'']"

lemma demo_commits:
  "map_option fst (install_from_envelope demo_env (demo_envelope [2, 7, 7, 7]) (demo_service healthy_host)) =
     Some (Inr (Outcome_Committed (ImageVersion 1 2 0) BankB))"
  by code_simp

lemma demo_rolls_back:
  "map_option fst (install_from_envelope demo_env (demo_envelope [2, 7, 7, 7]) (demo_service sick_host)) =
     Some (Inr (Outcome_RolledBack (ImageVersion 1 2 0) BankB (Reason_Unhealthy ''disk'')))"
  by code_simp


section \<open>Over the lifetime of a service\<close>

context update_host
begin

lemma install_inv: "svc_inv view s \<Longrightarrow> install_from_envelope env envelope s = Some (r, s') \<Longrightarrow> svc_inv view s'"
  by (metis install_keeps_inv option.inject prod.inject)

lemma poll_inv:
  assumes "svc_inv view s" "poll_and_install env s = Some (r, s')"
  shows "svc_inv view s'"
proof -
  let ?s = "bump (\<lambda>t. t\<lparr>manifest_polls := manifest_polls t + 1\<rparr>) s"
  obtain x w where w: "env_latest env (svc_target ?s) (svc_host s) = (x, w)"
    by (cases "env_latest env (svc_target ?s) (svc_host s)")
  have host: "svc_inv view (?s\<lparr>svc_host := w\<rparr>)"
    using assms(1) source_law [OF w] by (simp add: svc_inv_def)
  show ?thesis
    using assms(2) w host
    by (auto simp: poll_and_install_def act_simps split: sum.splits option.splits intro: install_inv)
qed

lemma step_inv: "svc_step env view s s' \<Longrightarrow> svc_inv view s \<Longrightarrow> svc_inv view s'"
proof (induction rule: svc_step.induct)
  case (install envelope s r s')
  then show ?case by (blast intro: install_inv)
next
  case (poll s r s')
  then show ?case by (blast intro: poll_inv)
qed (auto simp: reload_policy_def set_current_version_override_def clear_layout_divergence_def svc_inv_def
    split: sum.splits)

lemma reachable_inv: "(svc_step env view)\<^sup>*\<^sup>* s s' \<Longrightarrow> svc_inv view s \<Longrightarrow> svc_inv view s'"
  by (induction rule: rtranclp_induct) (auto intro: step_inv)

end






section \<open>By outcome\<close>

context update_host
begin

lemma install_Inr:
  assumes "svc_inv view s" "install_from_envelope env envelope s = Some (Inr out, s')"
  obtains m where "admitted env s (hv_layout (view (svc_host s))) envelope m" "same_config s s'" "\<not> layout_diverged s'"
    "out = Outcome_Committed (manifest_version m) (inactive (hv_layout (view (svc_host s))))
       \<and> committed_effect sha256 m (inactive (hv_layout (view (svc_host s)))) (view (svc_host s)) (view (svc_host s'))
     \<or> (\<exists>reason. out = Outcome_RolledBack (manifest_version m) (inactive (hv_layout (view (svc_host s)))) reason)
       \<and> rolled_back_effect m (inactive (hv_layout (view (svc_host s)))) (view (svc_host s)) (view (svc_host s'))"
proof -
  have "\<not> layout_diverged s" using assms(2) diverged_install [of s env envelope] by auto
  moreover have "0 < health_check_interval (svc_policy s)" "svc_state s = Idle" "\<not> install_locked s"
    using assms(1) by (auto simp: svc_inv_def validated_interval)
  ultimately show thesis
    using install_result [of s envelope thesis] assms(2) that by (auto simp: Let_def)
qed

lemma derive_current_version_updates [simp]:
  "derive_current_version (s\<lparr>install_locked := b\<rparr>) = derive_current_version s"
  "derive_current_version (s\<lparr>svc_host := w\<rparr>) = derive_current_version s"
  by (simp_all add: derive_current_version_def fun_eq_iff)

lemma refused_reinstall:
  assumes "svc_inv view s" "\<not> layout_diverged s" "l = hv_layout (view (svc_host s))"
    "mv_verify (env_ed25519 env) (env_decode env) (svc_verifier s) envelope (derive_current_version s l) = Inr m"
    "slot_state l (inactive l) = Slot_RolledBack (manifest_version m)"
    "\<not> allow_reinstall_of_rolled_back_version (svc_policy s)"
  shows "\<exists>e s'. install_from_envelope env envelope s = Some (Inl e, s') \<and> view (svc_host s') = view (svc_host s)"
proof -
  obtain x w where x: "bw_layout (env_bank env) (svc_host s) = (x, w)"
    by (cases "bw_layout (env_bank env) (svc_host s)")
  note law = layout_law [OF x]
  show ?thesis
  proof (cases x)
    case (Inl e)
    then show ?thesis
      using assms(1,2) x law
      by (simp add: install_from_envelope_def refuse_if_diverged_def take_install_lock_def with_lock_released_def
          admit_and_install_def on_host_def act_simps svc_inv_def)
  next
    case (Inr l')
    then have "x = Inr l" using law assms(3) by simp
    then show ?thesis
      using assms(1,2,4-6) x law
      by (simp add: install_from_envelope_def refuse_if_diverged_def take_install_lock_def with_lock_released_def
          admit_and_install_def on_host_def act_simps svc_inv_def
          install_verified_def enforce_no_reinstall_of_rolled_back_def Let_def)
  qed
qed

end

text \<open>
  Claim C9. A committed install is authentic, newer, intact and complete: a key of the trust
  store vouches for the manifest, its version is above the version the service was at, the slot
  that was inactive now holds bytes with the size and the digest of the manifest, the layout
  records that version there and calls the slot active, the bootloader is committed to it, and
  the other slot is as it was.
\<close>

theorem committed_install_is_verified:
  assumes "update_host env view slot_of buffer_of sha256" "svc_inv view s"
    "install_from_envelope env envelope s = Some (Inr (Outcome_Committed ver slot), s')"
  shows "\<exists>m key. mv_keys (svc_verifier s) (envelope_key_id envelope) = Some key
    \<and> key_verify (env_ed25519 env) key (envelope_body envelope) (envelope_signature envelope) = Inr ()
    \<and> env_decode env (envelope_body envelope) = Inr m \<and> manifest_version m = ver
    \<and> (\<forall>cur. derive_current_version s (hv_layout (view (svc_host s))) = Some cur \<longrightarrow> cur < ver)
    \<and> slot = inactive (hv_layout (view (svc_host s)))
    \<and> committed_effect sha256 m slot (view (svc_host s)) (view (svc_host s'))"
  by (rule update_host.install_Inr [OF assms]) (auto simp: admitted_def mv_verify_Inr split: option.splits)

theorem committed_install_is_verified_witness:
  "\<exists>m s'. install_from_envelope demo_env (demo_envelope [2, 7, 7, 7]) (demo_service healthy_host)
       = Some (Inr (Outcome_Committed (ImageVersion 1 2 0) BankB), s')
     \<and> committed_effect id m BankB (mem_view healthy_host) (mem_view (svc_host s'))"
proof -
  obtain s' where i: "install_from_envelope demo_env (demo_envelope [2, 7, 7, 7]) (demo_service healthy_host)
      = Some (Inr (Outcome_Committed (ImageVersion 1 2 0) BankB), s')"
    using demo_commits by auto
  have "svc_host (demo_service healthy_host) = healthy_host" by (simp add: demo_service_def)
  then show ?thesis
    using committed_install_is_verified [OF demo_update_host _ i] demo_svc_inv i
    by (auto simp: healthy_host_def)
qed

text \<open>A sequence of installs.\<close>

primrec run_installs ::
  "('w, 'h, 'c, 'key) updater_env \<Rightarrow> signed_manifest list \<Rightarrow> ('w, 'key) updater_service
     \<Rightarrow> ('w, 'key) updater_service option" where
  "run_installs env [] s = Some s"
| "run_installs env (e # es) s =
     (case install_from_envelope env e s of None \<Rightarrow> None | Some (r, s') \<Rightarrow> run_installs env es s')"

text \<open>No version is below any version; versions are ordered.\<close>

fun version_le :: "image_version option \<Rightarrow> image_version option \<Rightarrow> bool" where
  "version_le None y = True"
| "version_le (Some v) None = False"
| "version_le (Some v) (Some w) = (v \<le> w)"

lemma version_le_refl [simp]: "version_le x x"
  by (cases x) simp_all

lemma version_le_trans: "version_le x y \<Longrightarrow> version_le y z \<Longrightarrow> version_le x z"
  by (cases x; cases y; cases z) auto

lemma others_kept_active_version:
  "others_kept (inactive (hv_layout v0)) v0 v \<Longrightarrow> active (hv_layout v) = active (hv_layout v0)
     \<Longrightarrow> active_version (hv_layout v) = active_version (hv_layout v0)"
  by (simp add: active_version_def active_state_def others_kept_def)

lemma committed_active_version:
  "committed_effect sha m slot v0 v \<Longrightarrow> active_version (hv_layout v) = Some (manifest_version m)"
  by (simp add: active_version_def active_state_def committed_effect_def)

context update_host
begin

lemma install_version_le:
  assumes "svc_inv view s" "current_version_override s = None"
    "install_from_envelope env envelope s = Some (r, s')" "\<not> layout_diverged s'"
  shows "version_le (active_version (hv_layout (view (svc_host s)))) (active_version (hv_layout (view (svc_host s'))))
    \<and> current_version_override s' = None \<and> \<not> layout_diverged s"
proof -
  have d: "\<not> layout_diverged s" using assms(3,4) diverged_install [of s env envelope] by auto
  have ready: "0 < health_check_interval (svc_policy s)" "svc_state s = Idle" "\<not> install_locked s"
    using assms(1) by (auto simp: svc_inv_def validated_interval)
  have newer: "version_le (active_version (hv_layout (view (svc_host s)))) (Some (manifest_version m))"
    if "admitted env s (hv_layout (view (svc_host s))) envelope m" for m
    using that assms(2) by (cases "active_version (hv_layout (view (svc_host s)))")
      (auto simp: admitted_def mv_verify_Inr derive_current_version_def)
  show ?thesis
  proof (rule install_result [OF ready d, of envelope])
    fix r1 s1
    assume i: "install_from_envelope env envelope s = Some (r1, s1)" "same_config s s1"
      and e: "case r1 of
       Inl _ \<Rightarrow> failed_effect (inactive (hv_layout (view (svc_host s)))) (view (svc_host s)) (layout_diverged s1) (view (svc_host s1))
     | Inr out \<Rightarrow> \<not> layout_diverged s1 \<and> (\<exists>m. admitted env s (hv_layout (view (svc_host s))) envelope m
         \<and> (let slot = inactive (hv_layout (view (svc_host s))) in
            out = Outcome_Committed (manifest_version m) slot
              \<and> committed_effect sha256 m slot (view (svc_host s)) (view (svc_host s1))
            \<or> (\<exists>reason. out = Outcome_RolledBack (manifest_version m) slot reason)
              \<and> rolled_back_effect m slot (view (svc_host s)) (view (svc_host s1))))"
    have [simp]: "r1 = r" "s1 = s'" using i(1) assms(3) by simp_all
    show ?thesis
    proof (cases r)
      case (Inl x)
      then show ?thesis using e i(2) d assms(2,4)
        by (auto simp: failed_effect_def same_config_def others_kept_active_version)
    next
      case (Inr out)
      then show ?thesis using e i(2) d assms(2) newer
        by (auto simp: Let_def committed_active_version rolled_back_effect_def others_kept_active_version
            same_config_def)
    qed
  qed
qed

end

text \<open>
  No sequence of installs takes the system to an older version: with no version
  override in place, as long as the layout is in step with the bootloader at the end, the version
  of the active slot is at least what it was at the start.
\<close>

theorem installs_never_downgrade:
  assumes "update_host env view slot_of buffer_of sha256" "svc_inv view s" "current_version_override s = None"
    "run_installs env es s = Some s'" "\<not> layout_diverged s'"
  shows "version_le (active_version (hv_layout (view (svc_host s)))) (active_version (hv_layout (view (svc_host s'))))"
proof -
  have "run_installs env es s = Some s' \<Longrightarrow> svc_inv view s \<Longrightarrow> current_version_override s = None \<Longrightarrow>
    version_le (active_version (hv_layout (view (svc_host s)))) (active_version (hv_layout (view (svc_host s'))))
    \<and> \<not> layout_diverged s" for s
  proof (induction es arbitrary: s)
    case (Cons e es)
    obtain r s1 where s1: "install_from_envelope env e s = Some (r, s1)" "run_installs env es s1 = Some s'"
      using Cons.prems(1) by (auto split: option.splits)
    have inv: "svc_inv view s1" by (rule update_host.install_inv [OF assms(1) Cons.prems(2) s1(1)])
    have cfg: "current_version_override s1 = None"
      by (rule update_host.install_keeps_inv [OF assms(1) Cons.prems(2), of e])
        (use s1(1) Cons.prems(3) in \<open>auto simp: same_config_def\<close>)
    note step = Cons.IH [OF s1(2) inv cfg]
    then show ?case
      using update_host.install_version_le [OF assms(1) Cons.prems(2,3) s1(1)] version_le_trans by blast
  qed (use assms(5) in simp)
  then show ?thesis using assms(2-4) by blast
qed

theorem installs_never_downgrade_witness:
  "\<exists>s'. run_installs demo_env [demo_envelope [3, 8, 8], demo_envelope [2, 7, 7, 7]] (demo_service healthy_host) = Some s'
     \<and> version_le (Some (ImageVersion 1 1 0)) (active_version (mem_layout (host_bank (svc_host s'))))"
proof -
  obtain s' where s': "run_installs demo_env [demo_envelope [3, 8, 8], demo_envelope [2, 7, 7, 7]] (demo_service healthy_host) = Some s'"
    "\<not> layout_diverged s'"
  proof -
    have "map_option layout_diverged (run_installs demo_env [demo_envelope [3, 8, 8], demo_envelope [2, 7, 7, 7]]
        (demo_service healthy_host)) = Some False"
      by code_simp
    then show thesis using that by auto
  qed
  have "current_version_override (demo_service healthy_host) = None" by (simp add: demo_service_def)
  from installs_never_downgrade [OF demo_update_host _ this s'] s'(1) demo_svc_inv show ?thesis
    by (auto simp: healthy_host_def mem_view_def demo_service_def demo_host_def mem_bank_with_layout_def
        active_version_def active_state_def)
qed

text \<open>
  Claim C29. An install that reports a rollback has restored the system: bootloader, active slot
  and the other slot's bytes and record are as before, and the target slot is recorded as rolled
  back. Unless the policy allows it, installing the same envelope again is refused with the host
  unchanged.
\<close>

theorem rolled_back_install_restores:
  assumes "update_host env view slot_of buffer_of sha256" "svc_inv view s"
    "install_from_envelope env envelope s = Some (Inr (Outcome_RolledBack ver slot reason), s')"
  shows "slot = inactive (hv_layout (view (svc_host s)))
    \<and> hv_boot (view (svc_host s')) = hv_boot (view (svc_host s))
    \<and> active (hv_layout (view (svc_host s'))) = active (hv_layout (view (svc_host s)))
    \<and> slot_state (hv_layout (view (svc_host s'))) slot = Slot_RolledBack ver
    \<and> others_kept slot (view (svc_host s)) (view (svc_host s'))
    \<and> (\<not> allow_reinstall_of_rolled_back_version (svc_policy s) \<longrightarrow>
        (\<exists>e s2. install_from_envelope env envelope s' = Some (Inl e, s2)
           \<and> view (svc_host s2) = view (svc_host s')))"
proof -
  obtain m where m: "admitted env s (hv_layout (view (svc_host s))) envelope m" "same_config s s'" "\<not> layout_diverged s'"
    "ver = manifest_version m" "slot = inactive (hv_layout (view (svc_host s)))"
    "rolled_back_effect m slot (view (svc_host s)) (view (svc_host s'))"
    by (rule update_host.install_Inr [OF assms]) auto
  have "active_version (hv_layout (view (svc_host s'))) = active_version (hv_layout (view (svc_host s)))"
    using m(5,6) by (simp add: active_version_def active_state_def rolled_back_effect_def others_kept_def)
  then have "derive_current_version s' (hv_layout (view (svc_host s'))) = derive_current_version s (hv_layout (view (svc_host s)))"
    using m(2) by (simp add: derive_current_version_def same_config_def split: option.split)
  then have "\<exists>e s2. install_from_envelope env envelope s' = Some (Inl e, s2) \<and> view (svc_host s2) = view (svc_host s')"
    if "\<not> allow_reinstall_of_rolled_back_version (svc_policy s)"
    by (intro update_host.refused_reinstall [OF assms(1) update_host.install_inv [OF assms] m(3) refl])
      (use m that in \<open>auto simp: admitted_def same_config_def rolled_back_effect_def inactive_def\<close>)
  then show ?thesis using m(4-6) by (auto simp: rolled_back_effect_def)
qed

theorem rolled_back_install_restores_witness:
  "\<exists>s' e s2. install_from_envelope demo_env (demo_envelope [2, 7, 7, 7]) (demo_service sick_host)
       = Some (Inr (Outcome_RolledBack (ImageVersion 1 2 0) BankB (Reason_Unhealthy ''disk'')), s')
     \<and> slot_state (hv_layout (mem_view (svc_host s'))) BankB = Slot_RolledBack (ImageVersion 1 2 0)
     \<and> install_from_envelope demo_env (demo_envelope [2, 7, 7, 7]) s' = Some (Inl e, s2)"
proof -
  obtain s' where i: "install_from_envelope demo_env (demo_envelope [2, 7, 7, 7]) (demo_service sick_host)
      = Some (Inr (Outcome_RolledBack (ImageVersion 1 2 0) BankB (Reason_Unhealthy ''disk'')), s')"
    using demo_rolls_back by auto
  have "\<not> allow_reinstall_of_rolled_back_version (svc_policy (demo_service sick_host))"
    by (simp add: demo_service_def demo_policy_def)
  then show ?thesis
    using rolled_back_install_restores [OF demo_update_host _ i] demo_svc_inv i
    by (auto simp: sick_host_def)
qed

text \<open>
  A commit the layout does not know about locks the service: if after an install the
  bootloader is committed to a slot other than the one recorded as active, then the divergence
  flag is up, and every install is refused without touching the host until it is cleared.
\<close>

theorem unrecorded_commit_locks_service:
  assumes "update_host env view slot_of buffer_of sha256" "svc_inv view s"
    "install_from_envelope env envelope s = Some (r, s')"
    "hv_boot (view (svc_host s')) = Boot_Committed b" "b \<noteq> active (hv_layout (view (svc_host s')))"
  shows "layout_diverged s' \<and>
    (\<exists>s2. install_from_envelope env envelope' s' = Some (Inl LayoutDiverged, s2) \<and> svc_host s2 = svc_host s')"
  using update_host.install_inv [OF assms(1-3)] assms(4,5)
  by (auto simp: svc_inv_def diverged_install)

text \<open>A metadata partition that fails four times outlasts the three attempts of the policy.\<close>

definition flaky_host :: mem_source_host where
  "flaky_host = healthy_host\<lparr>host_bank := (host_bank healthy_host)\<lparr>set_active_failures_remaining := 4\<rparr>\<rparr>"

lemma flaky_host_inv: "svc_inv mem_view (demo_service flaky_host)"
  using demo_svc_inv [of "[Healthy [], Healthy []]"]
  by (simp add: svc_inv_def flaky_host_def healthy_host_def demo_service_def mem_view_def)

lemma flaky_install:
  "map_option (\<lambda>(r, s). (boot_state (host_boot (svc_host s)), active (mem_layout (host_bank (svc_host s)))))
     (install_from_envelope demo_env (demo_envelope [2, 7, 7, 7]) (demo_service flaky_host)) =
   Some (Boot_Committed BankB, BankA)"
  by code_simp

theorem unrecorded_commit_locks_service_witness:
  "\<exists>r s' s2. install_from_envelope demo_env (demo_envelope [2, 7, 7, 7]) (demo_service flaky_host) = Some (r, s')
     \<and> layout_diverged s' \<and> install_from_envelope demo_env (demo_envelope [3, 8, 8]) s' = Some (Inl LayoutDiverged, s2)"
proof -
  obtain r s' where i: "install_from_envelope demo_env (demo_envelope [2, 7, 7, 7]) (demo_service flaky_host) = Some (r, s')"
    and b: "boot_state (host_boot (svc_host s')) = Boot_Committed BankB" "active (mem_layout (host_bank (svc_host s'))) = BankA"
    using flaky_install by auto
  have "hv_boot (mem_view (svc_host s')) = Boot_Committed BankB" "BankB \<noteq> active (hv_layout (mem_view (svc_host s')))"
    using b by (simp_all add: mem_view_def)
  from unrecorded_commit_locks_service [OF demo_update_host flaky_host_inv i this, of "demo_envelope [3, 8, 8]"] i
  show ?thesis by blast
qed

section \<open>Bookkeeping retries\<close>

text \<open>How many more attempts the in-memory metadata partition will fail.\<close>

definition pending_failures :: "('z mem_host_scheme, 'key) updater_service \<Rightarrow> nat" where
  "pending_failures s = unat (mark_committed_failures_remaining (host_bank (svc_host s)))
     + unat (set_active_failures_remaining (host_bank (svc_host s)))"

lemma try_bookkeeping_mem:
  "case try_post_commit_bookkeeping (mem_env sha ed dec) slot v s of
     None \<Rightarrow> False
   | Some (x, s') \<Rightarrow> (x = Inr () \<longleftrightarrow> pending_failures s = 0) \<and> pending_failures s' = pending_failures s - 1
       \<and> svc_stats s' = svc_stats s \<and> layout_diverged s' = layout_diverged s"
proof -
  let ?m = "mark_committed_failures_remaining (host_bank (svc_host s))"
  let ?a = "set_active_failures_remaining (host_bank (svc_host s))"
  consider "?m \<noteq> 0" | "?m = 0" "?a \<noteq> 0" | "?m = 0" "?a = 0" by blast
  then show ?thesis
  proof cases
    case 1
    then have "unat ?m > 0" by (simp add: unat_gt_0)
    then show ?thesis using 1
      by (simp add: try_post_commit_bookkeeping_def on_host_def act_simps mem_bank_defs pending_failures_def
          word_gt_0 unat_minus_one)
  next
    case 2
    then have "unat ?a > 0" by (simp add: unat_gt_0)
    then show ?thesis using 2
      by (simp add: try_post_commit_bookkeeping_def on_host_def act_simps mem_bank_defs pending_failures_def
          word_gt_0 unat_minus_one)
  next
    case 3
    then show ?thesis
      by (simp add: try_post_commit_bookkeeping_def on_host_def act_simps mem_bank_defs pending_failures_def)
  qed
qed

lemma bookkeeping_attempts_mem:
  "case bookkeeping_attempts (mem_env sha ed dec) slot v n backoff prev s of
     Some (Inr r, s') \<Rightarrow> (r = None \<longleftrightarrow> pending_failures s < n) \<and> layout_diverged s' = layout_diverged s
       \<and> svc_stats s' = (svc_stats s)\<lparr>install_post_commit_layout_sync_retries :=
           install_post_commit_layout_sync_retries (svc_stats s) + of_nat (min (pending_failures s) n)\<rparr>
   | _ \<Rightarrow> False"
proof (induction n arbitrary: s backoff prev)
  case 0
  then show ?case by (simp add: ret_def)
next
  case (Suc n)
  obtain x s1 where x: "try_post_commit_bookkeeping (mem_env sha ed dec) slot v s = Some (x, s1)"
    "x = Inr () \<longleftrightarrow> pending_failures s = 0" "pending_failures s1 = pending_failures s - 1"
    "svc_stats s1 = svc_stats s" "layout_diverged s1 = layout_diverged s"
    using try_bookkeeping_mem [where s = s and sha = sha and ed = ed and dec = dec and slot = slot and v = v] by (auto split: option.splits)
  let ?s2 = "bump (\<lambda>t. t\<lparr>install_post_commit_layout_sync_retries := install_post_commit_layout_sync_retries t + 1\<rparr>) s1"
  let ?s3 = "?s2\<lparr>svc_host := hc_sleep mem_health_ops backoff (svc_host s1)\<rparr>"
  have s3: "pending_failures ?s3 = pending_failures s1" "pending_failures ?s2 = pending_failures s1"
    by (simp_all add: pending_failures_def mem_health_ops_def)
  show ?case
  proof (cases x)
    case (Inr u)
    then show ?thesis using x by (simp add: act_simps)
  next
    case (Inl e)
    then obtain k where k: "pending_failures s = Suc k" using x(2) by (cases "pending_failures s") auto
    show ?thesis
      using Suc.IH [where s = ?s3 and backoff = "duration_saturating_mul backoff 2" and prev = "Some e"]
        Suc.IH [where s = ?s2 and backoff = backoff and prev = "Some e"] Inl k x s3
      by (auto simp: act_simps bump_def add.assoc split: option.splits sum.splits)
  qed
qed

text \<open>
  After the bootloader has committed, the bookkeeping succeeds exactly if the metadata
  partition recovers within the attempts of the policy; every failed attempt is counted once, and
  running out of attempts counts one divergence and raises the divergence flag.
\<close>

theorem bookkeeping_succeeds_iff_partition_recovers:
  "case run_post_commit_bookkeeping (mem_env sha ed dec) slot v s of
     Some (r, s') \<Rightarrow>
       (r = Inr () \<longleftrightarrow> pending_failures s < unat (post_commit_bookkeeping_max_attempts (svc_policy s)))
       \<and> layout_diverged s' = (if r = Inr () then layout_diverged s else True)
       \<and> install_post_commit_layout_sync_retries (svc_stats s') =
           install_post_commit_layout_sync_retries (svc_stats s)
           + of_nat (min (pending_failures s) (unat (post_commit_bookkeeping_max_attempts (svc_policy s))))
       \<and> install_post_commit_layout_sync_failures (svc_stats s') =
           install_post_commit_layout_sync_failures (svc_stats s) + (if r = Inr () then 0 else 1)
   | None \<Rightarrow> False"
proof -
  let ?n = "unat (post_commit_bookkeeping_max_attempts (svc_policy s))"
  show ?thesis
    using bookkeeping_attempts_mem [where s = s and n = ?n and sha = sha and ed = ed and dec = dec and slot = slot
        and v = v and backoff = "post_commit_bookkeeping_backoff (svc_policy s)" and prev = None]
    by (auto simp: run_post_commit_bookkeeping_def act_simps bump_def split: option.splits sum.splits)
qed

section \<open>The health-check loop\<close>

text \<open>The report the static health check gives to its \<open>i\<close>-th call from now.\<close>

definition nth_report :: "static_health_check \<Rightarrow> nat \<Rightarrow> health_report" where
  "nth_report hc i = (if i < length (hc_queue hc) then hc_queue hc ! i else hc_default hc)"

text \<open>The static health check after one call.\<close>

definition probed :: "static_health_check \<Rightarrow> static_health_check" where
  "probed hc = hc\<lparr>hc_calls := hc_calls hc + 1, hc_queue := tl (hc_queue hc)\<rparr>"

lemma nth_report_probed [simp]: "nth_report (probed hc) i = nth_report hc (Suc i)"
  by (cases "hc_queue hc") (auto simp: nth_report_def probed_def)

lemma probed_simps [simp]:
  "hc_fail_with (probed hc) = hc_fail_with hc" "hc_delay (probed hc) = hc_delay hc"
  by (simp_all add: probed_def)

lemma static_probe_prompt:
  assumes "hc_fail_with (host_health w) = None" "hc_delay (host_health w) \<le> limit"
  shows "static_probe limit w = (Some (Inr (nth_report (host_health w) 0)),
    w\<lparr>host_health := probed (host_health w), host_clock := host_clock w + hc_delay (host_health w)\<rparr>)"
  using assms by (cases "hc_queue (host_health w)") (simp_all add: static_probe_def nth_report_def probed_def Let_def)

lemma unat_saturating_inc:
  assumes "unat (c :: u32) < unat (m :: u32)"
  shows "unat (saturating_add c 1) = unat c + 1"
proof -
  have "unat m < 2 ^ 32" using unsigned_less [of m, where 'a = nat] by simp
  then have "unat c + unat (1 :: u32) < 2 ^ LENGTH(32)" using assms by simp
  then show ?thesis by (simp add: saturating_add_def unat_add_no_overflow)
qed

lemma health_loop_mem:
  assumes "hc_fail_with (host_health (svc_host s)) = None"
    "hc_delay (host_health (svc_host s)) \<le> health_check_timeout p"
    "unat c + Suc need = unat (min_healthy_probes p)"
  shows "\<exists>r s'. health_loop (mem_env sha ed dec) p D c s = Some (r, s')
    \<and> (r = Loop_Healthy \<longleftrightarrow> (\<forall>i \<le> need. is_healthy (nth_report (host_health (svc_host s)) i))
         \<and> host_clock (svc_host s) + need * (hc_delay (host_health (svc_host s)) + health_check_interval p) < D)"
  using assms
proof (induction need arbitrary: c s)
  case 0
  then have n: "min_healthy_probes p \<le> saturating_add c 1"
    using unat_saturating_inc [of c "min_healthy_probes p"] by (simp add: word_le_nat_alt)
  show ?case
    using 0 n
    by (subst health_loop.simps)
      (auto simp: static_probe_prompt mem_health_ops_def Let_def split: health_report.split)
next
  case (Suc need)
  let ?s = "(bump (\<lambda>t. t\<lparr>health_check_probes := health_check_probes t + 1\<rparr>) s)
    \<lparr>svc_host := (svc_host s)\<lparr>host_health := probed (host_health (svc_host s)),
       host_clock := host_clock (svc_host s) + hc_delay (host_health (svc_host s)) + health_check_interval p\<rparr>\<rparr>"
  have n: "unat (saturating_add c 1) = unat c + 1"
    by (rule unat_saturating_inc [of c "min_healthy_probes p"]) (use Suc.prems in simp)
  then have lt: "\<not> min_healthy_probes p \<le> saturating_add c 1"
    using Suc.prems by (simp add: word_le_nat_alt)
  have IH: "\<exists>r s'. health_loop (mem_env sha ed dec) p D (saturating_add c 1) ?s = Some (r, s')
    \<and> (r = Loop_Healthy \<longleftrightarrow> (\<forall>i \<le> need. is_healthy (nth_report (host_health (svc_host ?s)) i))
         \<and> host_clock (svc_host ?s) + need * (hc_delay (host_health (svc_host ?s)) + health_check_interval p) < D)"
    by (rule Suc.IH) (use Suc.prems n in simp_all)
  have all: "(\<forall>i \<le> Suc need. P i) \<longleftrightarrow> P 0 \<and> (\<forall>i \<le> need. P (Suc i))" for P
    by (metis Suc_le_mono not0_implies_Suc zero_le)
  show ?case
    unfolding all
    using IH Suc.prems(1,2) lt
    by (subst health_loop.simps)
      (auto simp: static_probe_prompt mem_health_ops_def Let_def add_ac split: health_report.split)
qed

text \<open>
  With a probe that answers in time, the loop ends, and it declares the new image
  healthy exactly when the first \<open>min_healthy_probes\<close> reports are all healthy and the last of them
  starts before the window closes.
\<close>

theorem health_check_passes_iff:
  assumes "hc_fail_with (host_health (svc_host s)) = None"
    "hc_delay (host_health (svc_host s)) \<le> health_check_timeout (svc_policy s)"
    "unat (min_healthy_probes (svc_policy s)) = Suc need"
  shows "\<exists>r s'. run_health_check_loop (mem_env sha ed dec) s = Some (Inr r, s')
    \<and> (r = Loop_Healthy \<longleftrightarrow>
         (\<forall>i \<le> need. is_healthy (nth_report (host_health (svc_host s)) i))
         \<and> need * (hc_delay (host_health (svc_host s)) + health_check_interval (svc_policy s))
             < health_check_window (svc_policy s))"
proof -
  let ?D = "host_clock (svc_host s) + health_check_window (svc_policy s)"
  obtain r s' where "health_loop (mem_env sha ed dec) (svc_policy s) ?D 0 s = Some (r, s')"
    "r = Loop_Healthy \<longleftrightarrow> (\<forall>i \<le> need. is_healthy (nth_report (host_health (svc_host s)) i))
       \<and> host_clock (svc_host s) + need * (hc_delay (host_health (svc_host s)) + health_check_interval (svc_policy s)) < ?D"
    using health_loop_mem [of s "svc_policy s" 0 need sha ed dec ?D] assms by auto
  then show ?thesis
    by (auto simp: run_health_check_loop_def mem_health_ops_def)
qed

theorem health_check_passes_iff_witness:
  "(\<exists>s'. run_health_check_loop demo_env (demo_service healthy_host) = Some (Inr Loop_Healthy, s'))
   \<and> (\<exists>r s'. run_health_check_loop demo_env (demo_service sick_host) = Some (Inr r, s') \<and> r \<noteq> Loop_Healthy)"
proof -
  have h: "hc_fail_with (host_health (svc_host (demo_service (demo_host q)))) = None"
    "hc_delay (host_health (svc_host (demo_service (demo_host q)))) \<le> health_check_timeout (svc_policy (demo_service (demo_host q)))"
    "unat (min_healthy_probes (svc_policy (demo_service (demo_host q)))) = Suc 1" for q
    by (simp_all add: demo_service_def demo_host_def demo_policy_def static_health_new_def)
  let ?report = "\<lambda>q. nth_report (host_health (svc_host (demo_service (demo_host q))))"
  have good: "\<forall>i \<le> 1. is_healthy (?report [Healthy [], Healthy []] i)"
    by (auto simp: le_Suc_eq demo_service_def demo_host_def nth_report_def)
  have bad: "\<not> is_healthy (?report [Healthy [], Unhealthy ''disk''] 1)"
    by (simp add: demo_service_def demo_host_def nth_report_def)
  have window: "1 * (hc_delay (host_health (svc_host (demo_service (demo_host q)))) + health_check_interval (svc_policy (demo_service (demo_host q))))
      < health_check_window (svc_policy (demo_service (demo_host q)))" for q
    by (simp add: demo_service_def demo_host_def demo_policy_def static_health_new_def)
  show ?thesis
    using health_check_passes_iff [OF h [of "[Healthy [], Healthy []]"], of identity_digest echo_ops demo_decode]
      health_check_passes_iff [OF h [of "[Healthy [], Unhealthy ''disk'']"], of identity_digest echo_ops demo_decode]
    unfolding demo_env_def healthy_host_def sick_host_def
    using good bad window by blast
qed

section \<open>Where the protection ends\<close>

text \<open>Two operations in sequence, and what the host then shows.\<close>

definition boot_and_bytes :: "(mem_source_host, bytes) updater_service \<Rightarrow> active_bank_state \<times> bool \<times> bytes \<times> bytes" where
  "boot_and_bytes s =
     (boot_state (host_boot (svc_host s)), layout_diverged s,
      slot_a_bytes (host_bank (svc_host s)), slot_b_bytes (host_bank (svc_host s)))"

definition failing_commit_env :: "(mem_source_host, mem_handle, bytes, bytes) updater_env" where
  "failing_commit_env = demo_env\<lparr>env_boot := mem_boot_ops\<lparr>bl_commit := (\<lambda>w. (Inl (Bootloader ''io''), w))\<rparr>\<rparr>"

lemma failing_commit_bootloader: "bootloader (env_boot failing_commit_env) mem_view"
  by unfold_locales
    (auto simp: failing_commit_env_def mem_boot_defs split: option.splits active_bank_state.splits prod.splits)


text \<open>
  The divergence flag is read before the install lock is taken. A caller that reads it just
  before another install raises it, and takes the lock just after that install releases it,
  overwrites the slot the bootloader is committed to.
\<close>

theorem divergence_check_races_with_install:
  "refuse_if_diverged (demo_service flaky_host) = Some (Inr (), demo_service flaky_host)
   \<and> (case install_from_envelope demo_env (demo_envelope [2, 7, 7, 7]) (demo_service flaky_host) of
      Some (_, s1) \<Rightarrow> Some (boot_and_bytes s1,
        map_option (\<lambda>(_, s2). boot_and_bytes s2)
          (bnd take_install_lock (\<lambda>_. with_lock_released (admit_and_install demo_env (demo_envelope [3, 8, 8]))) s1))
    | None \<Rightarrow> None) =
   Some ((Boot_Committed BankB, True, [], [7, 7, 7]), Some (Boot_Committed BankB, True, [], [8, 8]))"
proof
  show "refuse_if_diverged (demo_service flaky_host) = Some (Inr (), demo_service flaky_host)"
    by (simp add: refuse_if_diverged_def demo_service_def)
qed code_simp

text \<open>
  The cold-start override keeps winning over the layout after a commit, so an image older than
  the active one is accepted as long as it is newer than the override.
\<close>

theorem stale_override_admits_downgrade:
  "(case install_from_envelope demo_env (demo_envelope [3, 8, 8])
      (set_current_version_override (Some (ImageVersion 1 1 0))
        (demo_service (demo_host [Healthy [], Healthy [], Healthy [], Healthy []]))) of
      Some (r1, s1) \<Rightarrow> Some (r1, map_option fst (install_from_envelope demo_env (demo_envelope [2, 7, 7, 7]) s1))
    | None \<Rightarrow> None) =
   Some (Inr (Outcome_Committed (ImageVersion 1 3 0) BankB),
     Some (Inr (Outcome_Committed (ImageVersion 1 2 0) BankA)))"
  by code_simp

end
