(* ===== verification/Ha_State_Sync.thy ===== *)
theory Ha_State_Sync
  imports CAS_Loop Net_Address Core_Error "HOL-Library.Sublist"
begin

text \<open>
  The state-sync channel of \<open>sng-ha\<close> (\<open>error.rs\<close>, \<open>state_sync.rs\<close>): the error taxonomy, the
  synced records, the fencing gate (sequentially and as a compare-and-swap cell), the bounded
  queue, the framing, and the two pump loops. The MessagePack codec (\<open>rmp_serde\<close>) is a
  parameter, and so are the byte streams (\<open>tokio::io::AsyncRead\<close> / \<open>AsyncWrite\<close>) and the applier;
  the locales state what the code relies on of them.
\<close>

section \<open>Errors\<close>

datatype ha_error =
    Socket string
  | Encode string
  | Decode string
  | FrameTooLarge nat nat
  | PeerUnreachable string
  | Vip string
  | InvalidConfig string
  | Fenced u64 u64

fun ha_error_code :: "ha_error \<Rightarrow> error_code" where
  "ha_error_code (Socket _) = Code_Io"
| "ha_error_code (Vip _) = Code_Io"
| "ha_error_code (Encode _) = Code_WireEncoding"
| "ha_error_code (Decode _) = Code_WireSchema"
| "ha_error_code (FrameTooLarge _ _) = Code_WireSchema"
| "ha_error_code (Fenced _ _) = Code_WireSchema"
| "ha_error_code (PeerUnreachable _) = Code_ControlPlaneUnreachable"
| "ha_error_code (InvalidConfig _) = Code_ConfigInvalid"

fun ha_error_display :: "ha_error \<Rightarrow> string" where
  "ha_error_display (Socket m) = ''socket: '' @ m"
| "ha_error_display (Encode m) = ''encode: '' @ m"
| "ha_error_display (Decode m) = ''decode: '' @ m"
| "ha_error_display (FrameTooLarge n k) =
     ''frame too large: '' @ decimal n @ '' bytes exceeds max '' @ decimal k"
| "ha_error_display (PeerUnreachable m) = ''peer unreachable: '' @ m"
| "ha_error_display (Vip m) = ''vip: '' @ m"
| "ha_error_display (InvalidConfig m) = ''invalid config: '' @ m"
| "ha_error_display (Fenced i c) =
     ''fenced: peer epoch '' @ decimal (unat i) @ '' is older than current '' @ decimal (unat c)"

section \<open>Records\<close>

definition max_frame_len :: nat where
  "max_frame_len = 2 ^ 20"

definition default_queue_capacity :: nat where
  "default_queue_capacity = 8192"

record conntrack_entry =
  ct_src_ip :: ip_addr
  ct_dst_ip :: ip_addr
  ct_src_port :: u16
  ct_dst_port :: u16
  ct_protocol :: u8
  ct_nat_src :: "(ip_addr \<times> u16) option"

record ztna_session_state =
  zs_session_id :: string
  zs_device_id :: string
  zs_app_id :: string
  zs_expires_at_unix :: u64

text \<open>The \<open>f32\<close> score is carried as its bit pattern; no code of the crate computes with it.\<close>

record sdwan_path_score_state =
  ps_path_id :: string
  ps_score_bits :: u32
  ps_observed_at_unix_ms :: u64

datatype sync_record =
    Conntrack conntrack_entry
  | ZtnaSession ztna_session_state
  | SdwanPathScore sdwan_path_score_state
  | Lagged
  | Fence u64

section \<open>The fencing gate\<close>

text \<open>The gate is one word: 0 before the first fence, else the admitted epoch plus one.\<close>

type_synonym fence_state = u64

definition fence_new :: fence_state where
  "fence_new = 0"

definition decode_fence :: "u64 \<Rightarrow> bool \<times> u64" where
  "decode_fence stored = (if stored = 0 then (False, 0) else (True, stored - 1))"

definition fence_current :: "fence_state \<Rightarrow> u64" where
  "fence_current f = snd (decode_fence f)"

definition is_primed :: "fence_state \<Rightarrow> bool" where
  "is_primed f = fst (decode_fence f)"

definition admit_body :: "u64 \<Rightarrow> fence_state \<Rightarrow> (fence_state, bool) loop_exit" where
  "admit_body epoch cur =
     (let (primed, cur_epoch) = decode_fence cur
      in if primed \<and> epoch < cur_epoch then Return False
         else Cas (saturating_add (max epoch cur_epoch) 1) True)"

definition admit_op :: "u64 \<Rightarrow> (fence_state, bool) cell_op" where
  "admit_op epoch = Rmw (admit_body epoch)"

text \<open>\<open>admit\<close> run alone: the answer and the gate it leaves.\<close>

definition admit :: "u64 \<Rightarrow> fence_state \<Rightarrow> bool \<times> fence_state" where
  "admit epoch f = apply_op (admit_op epoch) f"

section \<open>The bounded queue\<close>

record sync_queue =
  sq_inner :: "sync_record list"
  sq_capacity :: nat
  sq_lagged :: bool
  sq_pushed :: u64
  sq_evicted :: u64
  sq_drained :: u64

record sync_queue_stats =
  stat_pushed :: u64
  stat_evicted :: u64
  stat_drained :: u64
  stat_depth :: nat
  stat_lagged :: bool

definition sync_queue_new :: "nat \<Rightarrow> sync_queue" where
  "sync_queue_new capacity =
     \<lparr>sq_inner = [], sq_capacity = max capacity 1, sq_lagged = False,
      sq_pushed = 0, sq_evicted = 0, sq_drained = 0\<rparr>"

text \<open>
  \<open>push\<close> counts before it takes the lock; \<open>drain\<close> and \<open>drain_with_lag\<close> count after they released it.
  The locked section of each is an operation of its own, so that other callers may run in between.
\<close>

definition count_push :: "sync_queue \<Rightarrow> sync_queue" where
  "count_push q = q\<lparr>sq_pushed := sq_pushed q + 1\<rparr>"

definition push_locked :: "sync_record \<Rightarrow> sync_queue \<Rightarrow> sync_queue" where
  "push_locked r q =
     (let q1 = (if sq_capacity q \<le> length (sq_inner q)
                then q\<lparr>sq_inner := tl (sq_inner q), sq_evicted := sq_evicted q + 1, sq_lagged := True\<rparr>
                else q)
      in q1\<lparr>sq_inner := sq_inner q1 @ [r]\<rparr>)"

definition push :: "sync_record \<Rightarrow> sync_queue \<Rightarrow> sync_queue" where
  "push r q = push_locked r (count_push q)"

definition drain_locked :: "nat \<Rightarrow> sync_queue \<Rightarrow> sync_record list \<times> sync_queue" where
  "drain_locked m q =
     (let n = min (length (sq_inner q)) m
      in (take n (sq_inner q), q\<lparr>sq_inner := drop n (sq_inner q)\<rparr>))"

definition count_drained :: "nat \<Rightarrow> sync_queue \<Rightarrow> sync_queue" where
  "count_drained n q = q\<lparr>sq_drained := sq_drained q + of_nat n\<rparr>"

definition drain :: "nat \<Rightarrow> sync_queue \<Rightarrow> sync_record list \<times> sync_queue" where
  "drain m q = (let (out, q1) = drain_locked m q in (out, count_drained (length out) q1))"

definition take_lag_locked :: "nat \<Rightarrow> sync_queue \<Rightarrow> (bool \<times> sync_record list) \<times> sync_queue" where
  "take_lag_locked m q =
     (let (out, q1) = drain_locked m (q\<lparr>sq_lagged := False\<rparr>) in ((sq_lagged q, out), q1))"

definition drain_with_lag :: "nat \<Rightarrow> sync_queue \<Rightarrow> (bool \<times> sync_record list) \<times> sync_queue" where
  "drain_with_lag m q =
     (let ((lagged, out), q1) = take_lag_locked m q
      in ((lagged, out), count_drained (length out) q1))"

definition mark_lagged :: "sync_queue \<Rightarrow> sync_queue" where
  "mark_lagged q = q\<lparr>sq_lagged := True\<rparr>"

definition reset_lagged :: "sync_queue \<Rightarrow> sync_queue" where
  "reset_lagged q = q\<lparr>sq_lagged := False\<rparr>"

definition depth :: "sync_queue \<Rightarrow> nat" where
  "depth q = length (sq_inner q)"

definition is_lagged :: "sync_queue \<Rightarrow> bool" where
  "is_lagged q = sq_lagged q"

definition queue_stats :: "sync_queue \<Rightarrow> sync_queue_stats" where
  "queue_stats q =
     \<lparr>stat_pushed = sq_pushed q, stat_evicted = sq_evicted q, stat_drained = sq_drained q,
      stat_depth = depth q, stat_lagged = is_lagged q\<rparr>"

section \<open>Framing\<close>

text \<open>
  The codec and the streams. An I/O error has its kind (is it \<open>UnexpectedEof\<close>?) and its message.
  A write may fail after part of the buffer went out; a read of \<open>n\<close> bytes gives all of them or fails.
\<close>

record codec =
  to_vec_named :: "sync_record \<Rightarrow> string + bytes"
  from_slice :: "bytes \<Rightarrow> string + sync_record"

record io_error =
  io_eof :: bool
  io_message :: string

record 'w writer_ops =
  write_all :: "bytes \<Rightarrow> 'w \<Rightarrow> (io_error + unit) \<times> 'w"
  flush_writer :: "'w \<Rightarrow> (io_error + unit) \<times> 'w"

record 'r reader_ops =
  read_exact :: "nat \<Rightarrow> 'r \<Rightarrow> (io_error + bytes) \<times> 'r"

definition encode_frame :: "codec \<Rightarrow> sync_record \<Rightarrow> ha_error + bytes" where
  "encode_frame c r =
     and_then (map_err Encode (to_vec_named c r)) (\<lambda>body.
       if length body < 2 ^ 32 \<and> length body \<le> max_frame_len
       then Inr (be32 (of_nat (length body)) @ body)
       else Inl (FrameTooLarge (length body) max_frame_len))"

fun be32_len :: "bytes \<Rightarrow> nat" where
  "be32_len [a, b, c, d] = unat (from_be32 a b c d)"
| "be32_len _ = 0"

definition read_frame ::
  "codec \<Rightarrow> 'r reader_ops \<Rightarrow> 'r \<Rightarrow> (ha_error + sync_record option) \<times> 'r" where
  "read_frame c ops rd =
     (case read_exact ops 4 rd of
        (Inl e, rd1) \<Rightarrow>
          (if io_eof e then Inr None else Inl (Socket (''read length: '' @ io_message e)), rd1)
      | (Inr len_buf, rd1) \<Rightarrow>
          (let len = be32_len len_buf
           in if max_frame_len < len then (Inl (FrameTooLarge len max_frame_len), rd1)
              else (case read_exact ops len rd1 of
                      (Inl e, rd2) \<Rightarrow>
                        (Inl (Socket (''read body ('' @ decimal len @ '' bytes): '' @ io_message e)), rd2)
                    | (Inr body, rd2) \<Rightarrow>
                        (and_then (map_err Decode (from_slice c body)) (\<lambda>r. Inr (Some r)), rd2))))"

section \<open>The appliers\<close>

type_synonym 'a applier = "sync_record \<Rightarrow> 'a \<Rightarrow> (ha_error + unit) \<times> 'a"

type_synonym static_state_applier = "sync_record list"

definition static_state_applier_new :: static_state_applier where
  "static_state_applier_new = []"

definition static_apply :: "static_state_applier applier" where
  "static_apply r applied = (Inr (), applied @ [r])"

section \<open>The pumps\<close>

definition write_frame ::
  "codec \<Rightarrow> 'w writer_ops \<Rightarrow> string \<Rightarrow> sync_record \<Rightarrow> 'w \<Rightarrow> (ha_error + unit) \<times> 'w" where
  "write_frame c ops what r w =
     (case encode_frame c r of
        Inl e \<Rightarrow> (Inl e, w)
      | Inr frame \<Rightarrow>
          (case write_all ops frame w of
             (Inl e, w1) \<Rightarrow> (Inl (Socket (what @ io_message e)), w1)
           | (Inr _, w1) \<Rightarrow> (Inr (), w1)))"

fun write_records ::
  "codec \<Rightarrow> 'w writer_ops \<Rightarrow> sync_record list \<Rightarrow> nat \<Rightarrow> 'w \<Rightarrow> (ha_error + nat) \<times> 'w" where
  "write_records c ops [] written w = (Inr written, w)"
| "write_records c ops (r # rs) written w =
     (case write_frame c ops ''write record: '' r w of
        (Inl e, w1) \<Rightarrow> (Inl e, w1)
      | (Inr _, w1) \<Rightarrow> write_records c ops rs (Suc written) w1)"

text \<open>The fallible block of \<open>pump_to_writer\<close>: the fence, the lag marker, the records, the flush.\<close>

definition write_batch ::
  "codec \<Rightarrow> 'w writer_ops \<Rightarrow> u64 \<Rightarrow> bool \<Rightarrow> sync_record list \<Rightarrow> 'w \<Rightarrow> (ha_error + nat) \<times> 'w" where
  "write_batch c ops epoch lagged records w =
     (case write_frame c ops ''write fence marker: '' (Fence epoch) w of
        (Inl e, w1) \<Rightarrow> (Inl e, w1)
      | (Inr _, w1) \<Rightarrow>
          (case (if lagged then write_frame c ops ''write lagged marker: '' Lagged w1 else (Inr (), w1)) of
             (Inl e, w2) \<Rightarrow> (Inl e, w2)
           | (Inr _, w2) \<Rightarrow>
               (case write_records c ops records 0 w2 of
                  (Inl e, w3) \<Rightarrow> (Inl e, w3)
                | (Inr written, w3) \<Rightarrow>
                    (case flush_writer ops w3 of
                       (Inl e, w4) \<Rightarrow> (Inl (Socket (''flush: '' @ io_message e)), w4)
                     | (Inr _, w4) \<Rightarrow> (Inr written, w4)))))"

definition pump_send ::
  "codec \<Rightarrow> 'w writer_ops \<Rightarrow> u64 \<Rightarrow> bool \<Rightarrow> sync_record list \<Rightarrow> 'w \<Rightarrow> (ha_error + nat) \<times> 'w" where
  "pump_send c ops epoch lagged records w =
     (if records = [] then (Inr 0, w) else write_batch c ops epoch lagged records w)"

text \<open>What the pump does to the queue once the outcome of the flush is known.\<close>

definition pump_settle ::
  "bool \<Rightarrow> sync_record list \<Rightarrow> ha_error + nat \<Rightarrow> sync_queue \<Rightarrow> sync_queue" where
  "pump_settle lagged records res q =
     (if records = [] then (if lagged then mark_lagged q else q)
      else case res of Inr _ \<Rightarrow> q | Inl _ \<Rightarrow> mark_lagged q)"

definition pump_to_writer ::
  "codec \<Rightarrow> 'w writer_ops \<Rightarrow> nat \<Rightarrow> u64 \<Rightarrow> sync_queue \<times> 'w \<Rightarrow> (ha_error + nat) \<times> sync_queue \<times> 'w" where
  "pump_to_writer c ops batch epoch s =
     (let (q, w) = s;
          ((lagged, records), q1) = drain_with_lag batch q;
          (res, w1) = pump_send c ops epoch lagged records w
      in (res, pump_settle lagged records res q1, w1))"

text \<open>
  The receive loop runs until the stream ends, so it may run forever; the local \<open>count\<close> is an
  argument.
\<close>

partial_function (option) receive_loop ::
  "codec \<Rightarrow> 'r reader_ops \<Rightarrow> 'a applier \<Rightarrow> nat \<Rightarrow> 'r \<times> 'a \<times> fence_state
     \<Rightarrow> ((ha_error + nat) \<times> 'r \<times> 'a \<times> fence_state) option" where
  "receive_loop c ops ap count s =
     (let (rd, a, f) = s in
      case read_frame c ops rd of
        (Inl e, rd1) \<Rightarrow> Some (Inl e, rd1, a, f)
      | (Inr None, rd1) \<Rightarrow> Some (Inr count, rd1, a, f)
      | (Inr (Some r), rd1) \<Rightarrow>
          (case r of
             Fence epoch \<Rightarrow>
               (let (ok, f1) = admit epoch f in
                if \<not> ok then Some (Inl (Fenced epoch (fence_current f1)), rd1, a, f1)
                else receive_loop c ops ap count (rd1, a, f1))
           | _ \<Rightarrow>
               if \<not> is_primed f then Some (Inl (Fenced 0 (fence_current f)), rd1, a, f)
               else (case ap r a of
                       (Inl e, a1) \<Rightarrow> Some (Inl e, rd1, a1, f)
                     | (Inr _, a1) \<Rightarrow>
                         receive_loop c ops ap (if r = Lagged then count else count + 1) (rd1, a1, f))))"

definition pump_from_reader ::
  "codec \<Rightarrow> 'r reader_ops \<Rightarrow> 'a applier \<Rightarrow> 'r \<times> 'a \<times> fence_state
     \<Rightarrow> ((ha_error + nat) \<times> 'r \<times> 'a \<times> fence_state) option" where
  "pump_from_reader c ops ap s = receive_loop c ops ap 0 s"

section \<open>What the pumps rely on\<close>

text \<open>A write gives the peer the whole buffer or a prefix of it; a flush adds nothing.\<close>

locale byte_sink =
  fixes ops :: "'w writer_ops" and sent :: "'w \<Rightarrow> bytes"
  assumes write_ok: "write_all ops b w = (Inr u, w') \<Longrightarrow> sent w' = sent w @ b"
    and write_err: "write_all ops b w = (Inl e, w') \<Longrightarrow> \<exists>p. prefix p b \<and> sent w' = sent w @ p"
    and flush_keeps: "flush_writer ops w = (res, w') \<Longrightarrow> sent w' = sent w"

text \<open>
  A stream that ends after the bytes it holds: reading as many bytes as it has left gives the first
  of them, reading more fails with the error the stream ends with.
\<close>

locale byte_source =
  fixes ops :: "'r reader_ops" and pending :: "'r \<Rightarrow> bytes" and ending :: "'r \<Rightarrow> io_error"
  assumes read_enough: "n \<le> length (pending rd) \<Longrightarrow>
      \<exists>rd'. read_exact ops n rd = (Inr (take n (pending rd)), rd')
        \<and> pending rd' = drop n (pending rd) \<and> ending rd' = ending rd"
    and read_short: "length (pending rd) < n \<Longrightarrow> \<exists>rd'. read_exact ops n rd = (Inl (ending rd), rd')"

text \<open>The serde contract of the codec: what was encoded decodes to itself.\<close>

definition codec_round_trips :: "codec \<Rightarrow> bool" where
  "codec_round_trips c \<longleftrightarrow> (\<forall>r b. to_vec_named c r = Inr b \<longrightarrow> from_slice c b = Inr r)"

text \<open>The frame a record encodes to (empty when it has none).\<close>

definition frame_of :: "codec \<Rightarrow> sync_record \<Rightarrow> bytes" where
  "frame_of c r = (case encode_frame c r of Inr b \<Rightarrow> b | Inl _ \<Rightarrow> [])"

definition encodable :: "codec \<Rightarrow> sync_record \<Rightarrow> bool" where
  "encodable c r \<longleftrightarrow> (\<exists>b. encode_frame c r = Inr b)"

fun is_flow_state :: "sync_record \<Rightarrow> bool" where
  "is_flow_state Lagged = False"
| "is_flow_state (Fence _) = False"
| "is_flow_state _ = True"

text \<open>The records of one flush, in the order in which they go out.\<close>

definition batch_records :: "u64 \<Rightarrow> bool \<Rightarrow> sync_record list \<Rightarrow> sync_record list" where
  "batch_records epoch lagged records = Fence epoch # (if lagged then [Lagged] else []) @ records"

text \<open>What a receiver makes of a sequence of records: the specification of the receive loop.\<close>

fun apply_stream ::
  "'a applier \<Rightarrow> sync_record list \<Rightarrow> nat \<Rightarrow> 'a \<times> fence_state \<Rightarrow> (ha_error + nat) \<times> 'a \<times> fence_state" where
  "apply_stream ap [] count (a, f) = (Inr count, a, f)"
| "apply_stream ap (Fence epoch # rs) count (a, f) =
     (if is_primed f \<and> epoch < fence_current f then (Inl (Fenced epoch (fence_current f)), a, f)
      else apply_stream ap rs count (a, saturating_add (max epoch (fence_current f)) 1))"
| "apply_stream ap (r # rs) count (a, f) =
     (if \<not> is_primed f then (Inl (Fenced 0 (fence_current f)), a, f)
      else case ap r a of
        (Inl e, a1) \<Rightarrow> (Inl e, a1, f)
      | (Inr _, a1) \<Rightarrow> apply_stream ap rs (if is_flow_state r then count + 1 else count) (a1, f))"

section \<open>The gate\<close>

lemma admit_eq:
  "admit epoch f =
     (if is_primed f \<and> epoch < fence_current f then (False, f)
      else (True, saturating_add (max epoch (fence_current f)) 1))"
  by (simp add: admit_def admit_op_def admit_body_def is_primed_def fence_current_def
      split: prod.split)

lemma saturating_add_one_pos: "0 < unat (saturating_add w (1 :: u64))"
  by (simp add: unat_saturating_add)

lemma is_primed_iff: "is_primed f \<longleftrightarrow> f \<noteq> 0"
  by (simp add: is_primed_def decode_fence_def)

lemma unat_fence_current: "unat (fence_current f) = unat f - 1"
  by (auto simp: fence_current_def decode_fence_def unat_minus_one)

lemma admit_primes: "is_primed (saturating_add w 1)"
  using saturating_add_one_pos [of w] by (auto simp: is_primed_iff)

lemma unat_max_u64: "unat (max a (b :: u64)) = max (unat a) (unat b)"
  by (simp add: max_def word_le_nat_alt)

lemma unat_admitted:
  "unat (saturating_add (max e (fence_current f)) 1) =
     min (max (unat e) (unat f - 1) + 1) (2 ^ 64 - 1)"
  by (simp add: unat_saturating_add unat_max_u64 unat_fence_current)

lemma admit_grows: "admit e f = (ok, f') \<Longrightarrow> f \<le> f'"
proof -
  assume a: "admit e f = (ok, f')"
  have "unat f < 2 ^ 64" using unsigned_less [of f] by simp
  then show ?thesis using a
    by (auto simp: admit_eq word_le_nat_alt unat_admitted split: if_splits)
qed

lemma fence_current_not_max: "fence_current f \<noteq> - 1"
proof
  assume "fence_current f = - 1"
  then have "unat f - 1 = unat (- 1 :: u64)" using unat_fence_current [of f] by simp
  moreover have "unat f < 2 ^ 64" using unsigned_less [of f] by simp
  ultimately show False by (simp add: unat_max_word)
qed

lemma admit_current:
  assumes "admit e f = (True, f')" "e \<noteq> - 1"
  shows "fence_current f' = max e (fence_current f)"
proof -
  have "max e (fence_current f) \<noteq> - 1" using assms(2) fence_current_not_max by (simp add: max_def)
  then show ?thesis using assms(1)
    by (auto simp: admit_eq word_unat_eq_iff unat_fence_current unat_saturating_add_one split: if_splits)
qed

subsection \<open>Concurrent callers\<close>

interpretation fence_gate: growing_cell "(\<le>)" "\<lambda>t. admit_op (epoch t)" for epoch :: "nat \<Rightarrow> u64"
proof
  fix v :: u64 and t
  show "v \<le> snd (apply_op (admit_op (epoch t)) v)"
    using admit_grows [of "epoch t" v] by (metis admit_def prod.collapse)
qed auto

text \<open>The admitted callers of a history, in the order in which they took effect.\<close>

definition admitted_epochs :: "(nat \<Rightarrow> u64) \<Rightarrow> (nat \<times> bool) list \<Rightarrow> u64 list" where
  "admitted_epochs epoch h = map (epoch \<circ> fst) (filter snd h)"

lemma admitted_sorted:
  assumes "legal (\<lambda>t. admit_op (epoch t)) f h" "\<forall>t. epoch t \<noteq> - 1"
  shows "sorted (admitted_epochs epoch h)
    \<and> (is_primed f \<longrightarrow> (\<forall>e \<in> set (admitted_epochs epoch h). fence_current f \<le> e))"
  using assms(1)
proof (induction h arbitrary: f)
  case (Cons p h)
  obtain t r where p: "p = (t, r)" by (cases p)
  obtain f' where adm: "admit (epoch t) f = (r, f')" and leg: "legal (\<lambda>t. admit_op (epoch t)) f' h"
    using Cons.prems by (auto simp: p admit_def prod_eq_iff)
  show ?case
  proof (cases r)
    case True
    have "is_primed f'" using adm True by (auto simp: admit_eq admit_primes split: if_splits)
    moreover have "fence_current f' = max (epoch t) (fence_current f)"
      using admit_current [of "epoch t" f f'] adm True assms(2) by simp
    moreover have "is_primed f \<Longrightarrow> fence_current f \<le> epoch t"
      using adm True by (auto simp: admit_eq split: if_splits)
    ultimately show ?thesis using Cons.IH [OF leg] by (auto simp: admitted_epochs_def p True)
  next
    case False
    then have "f' = f" using adm by (auto simp: admit_eq split: if_splits)
    then show ?thesis using Cons.IH [OF leg] False by (simp add: admitted_epochs_def p)
  qed
qed (simp add: admitted_epochs_def)

lemma gate_holds_an_admitted_epoch:
  assumes "legal (\<lambda>t. admit_op (epoch t)) fence_new h" "\<forall>t. epoch t \<noteq> - 1"
    "is_primed (replay (\<lambda>t. admit_op (epoch t)) fence_new h)"
  shows "fence_current (replay (\<lambda>t. admit_op (epoch t)) fence_new h) \<in> set (admitted_epochs epoch h)"
  using assms(1,3)
proof (induction h rule: rev_induct)
  case (snoc p h)
  obtain t r where p: "p = (t, r)" by (cases p)
  let ?f = "replay (\<lambda>t. admit_op (epoch t)) fence_new h"
  obtain f' where adm: "admit (epoch t) ?f = (r, f')"
    and last: "replay (\<lambda>t. admit_op (epoch t)) fence_new (h @ [p]) = f'"
    using snoc.prems by (auto simp: p admit_def prod_eq_iff legal_append replay_append)
  have leg: "legal (\<lambda>t. admit_op (epoch t)) fence_new h" using snoc.prems by (simp add: legal_append)
  show ?case
  proof (cases r)
    case True
    have cur: "fence_current f' = max (epoch t) (fence_current ?f)"
      using admit_current [of "epoch t" ?f f'] adm True assms(2) by simp
    show ?thesis
    proof (cases "is_primed ?f")
      case primed: True
      then have "epoch t \<ge> fence_current ?f" using adm True by (auto simp: admit_eq split: if_splits)
      then show ?thesis using cur last True by (simp add: admitted_epochs_def p max_def)
    next
      case False
      then have "fence_current ?f = 0" by (simp add: is_primed_def fence_current_def decode_fence_def split: if_splits)
      then show ?thesis using cur last True by (simp add: admitted_epochs_def p)
    qed
  next
    case False
    then have "f' = ?f" using adm by (auto simp: admit_eq split: if_splits)
    then show ?thesis using snoc.IH [OF leg] snoc.prems last False by (simp add: admitted_epochs_def p)
  qed
qed (simp add: is_primed_iff fence_new_def)

lemma refused_has_higher_admitted:
  assumes "legal (\<lambda>t. admit_op (epoch t)) fence_new h" "\<forall>t. epoch t \<noteq> - 1" "(t, False) \<in> set h"
  shows "\<exists>e \<in> set (admitted_epochs epoch h). epoch t < e"
proof -
  obtain h1 h2 where h: "h = h1 @ (t, False) # h2" using assms(3) by (meson split_list)
  let ?f = "replay (\<lambda>t. admit_op (epoch t)) fence_new h1"
  have leg: "legal (\<lambda>t. admit_op (epoch t)) fence_new h1" and ref: "fst (admit (epoch t) ?f) = False"
    using assms(1) by (simp_all add: h legal_append admit_def)
  have "is_primed ?f \<and> epoch t < fence_current ?f" using ref by (auto simp: admit_eq split: if_splits)
  then show ?thesis
    using gate_holds_an_admitted_epoch [OF leg assms(2)] by (auto simp: h admitted_epochs_def)
qed

lemma admitted_below_gate:
  assumes "linearized fence_new (\<lambda>t. admit_op (epoch t)) s" "threads s t = Done True" "epoch t \<noteq> - 1"
  shows "epoch t \<le> fence_current (cell s)"
proof -
  have "saturating_add (epoch t) 1 \<le> replay (\<lambda>t. admit_op (epoch t)) fence_new (history s)"
  proof (rule fence_gate.result_bounds_replay)
    show "(t, True) \<in> set (history s)" by (rule linearizedD(3) [OF assms(1,2)])
    show "legal (\<lambda>t. admit_op (epoch t)) fence_new (history s)" by (rule linearizedD(4) [OF assms(1)])
  next
    fix u assume "fst (apply_op (admit_op (epoch t)) u) = True"
    then have "snd (admit (epoch t) u) = saturating_add (max (epoch t) (fence_current u)) 1"
      by (auto simp: admit_eq admit_def [symmetric] split: if_splits)
    then show "saturating_add (epoch t) 1 \<le> snd (apply_op (admit_op (epoch t)) u)"
      by (simp add: admit_def [symmetric] saturating_add_mono)
  qed
  then have "saturating_add (epoch t) 1 \<le> cell s" using linearizedD(5) [OF assms(1)] by simp
  then show ?thesis
    using assms(3) by (simp add: word_le_nat_alt unat_saturating_add_one unat_fence_current)
qed

section \<open>Framing\<close>

lemma length_be32 [simp]: "length (be32 w) = 4"
  by (simp add: be32_def)

lemma be32_len_be32 [simp]: "be32_len (be32 w) = unat w"
  by (simp add: be32_def)

lemma encode_frame_Inr:
  "encode_frame c r = Inr b \<longleftrightarrow>
     (\<exists>body. to_vec_named c r = Inr body \<and> length body \<le> max_frame_len
        \<and> b = be32 (of_nat (length body)) @ body)"
  by (auto simp: encode_frame_def and_then_Inr max_frame_len_def)

lemma encodable_frame: "encodable c r \<longleftrightarrow> encode_frame c r = Inr (frame_of c r)"
  by (auto simp: encodable_def frame_of_def)

lemma unat_of_nat_u32: "n \<le> max_frame_len \<Longrightarrow> unat (of_nat n :: u32) = n"
  by (rule unat_of_nat_less) (simp add: max_frame_len_def)

section \<open>The receive loop\<close>

context byte_source
begin

lemma read_frame_of_frame:
  assumes "codec_round_trips c" "encode_frame c r = Inr b" "pending rd = b @ rest"
  shows "\<exists>rd'. read_frame c ops rd = (Inr (Some r), rd') \<and> pending rd' = rest \<and> ending rd' = ending rd"
proof -
  obtain body where body: "to_vec_named c r = Inr body" "length body \<le> max_frame_len"
    and b: "b = be32 (of_nat (length body)) @ body"
    using assms(2) by (auto simp: encode_frame_Inr)
  have dec: "from_slice c body = Inr r" using assms(1) body(1) by (simp add: codec_round_trips_def)
  have len: "unat (of_nat (length body) :: u32) = length body" using body(2) by (rule unat_of_nat_u32)
  obtain rd1 where rd1: "read_exact ops 4 rd = (Inr (be32 (of_nat (length body))), rd1)"
    "pending rd1 = body @ rest" "ending rd1 = ending rd"
    using read_enough [of 4 rd] assms(3) b by auto
  obtain rd2 where rd2: "read_exact ops (length body) rd1 = (Inr body, rd2)"
    "pending rd2 = rest" "ending rd2 = ending rd1"
    using read_enough [of "length body" rd1] rd1(2) by auto
  show ?thesis using rd1 rd2 body(2) dec len by (simp add: read_frame_def)
qed

lemma read_frame_at_end:
  assumes "pending rd = []" "io_eof (ending rd)"
  shows "\<exists>rd'. read_frame c ops rd = (Inr None, rd')"
  using read_short [of rd 4] assms by (auto simp: read_frame_def)

lemma read_frame_consumes:
  assumes "read_frame c ops rd = (Inr (Some r), rd')"
  shows "length (pending rd') < length (pending rd)"
proof -
  have "4 \<le> length (pending rd)"
    using read_short [of rd 4] assms
    by (cases "length (pending rd) < 4") (auto simp: read_frame_def split: if_splits)
  then obtain rd1 where rd1: "read_exact ops 4 rd = (Inr (take 4 (pending rd)), rd1)"
    "pending rd1 = drop 4 (pending rd)" using read_enough by blast
  let ?n = "be32_len (take 4 (pending rd))"
  have "?n \<le> length (pending rd1)"
    using read_short [of rd1 ?n] assms rd1
    by (cases "length (pending rd1) < ?n") (auto simp: read_frame_def Let_def split: if_splits)
  then obtain rd2 where "read_exact ops ?n rd1 = (Inr (take ?n (pending rd1)), rd2)"
    "pending rd2 = drop ?n (pending rd1)" using read_enough by blast
  then show ?thesis using assms rd1 \<open>4 \<le> length (pending rd)\<close>
    by (auto simp: read_frame_def Let_def split: if_splits)
qed

text \<open>On a stream that ends, the loop returns, whatever the bytes are.\<close>

lemma receive_loop_returns: "\<exists>y. receive_loop c ops ap count (rd, a, f) = Some y"
proof (induction "length (pending rd)" arbitrary: count rd a f rule: less_induct)
  case less
  obtain res rd1 where frame: "read_frame c ops rd = (res, rd1)" by fastforce
  consider (err) e where "res = Inl e" | (eof) "res = Inr None" | (rec) r where "res = Inr (Some r)"
    by (metis option.exhaust sum.exhaust)
  then show ?case
  proof cases
    case (rec r)
    then have "length (pending rd1) < length (pending rd)" using frame read_frame_consumes by simp
    then have "\<exists>y. receive_loop c ops ap k (rd1, b, g) = Some y" for k b g by (rule less)
    then show ?thesis using frame rec
      by (subst receive_loop.simps) (auto split: sync_record.split prod.split sum.split)
  qed (use frame in \<open>simp_all add: receive_loop.simps\<close>)
qed

text \<open>On the frames of a sequence of records, the loop is the specification.\<close>

lemma receive_loop_of_frames:
  assumes "codec_round_trips c" "\<forall>r \<in> set rs. encodable c r"
    "pending rd = concat (map (frame_of c) rs)" "io_eof (ending rd)"
  shows "\<exists>rd'. receive_loop c ops ap count (rd, a, f) =
    Some (fst (apply_stream ap rs count (a, f)), rd', snd (apply_stream ap rs count (a, f)))"
  using assms(2-)
proof (induction rs arbitrary: count rd a f)
  case Nil
  then obtain rd' where "read_frame c ops rd = (Inr None, rd')" using read_frame_at_end by auto
  then show ?case by (simp add: receive_loop.simps)
next
  case (Cons r rs)
  obtain rd1 where frame: "read_frame c ops rd = (Inr (Some r), rd1)"
    and rd1: "pending rd1 = concat (map (frame_of c) rs)" "ending rd1 = ending rd"
    using read_frame_of_frame [OF assms(1), of r "frame_of c r" rd] Cons.prems by (auto simp: encodable_frame)
  have IH: "\<exists>rd'. receive_loop c ops ap k (rd1, b, g) =
      Some (fst (apply_stream ap rs k (b, g)), rd', snd (apply_stream ap rs k (b, g)))" for k b g
    by (rule Cons.IH) (use Cons.prems rd1 in simp_all)
  obtain x a1 where "ap r a = (x, a1)" by fastforce
  then show ?case
    by (cases r; cases x; subst receive_loop.simps) (use IH in \<open>auto simp: frame admit_eq\<close>)
qed

lemma read_frame_truncated:
  assumes "encode_frame c r = Inr b" "pending rd = take k b" "k < length b"
  shows "\<exists>res rd'. read_frame c ops rd = (res, rd') \<and> (\<forall>x. res \<noteq> Inr (Some x))"
proof -
  obtain body where body: "length body \<le> max_frame_len" "b = be32 (of_nat (length body)) @ body"
    using assms(1) by (auto simp: encode_frame_Inr)
  have len: "unat (of_nat (length body) :: u32) = length body" using body(1) by (rule unat_of_nat_u32)
  show ?thesis
  proof (cases "k < 4")
    case True
    then have "length (pending rd) < 4" using assms(2) by simp
    then show ?thesis using read_short [of rd 4] by (auto simp: read_frame_def)
  next
    case False
    then obtain rd1 where rd1: "read_exact ops 4 rd = (Inr (be32 (of_nat (length body))), rd1)"
      "pending rd1 = take (k - 4) body"
      using read_enough [of 4 rd] assms(2,3) body(2) by (auto simp: min_def)
    then have "length (pending rd1) < length body" using assms(3) body(2) False by simp
    then show ?thesis
      using read_short [of rd1 "length body"] rd1(1) body(1) by (auto simp: read_frame_def len)
  qed
qed

end

section \<open>The transmit side\<close>

context byte_sink
begin

lemma write_frame_ok:
  assumes "write_frame c ops what r w = (Inr u, w')"
  shows "encodable c r \<and> sent w' = sent w @ frame_of c r"
  using assms write_ok
  by (auto simp: write_frame_def encodable_def frame_of_def split: sum.splits prod.splits)

lemma write_frame_err:
  assumes "write_frame c ops what r w = (Inl e, w')"
  shows "\<exists>p. prefix p (frame_of c r) \<and> sent w' = sent w @ p"
proof (cases "encode_frame c r")
  case (Inl e')
  then show ?thesis using assms by (simp add: write_frame_def)
next
  case (Inr b)
  then have "\<exists>e'. write_all ops b w = (Inl e', w')"
    using assms by (auto simp: write_frame_def split: sum.splits prod.splits)
  then show ?thesis using write_err Inr by (auto simp: frame_of_def)
qed

lemma write_records_ok:
  assumes "write_records c ops rs n w = (Inr m, w')"
  shows "(\<forall>r \<in> set rs. encodable c r) \<and> m = n + length rs
    \<and> sent w' = sent w @ concat (map (frame_of c) rs)"
  using assms
proof (induction rs arbitrary: n w)
  case (Cons r rs)
  obtain w1 where "write_frame c ops ''write record: '' r w = (Inr (), w1)"
    and "write_records c ops rs (Suc n) w1 = (Inr m, w')"
    using Cons.prems by (auto split: sum.splits prod.splits)
  then show ?case using Cons.IH [of "Suc n" w1] write_frame_ok by auto
qed simp

lemma write_records_err:
  assumes "write_records c ops rs n w = (Inl e, w')"
  shows "\<exists>p. prefix p (concat (map (frame_of c) rs)) \<and> sent w' = sent w @ p"
  using assms
proof (induction rs arbitrary: n w)
  case (Cons r rs)
  obtain res w1 where wf: "write_frame c ops ''write record: '' r w = (res, w1)" by fastforce
  show ?case
  proof (cases res)
    case (Inl e1)
    then have "write_frame c ops ''write record: '' r w = (Inl e, w')" using Cons.prems wf by simp
    then show ?thesis using write_frame_err prefix_append by fastforce
  next
    case (Inr u)
    then have w1: "sent w1 = sent w @ frame_of c r" using wf write_frame_ok by blast
    have "write_records c ops rs (Suc n) w1 = (Inl e, w')" using Cons.prems wf Inr by simp
    then obtain p where "prefix p (concat (map (frame_of c) rs))" "sent w' = sent w1 @ p"
      using Cons.IH by blast
    then show ?thesis using w1 by (intro exI [of _ "frame_of c r @ p"]) simp
  qed
qed simp

text \<open>A batch that goes out is its frames, fence first; one that fails is a prefix of them.\<close>

lemma write_batch_ok:
  assumes "write_batch c ops epoch lagged rs w = (Inr n, w')"
  shows "(\<forall>r \<in> set (batch_records epoch lagged rs). encodable c r) \<and> n = length rs
    \<and> sent w' = sent w @ concat (map (frame_of c) (batch_records epoch lagged rs))"
  using assms
  by (auto simp: write_batch_def batch_records_def split: sum.splits prod.splits if_splits
      dest!: write_frame_ok write_records_ok flush_keeps)

lemma write_batch_err:
  assumes "write_batch c ops epoch lagged rs w = (Inl e, w')"
  shows "\<exists>p. prefix p (concat (map (frame_of c) (batch_records epoch lagged rs))) \<and> sent w' = sent w @ p"
  using assms
  by (auto simp: write_batch_def batch_records_def prefix_append
      split: sum.splits prod.splits if_splits
      dest!: write_frame_ok write_frame_err write_records_ok write_records_err flush_keeps)

lemma pump_send_prefix:
  assumes "pump_send c ops epoch lagged rs w = (res, w')"
  shows "\<exists>p. prefix p (concat (map (frame_of c) (batch_records epoch lagged rs))) \<and> sent w' = sent w @ p"
  using assms write_batch_ok write_batch_err
  by (cases res) (fastforce simp: pump_send_def split: if_splits)+

end

section \<open>In-memory streams\<close>

text \<open>
  The in-memory pipe the crate's tests use in place of a socket: the write half accepts a number of
  bytes and then fails, the read half ends with a given error.
\<close>

record mem_writer =
  mw_sent :: bytes
  mw_room :: nat

record mem_reader =
  mr_bytes :: bytes
  mr_ending :: io_error

definition broken_pipe :: io_error where
  "broken_pipe = \<lparr>io_eof = False, io_message = ''broken pipe''\<rparr>"

definition early_eof :: io_error where
  "early_eof = \<lparr>io_eof = True, io_message = ''early eof''\<rparr>"

definition mem_writer_ops :: "mem_writer writer_ops" where
  "mem_writer_ops =
     \<lparr>write_all = (\<lambda>b w.
        if length b \<le> mw_room w
        then (Inr (), w\<lparr>mw_sent := mw_sent w @ b, mw_room := mw_room w - length b\<rparr>)
        else (Inl broken_pipe, w\<lparr>mw_sent := mw_sent w @ take (mw_room w) b, mw_room := 0\<rparr>)),
      flush_writer = (\<lambda>w. (Inr (), w))\<rparr>"

definition mem_reader_ops :: "mem_reader reader_ops" where
  "mem_reader_ops =
     \<lparr>read_exact = (\<lambda>n rd.
        if n \<le> length (mr_bytes rd)
        then (Inr (take n (mr_bytes rd)), rd\<lparr>mr_bytes := drop n (mr_bytes rd)\<rparr>)
        else (Inl (mr_ending rd), rd\<lparr>mr_bytes := []\<rparr>))\<rparr>"

text \<open>A growable byte vector is a write half that never fails.\<close>

definition vec_writer_ops :: "bytes writer_ops" where
  "vec_writer_ops = \<lparr>write_all = (\<lambda>b w. (Inr (), w @ b)), flush_writer = (\<lambda>w. (Inr (), w))\<rparr>"

interpretation vec_sink: byte_sink vec_writer_ops "\<lambda>w. w"
  by unfold_locales (auto simp: vec_writer_ops_def)

interpretation mem_sink: byte_sink mem_writer_ops mw_sent
  by unfold_locales (auto simp: mem_writer_ops_def take_is_prefix split: if_splits)

interpretation mem_source: byte_source mem_reader_ops mr_bytes mr_ending
  by unfold_locales (auto simp: mem_reader_ops_def)

section \<open>The channel end to end\<close>

lemma apply_stream_flow:
  assumes "is_primed f" "\<forall>r \<in> set rs. is_flow_state r"
  shows "apply_stream static_apply rs n (a, f) = (Inr (n + length rs), a @ rs, f)"
  using assms(2)
proof (induction rs arbitrary: n a)
  case (Cons r rs)
  then show ?case using assms(1) by (cases r) (simp_all add: static_apply_def)
qed simp

lemma apply_stream_batch:
  assumes "\<not> (is_primed f \<and> epoch < fence_current f)" "\<forall>r \<in> set rs. is_flow_state r"
  shows "apply_stream static_apply (batch_records epoch lagged rs) 0 (a, f) =
    (Inr (length rs), a @ (if lagged then [Lagged] else []) @ rs, snd (admit epoch f))"
  using assms
  by (auto simp: batch_records_def admit_eq static_apply_def admit_primes apply_stream_flow)

lemma drain_with_lag_eq:
  "drain_with_lag m q =
     ((sq_lagged q, take m (sq_inner q)),
      q\<lparr>sq_lagged := False, sq_inner := drop m (sq_inner q),
        sq_drained := sq_drained q + of_nat (min (length (sq_inner q)) m)\<rparr>)"
  by (simp add: drain_with_lag_def take_lag_locked_def drain_locked_def count_drained_def min_def)

lemma write_frame_reliable:
  assumes "encodable c r" "\<forall>b w. \<exists>u w'. write_all ops b w = (Inr u, w')"
  shows "\<exists>w'. write_frame c ops what r w = (Inr (), w')"
proof -
  obtain b where b: "encode_frame c r = Inr b" using assms(1) by (auto simp: encodable_def)
  obtain u w' where "write_all ops b w = (Inr u, w')" using assms(2) by blast
  then show ?thesis using b by (simp add: write_frame_def)
qed

lemma write_records_reliable:
  assumes "\<forall>r \<in> set rs. encodable c r" "\<forall>b w. \<exists>u w'. write_all ops b w = (Inr u, w')"
  shows "\<exists>w'. write_records c ops rs n w = (Inr (n + length rs), w')"
  using assms(1)
proof (induction rs arbitrary: n w)
  case (Cons r rs)
  obtain w1 where "write_frame c ops ''write record: '' r w = (Inr (), w1)"
    using write_frame_reliable [OF _ assms(2)] Cons.prems by fastforce
  then show ?case using Cons.IH [of "Suc n" w1] Cons.prems by simp
qed simp

lemma write_batch_reliable:
  assumes "\<forall>r \<in> set (batch_records epoch lagged rs). encodable c r"
    "\<forall>b w. \<exists>u w'. write_all ops b w = (Inr u, w')" "\<forall>w. \<exists>u w'. flush_writer ops w = (Inr u, w')"
  shows "\<exists>w'. write_batch c ops epoch lagged rs w = (Inr (length rs), w')"
proof -
  note wf = write_frame_reliable [OF _ assms(2)]
  obtain w1 where w1: "write_frame c ops ''write fence marker: '' (Fence epoch) w = (Inr (), w1)"
    using wf [of c "Fence epoch" "''write fence marker: ''" w] assms(1) by (auto simp: batch_records_def)
  obtain w2 where w2: "(if lagged then write_frame c ops ''write lagged marker: '' Lagged w1 else (Inr (), w1)) = (Inr (), w2)"
    using wf [of c Lagged "''write lagged marker: ''" w1] assms(1)
    by (cases lagged) (auto simp: batch_records_def)
  obtain w3 where w3: "write_records c ops rs 0 w2 = (Inr (length rs), w3)"
    using write_records_reliable [OF _ assms(2), of rs c 0 w2] assms(1) by (auto simp: batch_records_def)
  obtain u w4 where "flush_writer ops w3 = (Inr u, w4)" using assms(3) by blast
  then show ?thesis using w1 w2 w3 by (simp add: write_batch_def)
qed

lemma pump_to_writer_eq:
  "pump_to_writer c ops batch epoch (q, w) =
     (let rs = take batch (sq_inner q); (res, w') = pump_send c ops epoch (sq_lagged q) rs w
      in (res, pump_settle (sq_lagged q) rs res (snd (drain_with_lag batch q)), w'))"
  by (simp add: pump_to_writer_def drain_with_lag_eq Let_def split: prod.split)

lemma round_trip_of_batch:
  assumes "byte_sink wops sent" "byte_source rops pending ending" "codec_round_trips c"
    and "pump_send c wops epoch lagged rs w = (Inr n, w')" "\<forall>r \<in> set rs. is_flow_state r"
    and "is_primed f \<longrightarrow> fence_current f \<le> epoch"
    and "sent w' = sent w @ pending rd" "io_eof (ending rd)"
  shows "\<exists>rd'. pump_from_reader c rops static_apply (rd, applied, f) =
    (if rs = [] then Some (Inr 0, rd', applied, f)
     else Some (Inr (length rs), rd', applied @ (if lagged then [Lagged] else []) @ rs, snd (admit epoch f)))"
proof (cases "rs = []")
  case True
  then have "pending rd = []" using assms(4,7) by (simp add: pump_send_def)
  then show ?thesis
    using True byte_source.read_frame_at_end [OF assms(2) _ assms(8), of c]
    by (auto simp: pump_from_reader_def receive_loop.simps)
next
  case False
  let ?b = "batch_records epoch lagged rs"
  have "(\<forall>r \<in> set ?b. encodable c r) \<and> sent w' = sent w @ concat (map (frame_of c) ?b)"
    using byte_sink.write_batch_ok [OF assms(1)] assms(4) False by (simp add: pump_send_def)
  then obtain rd' where "receive_loop c rops static_apply 0 (rd, applied, f) =
      Some (fst (apply_stream static_apply ?b 0 (applied, f)), rd',
        snd (apply_stream static_apply ?b 0 (applied, f)))"
    using byte_source.receive_loop_of_frames [OF assms(2,3) _ _ assms(8)] assms(7) by fastforce
  then show ?thesis using False apply_stream_batch [of f epoch rs] assms(5,6)
    by (auto simp: pump_from_reader_def not_less)
qed

lemma prefix_take: "prefix p xs \<Longrightarrow> p = take (length p) xs"
  by (auto simp: prefix_def)

lemma stale_stream_applies_nothing:
  assumes "byte_source rops pending ending" "codec_round_trips c"
    and "is_primed f" "epoch < fence_current f"
    and "prefix (pending rd) (concat (map (frame_of c) (batch_records epoch lagged rs)))"
    and "encodable c (Fence epoch)"
  shows "\<exists>res rd'. pump_from_reader c rops ap (rd, a, f) = Some (res, rd', a, f) \<and>
    (length (frame_of c (Fence epoch)) \<le> length (pending rd) \<longrightarrow> res = Inl (Fenced epoch (fence_current f)))"
proof -
  let ?b = "frame_of c (Fence epoch)"
  have b: "encode_frame c (Fence epoch) = Inr ?b" using assms(6) by (simp add: encodable_frame)
  obtain rest where rest: "concat (map (frame_of c) (batch_records epoch lagged rs)) = ?b @ rest"
    by (simp add: batch_records_def)
  show ?thesis
  proof (cases "length ?b \<le> length (pending rd)")
    case True
    obtain z where "pending rd @ z = ?b @ rest" using assms(5) rest by (auto simp: prefix_def)
    from arg_cong [OF this, of "take (length ?b)"] have "take (length ?b) (pending rd) = ?b"
      using True by simp
    then have "pending rd = ?b @ drop (length ?b) (pending rd)" by (metis append_take_drop_id)
    then obtain rd1 where "read_frame c rops rd = (Inr (Some (Fence epoch)), rd1)"
      using byte_source.read_frame_of_frame [OF assms(1,2) b] by blast
    then show ?thesis using assms(3,4) True
      unfolding pump_from_reader_def by (subst receive_loop.simps) (simp add: admit_eq)
  next
    case False
    then have "pending rd = take (length (pending rd)) ?b"
      using prefix_take [OF assms(5)] rest by simp
    then obtain res rd1 where "read_frame c rops rd = (res, rd1)" "\<forall>x. res \<noteq> Inr (Some x)"
      using byte_source.read_frame_truncated [OF assms(1) b, of rd "length (pending rd)"] False by auto
    then show ?thesis using False unfolding pump_from_reader_def
      by (subst receive_loop.simps) (auto split: sum.split option.split)
  qed
qed

lemma pump_stream_prefix:
  assumes "byte_sink wops sent" "pump_to_writer c wops batch epoch (q, w) = (res, q', w')"
    "sent w' = sent w @ b"
  shows "prefix b (concat (map (frame_of c) (batch_records epoch (sq_lagged q) (take batch (sq_inner q)))))"
proof -
  have "pump_send c wops epoch (sq_lagged q) (take batch (sq_inner q)) w = (res, w')"
    using assms(2) by (auto simp: pump_to_writer_eq Let_def split: prod.splits)
  from byte_sink.pump_send_prefix [OF assms(1) this] show ?thesis using assms(3) by simp
qed

section \<open>A concrete channel\<close>

text \<open>A table-driven codec and a queue that evicted once, on which the properties are applied.\<close>

definition score_record :: "u64 \<Rightarrow> sync_record" where
  "score_record t = SdwanPathScore \<lparr>ps_path_id = ''mpls'', ps_score_bits = 0x41480000, ps_observed_at_unix_ms = t\<rparr>"

definition table_codec :: codec where
  "table_codec =
     (let table = [(Fence 3, [1]), (Fence 7, [2]), (Lagged, [3, 3]), (score_record 1, [4]), (score_record 2, [5, 0, 5])]
      in \<lparr>to_vec_named = (\<lambda>r. case map_of table r of Some b \<Rightarrow> Inr b | None \<Rightarrow> Inl ''unsupported''),
          from_slice = (\<lambda>b. case map_of (map prod.swap table) b of Some r \<Rightarrow> Inr r | None \<Rightarrow> Inl ''malformed'')\<rparr>)"

definition demo_queue :: sync_queue where
  "demo_queue = push (score_record 2) (push (score_record 1) (push (score_record 9) (sync_queue_new 2)))"

lemma table_codec_round_trips: "codec_round_trips table_codec"
  by (auto simp: codec_round_trips_def table_codec_def Let_def score_record_def split: if_splits)

lemma demo_queue_simps [simp]:
  "sq_inner demo_queue = [score_record 1, score_record 2]" "is_lagged demo_queue"
  by (simp_all add: demo_queue_def push_def push_locked_def count_push_def sync_queue_new_def is_lagged_def)

lemma table_codec_encodable:
  "r \<in> {Fence 3, Fence 7, Lagged, score_record 1, score_record 2} \<Longrightarrow> encodable table_codec r"
  by (auto simp: encodable_def encode_frame_def table_codec_def Let_def score_record_def max_frame_len_def)

section \<open>Properties\<close>

text \<open>
  Claim C6. What the active pumps the passive applies: over a transport that keeps the bytes, with a
  codec that decodes what it encoded, a flush of up to \<open>batch\<close> flow-state records succeeds, leaves the
  rest in the queue, and the receive pump on exactly those bytes returns the number of records the
  sender reported, having applied those records in queue order, preceded by the lag marker exactly
  when the queue had lagged; the gate has then admitted the sender's epoch. The lag latch survives
  only a flush that had nothing to send.
\<close>

theorem pump_round_trip:
  assumes "byte_sink wops sent" "byte_source rops pending ending" "codec_round_trips c"
    and "\<forall>b w. \<exists>u w'. write_all wops b w = (Inr u, w')" "\<forall>w. \<exists>u w'. flush_writer wops w = (Inr u, w')"
    and "\<forall>r \<in> set (batch_records epoch (is_lagged q) (sq_inner q)). encodable c r"
    and "\<forall>r \<in> set (sq_inner q). is_flow_state r"
    and "is_primed f \<longrightarrow> fence_current f \<le> epoch"
  shows "let rs = take batch (sq_inner q) in
    \<exists>q' w'. pump_to_writer c wops batch epoch (q, w) = (Inr (length rs), q', w')
      \<and> sq_inner q' = drop batch (sq_inner q) \<and> (is_lagged q' \<longleftrightarrow> is_lagged q \<and> rs = [])
      \<and> (\<forall>rd applied. sent w' = sent w @ pending rd \<and> io_eof (ending rd) \<longrightarrow>
          (\<exists>rd'. pump_from_reader c rops static_apply (rd, applied, f) =
            (if rs = [] then Some (Inr 0, rd', applied, f)
             else Some (Inr (length rs), rd',
               applied @ (if is_lagged q then [Lagged] else []) @ rs, snd (admit epoch f)))))"
proof -
  let ?rs = "take batch (sq_inner q)"
  have sub: "set ?rs \<subseteq> set (sq_inner q)" by (rule set_take_subset)
  have "\<exists>w'. pump_send c wops epoch (is_lagged q) ?rs w = (Inr (length ?rs), w')"
  proof (cases "?rs = []")
    case False
    have "\<forall>r \<in> set (batch_records epoch (is_lagged q) ?rs). encodable c r"
      using assms(6) sub by (auto simp: batch_records_def)
    then show ?thesis using write_batch_reliable [OF _ assms(4,5), of epoch "is_lagged q" ?rs c w] False
      by (simp add: pump_send_def)
  qed (auto simp: pump_send_def)
  then obtain w' where send: "pump_send c wops epoch (is_lagged q) ?rs w = (Inr (length ?rs), w')" ..
  have flow: "\<forall>r \<in> set ?rs. is_flow_state r" using assms(7) sub by auto
  have "pump_to_writer c wops batch epoch (q, w) =
      (Inr (length ?rs), pump_settle (is_lagged q) ?rs (Inr (length ?rs)) (snd (drain_with_lag batch q)), w')"
    using send by (simp add: pump_to_writer_eq is_lagged_def)
  moreover have "is_lagged (pump_settle (is_lagged q) ?rs (Inr (length ?rs)) (snd (drain_with_lag batch q)))
      \<longleftrightarrow> is_lagged q \<and> ?rs = []"
    by (simp add: pump_settle_def drain_with_lag_eq mark_lagged_def is_lagged_def)
  moreover have "sq_inner (pump_settle (is_lagged q) ?rs (Inr (length ?rs)) (snd (drain_with_lag batch q)))
      = drop batch (sq_inner q)"
    by (simp add: pump_settle_def drain_with_lag_eq mark_lagged_def)
  ultimately show ?thesis
    using round_trip_of_batch [OF assms(1,2,3) send flow assms(8)] unfolding Let_def by blast
qed

theorem pump_round_trip_witness:
  "\<exists>q' w'. pump_to_writer table_codec vec_writer_ops 16 7 (demo_queue, []) = (Inr 2, q', w')
     \<and> sq_inner q' = [] \<and> \<not> is_lagged q'
     \<and> (\<exists>rd' f'. pump_from_reader table_codec mem_reader_ops static_apply
           (\<lparr>mr_bytes = w', mr_ending = early_eof\<rparr>, [], snd (admit 3 fence_new)) =
         Some (Inr 2, rd', [Lagged, score_record 1, score_record 2], f'))"
proof -
  have fence: "is_primed (snd (admit 3 fence_new)) \<longrightarrow> fence_current (snd (admit 3 fence_new)) \<le> 7"
    by (simp add: admit_eq fence_new_def is_primed_iff fence_current_def decode_fence_def saturating_add_def)
  have "let rs = take 16 (sq_inner demo_queue) in
    \<exists>q' w'. pump_to_writer table_codec vec_writer_ops 16 7 (demo_queue, []) = (Inr (length rs), q', w')
      \<and> sq_inner q' = drop 16 (sq_inner demo_queue) \<and> (is_lagged q' \<longleftrightarrow> is_lagged demo_queue \<and> rs = [])
      \<and> (\<forall>rd applied. w' = [] @ mr_bytes rd \<and> io_eof (mr_ending rd) \<longrightarrow>
          (\<exists>rd'. pump_from_reader table_codec mem_reader_ops static_apply (rd, applied, snd (admit 3 fence_new)) =
            (if rs = [] then Some (Inr 0, rd', applied, snd (admit 3 fence_new))
             else Some (Inr (length rs), rd', applied @ (if is_lagged demo_queue then [Lagged] else []) @ rs,
               snd (admit 7 (snd (admit 3 fence_new)))))))"
    by (rule pump_round_trip [OF vec_sink.byte_sink_axioms mem_source.byte_source_axioms
          table_codec_round_trips _ _ _ _ fence])
      (auto simp: vec_writer_ops_def batch_records_def score_record_def
        intro!: table_codec_encodable)
  then obtain q' w' where q': "pump_to_writer table_codec vec_writer_ops 16 7 (demo_queue, []) = (Inr 2, q', w')"
      "sq_inner q' = []" "\<not> is_lagged q'"
    and recv: "\<forall>rd applied. w' = mr_bytes rd \<and> io_eof (mr_ending rd) \<longrightarrow>
      (\<exists>rd'. pump_from_reader table_codec mem_reader_ops static_apply (rd, applied, snd (admit 3 fence_new)) =
        Some (Inr 2, rd', applied @ [Lagged, score_record 1, score_record 2],
          snd (admit 7 (snd (admit 3 fence_new)))))"
    by (auto simp: Let_def numeral_2_eq_2)
  show ?thesis
    using q' recv [rule_format, of "\<lparr>mr_bytes = w', mr_ending = early_eof\<rparr>" "[]"]
    by (auto simp: early_eof_def)
qed

text \<open>
  A deposed Master writes nothing: once the receiver's gate is primed with a higher epoch,
  whatever the sender's flush got onto the wire, complete or cut off by a failed write, the receive
  pump ends without applying a record and without moving the gate; when the sender's fence arrived
  in full it ends with \<open>Fenced\<close> and the two epochs.
\<close>

theorem deposed_master_writes_nothing:
  assumes "byte_sink wops sent" "byte_source rops pending ending" "codec_round_trips c"
    and "encodable c (Fence epoch)" "is_primed f" "epoch < fence_current f"
    and "pump_to_writer c wops batch epoch (q, w) = (res, q', w')" "sent w' = sent w @ pending rd"
  shows "\<exists>res' rd'. pump_from_reader c rops ap (rd, a, f) = Some (res', rd', a, f) \<and>
    (length (frame_of c (Fence epoch)) \<le> length (pending rd) \<longrightarrow>
       res' = Inl (Fenced epoch (fence_current f)))"
  by (rule stale_stream_applies_nothing [OF assms(2,3,5,6) pump_stream_prefix [OF assms(1,7,8)] assms(4)])

theorem deposed_master_writes_nothing_witness:
  "\<exists>res' rd'. pump_from_reader table_codec mem_reader_ops static_apply
      (\<lparr>mr_bytes = mw_sent (snd (snd (pump_to_writer table_codec mem_writer_ops 16 3
           (demo_queue, \<lparr>mw_sent = [], mw_room = 9\<rparr>)))), mr_ending = early_eof\<rparr>, [score_record 5], 8)
    = Some (res', rd', [score_record 5], 8)"
proof -
  let ?out = "pump_to_writer table_codec mem_writer_ops 16 3 (demo_queue, \<lparr>mw_sent = [], mw_room = 9\<rparr>)"
  let ?rd = "\<lparr>mr_bytes = mw_sent (snd (snd ?out)), mr_ending = early_eof\<rparr>"
  have primed: "is_primed 8" "(3 :: u64) < fence_current 8"
    by (simp_all add: is_primed_iff fence_current_def decode_fence_def)
  have enc: "encodable table_codec (Fence 3)" by (rule table_codec_encodable) simp
  have "\<exists>res' rd'. pump_from_reader table_codec mem_reader_ops static_apply (?rd, [score_record 5], 8) =
        Some (res', rd', [score_record 5], 8) \<and>
      (length (frame_of table_codec (Fence 3)) \<le> length (mr_bytes ?rd) \<longrightarrow>
         res' = Inl (Fenced 3 (fence_current 8)))"
  proof (rule deposed_master_writes_nothing [OF mem_sink.byte_sink_axioms mem_source.byte_source_axioms
        table_codec_round_trips enc primed])
    show "?out = (fst ?out, fst (snd ?out), snd (snd ?out))" by (simp only: prod.collapse)
    show "mw_sent (snd (snd ?out)) = mw_sent \<lparr>mw_sent = [], mw_room = 9\<rparr> @ mr_bytes ?rd"
      by (simp only: mem_writer.select_convs mem_reader.select_convs append_Nil)
  qed
  then show ?thesis by blast
qed

text \<open>
  The receive pump is its specification: on a stream that holds the frames of a sequence of
  records and then ends, it returns the count and leaves the applier and the gate exactly as applying
  the records one after the other does, for every applier, failing ones included.
\<close>

theorem receive_pump_refines_stream:
  assumes "byte_source rops pending ending" "codec_round_trips c" "\<forall>r \<in> set rs. encodable c r"
    and "pending rd = concat (map (frame_of c) rs)" "io_eof (ending rd)"
  shows "\<exists>rd'. pump_from_reader c rops ap (rd, a, f) =
    Some (fst (apply_stream ap rs 0 (a, f)), rd', snd (apply_stream ap rs 0 (a, f)))"
  unfolding pump_from_reader_def
  by (rule byte_source.receive_loop_of_frames [OF assms(1,2,3,4,5)])

theorem receive_pump_refines_stream_witness:
  "\<exists>rd'. pump_from_reader table_codec mem_reader_ops static_apply
      (\<lparr>mr_bytes = concat (map (frame_of table_codec) [Fence 7, Lagged, score_record 1, Fence 3, score_record 2]),
        mr_ending = early_eof\<rparr>, [], fence_new)
    = Some (Inl (Fenced 3 7), rd', [Lagged, score_record 1], 8)"
proof -
  let ?rs = "[Fence 7, Lagged, score_record 1, Fence 3, score_record 2]"
  let ?rd = "\<lparr>mr_bytes = concat (map (frame_of table_codec) ?rs), mr_ending = early_eof\<rparr>"
  have enc: "\<forall>r \<in> set ?rs. encodable table_codec r" by (simp add: table_codec_encodable)
  have bytes: "mr_bytes ?rd = concat (map (frame_of table_codec) ?rs)" by (rule mem_reader.select_convs)
  have eof: "io_eof (mr_ending ?rd)" by (simp only: mem_reader.select_convs early_eof_def io_error.select_convs)
  have spec: "apply_stream static_apply ?rs 0 ([], fence_new) =
      (Inl (Fenced 3 7), [Lagged, score_record 1], 8)"
    by (simp add: static_apply_def score_record_def is_primed_iff fence_new_def fence_current_def
        decode_fence_def saturating_add_def)
  show ?thesis
    using receive_pump_refines_stream [OF mem_source.byte_source_axioms table_codec_round_trips enc bytes eof,
        of static_apply "[]" fence_new]
    unfolding spec fst_conv snd_conv .
qed

text \<open>
  Claim C38. The receive pump returns on every stream that ends, whatever bytes it holds, whatever the
  codec makes of them and whatever the applier answers.
\<close>

theorem receive_pump_returns:
  assumes "byte_source rops pending ending"
  shows "\<exists>res rd' a' f'. pump_from_reader c rops ap (rd, a, f) = Some (res, rd', a', f')"
  using byte_source.receive_loop_returns [OF assms, of c ap 0 rd a f]
  by (auto simp: pump_from_reader_def)

theorem receive_pump_returns_witness:
  "\<exists>res rd' a' f'. pump_from_reader table_codec mem_reader_ops static_apply
      (\<lparr>mr_bytes = [0, 0, 0, 1, 2, 0, 0, 255], mr_ending = broken_pipe\<rparr>, [], fence_new) = Some (res, rd', a', f')"
  by (rule receive_pump_returns [OF mem_source.byte_source_axioms])

text \<open>
  The gate is sound when its callers run concurrently. In every interleaving of the loads
  and compare-and-swaps of any number of \<open>admit\<close> calls (below the saturating epoch): the admitted
  epochs, in the order in which they took effect, never decrease; the gate is at least at every
  admitted epoch; a refused caller was below an admitted one; and every caller that is left to run
  finishes.
\<close>

theorem fence_gate_orders_masters:
  assumes "cas_step\<^sup>*\<^sup>* (cell_init fence_new (\<lambda>t. admit_op (epoch t))) s" "\<forall>t. epoch t \<noteq> - 1"
  shows "sorted (admitted_epochs epoch (history s))
    \<and> (threads s t = Done True \<longrightarrow> epoch t \<le> fence_current (cell s))
    \<and> (threads s t = Done False \<longrightarrow> (\<exists>t'. threads s t' = Done True \<and> epoch t < epoch t'))
    \<and> (\<exists>s' r. cas_step\<^sup>*\<^sup>* s s' \<and> threads s' t = Done r)"
proof (intro conjI impI)
  have lin: "linearized fence_new (\<lambda>t. admit_op (epoch t)) s" using assms(1) by (rule cas_linearizable)
  show "sorted (admitted_epochs epoch (history s))"
    using admitted_sorted [OF linearizedD(4) [OF lin] assms(2)] by simp
  show "\<exists>s' r. cas_step\<^sup>*\<^sup>* s s' \<and> threads s' t = Done r" using lin by (rule solo_completes)
  show "epoch t \<le> fence_current (cell s)" if "threads s t = Done True"
    using admitted_below_gate [OF lin that] assms(2) by simp
  show "\<exists>t'. threads s t' = Done True \<and> epoch t < epoch t'" if refused: "threads s t = Done False"
  proof -
    obtain e where "e \<in> set (admitted_epochs epoch (history s))" "epoch t < e"
      using refused_has_higher_admitted [OF linearizedD(4) [OF lin] assms(2) linearizedD(3) [OF lin refused]] ..
    then show ?thesis using linearized_Done_iff [OF lin] by (auto simp: admitted_epochs_def)
  qed
qed

theorem fence_gate_orders_masters_witness:
  "\<exists>s. cas_step\<^sup>*\<^sup>* (cell_init fence_new (\<lambda>t. admit_op (if t = 0 then 9 else 4))) s
     \<and> threads s 0 = Done True \<and> 9 \<le> fence_current (cell s)
     \<and> (threads s 1 = Done False \<longrightarrow> (\<exists>t'. threads s t' = Done True \<and> 4 < (if t' = 0 then 9 else 4 :: u64)))"
proof -
  let ?epoch = "\<lambda>t :: nat. if t = 0 then 9 else 4 :: u64"
  let ?init = "cell_init fence_new (\<lambda>t. admit_op (?epoch t))"
  have "threads ?init 0 = Pending (admit_op 9)" by (simp add: cell_init_def)
  then obtain s where run: "cas_step\<^sup>*\<^sup>* ?init s"
    and don: "threads s 0 = Done (fst (apply_op (admit_op 9) fence_new))"
    using solo_from_pending [of ?init 0] by (auto simp: cell_init_def)
  have "fst (apply_op (admit_op 9) fence_new) = True"
    by (simp add: admit_def [symmetric] admit_eq is_primed_iff fence_new_def)
  with don have zero: "threads s 0 = Done True" by simp
  have eps: "\<forall>t. ?epoch t \<noteq> - 1" by simp
  show ?thesis
    using run zero fence_gate_orders_masters [OF run eps, of 0] fence_gate_orders_masters [OF run eps, of 1]
    by auto
qed

end
