(* ===== verification/Rust_Float.thy ===== *)
theory Rust_Float
  imports SNG_Prelude Complex_Main
begin

text \<open>
  The \<open>f64\<close> arithmetic of the Rust sources on non-negative numbers, and the \<open>Duration\<close> operations
  that go through it. A float is the rational number it denotes; every operation rounds its exact
  result to 53 significant bits, ties to even. The operands in the program lie far inside the range
  of normal numbers, so neither overflow to infinity nor subnormal numbers occur.
\<close>

section \<open>Rounding\<close>

definition round_half_even :: "rat \<Rightarrow> int" where
  "round_half_even x =
     (let f = \<lfloor>x\<rfloor>; r = x - of_int f
      in if r < 1 / 2 then f else if 1 / 2 < r then f + 1 else if even f then f else f + 1)"

fun bit_length :: "nat \<Rightarrow> nat" where
  "bit_length n = (if n = 0 then 0 else Suc (bit_length (n div 2)))"

declare bit_length.simps [simp del]

text \<open>The binary exponent of a positive rational: \<open>2 powi e \<le> x < 2 powi (e + 1)\<close>.\<close>

definition f64_exponent :: "rat \<Rightarrow> int" where
  "f64_exponent x =
     (let (n, d) = quotient_of x; k = int (bit_length (nat n)) - int (bit_length (nat d))
      in if 2 powi k \<le> x then k else k - 1)"

definition f64_round :: "rat \<Rightarrow> rat" where
  "f64_round x =
     (if x = 0 then 0
      else let u = 2 powi (f64_exponent x - 52) in of_int (round_half_even (x / u)) * u)"

definition f64_of_nat :: "nat \<Rightarrow> rat" where
  "f64_of_nat n = f64_round (of_nat n)"

definition f64_add :: "rat \<Rightarrow> rat \<Rightarrow> rat" where
  "f64_add x y = f64_round (x + y)"

definition f64_mul :: "rat \<Rightarrow> rat \<Rightarrow> rat" where
  "f64_mul x y = f64_round (x * y)"

definition f64_div :: "rat \<Rightarrow> rat \<Rightarrow> rat" where
  "f64_div x y = f64_round (x / y)"

section \<open>Durations through floats\<close>

text \<open>\<open>Duration::as_secs_f64\<close>, \<open>Duration::from_secs_f64\<close> (a panic is \<open>None\<close>) and \<open>Duration::mul_f64\<close>.\<close>

definition as_secs_f64 :: "nat \<Rightarrow> rat" where
  "as_secs_f64 d =
     f64_add (f64_of_nat (d div 1000000000))
       (f64_div (f64_of_nat (d mod 1000000000)) (f64_of_nat 1000000000))"

definition from_secs_f64 :: "rat \<Rightarrow> nat option" where
  "from_secs_f64 x =
     (let n = nat (round_half_even (x * 1000000000)) in if n \<le> duration_max then Some n else None)"

definition mul_f64 :: "nat \<Rightarrow> rat \<Rightarrow> nat option" where
  "mul_f64 d x = from_secs_f64 (f64_mul x (as_secs_f64 d))"

section \<open>Rounding errors\<close>

lemma round_half_even_error: "\<bar>of_int (round_half_even x) - x\<bar> \<le> 1 / 2"
proof -
  have "of_int \<lfloor>x\<rfloor> \<le> x" "x < of_int \<lfloor>x\<rfloor> + 1" by linarith+
  then show ?thesis by (auto simp: round_half_even_def Let_def)
qed

lemma round_half_even_nonneg: "0 \<le> x \<Longrightarrow> 0 \<le> round_half_even x"
  by (auto simp: round_half_even_def Let_def)

lemma bit_length_0 [simp]: "bit_length 0 = 0"
  by (simp add: bit_length.simps)

lemma bit_length_pos: "0 < n \<Longrightarrow> bit_length n = Suc (bit_length (n div 2))"
  by (subst bit_length.simps) simp

lemma bit_length_bounds: "n < 2 ^ bit_length n \<and> (0 < n \<longrightarrow> 2 ^ bit_length n \<le> 2 * n)"
proof (induction n rule: less_induct)
  case (less n)
  show ?case
  proof (cases "n = 0")
    case False
    then have "n div 2 < 2 ^ bit_length (n div 2)"
      "0 < n div 2 \<longrightarrow> 2 ^ bit_length (n div 2) \<le> 2 * (n div 2)"
      using less [of "n div 2"] by auto
    moreover have "bit_length n = Suc (bit_length (n div 2))" using False by (simp add: bit_length_pos)
    moreover have "n div 2 = 0 \<Longrightarrow> n = 1" using False by linarith
    ultimately show ?thesis by (cases "n div 2 = 0") auto
  qed simp
qed

lemma powi_diff_nat: "(2 :: rat) powi (int a - int b) = 2 ^ a / 2 ^ b"
  by (simp add: power_int_diff)

lemma f64_exponent_bounds:
  assumes "0 < x"
  shows "2 powi f64_exponent x \<le> x \<and> x < 2 powi (f64_exponent x + 1)"
proof -
  obtain n d where q: "quotient_of x = (n, d)" by fastforce
  have d: "0 < d" and x: "x = of_int n / of_int d" using q quotient_of_denom_pos quotient_of_div by auto
  then have n: "0 < n" using assms by (simp add: zero_less_divide_iff)
  define N where "N = nat n"
  define D where "D = nat d"
  have pos: "0 < N" "0 < D" and x': "x = of_nat N / of_nat D" using n d x by (simp_all add: N_def D_def)
  let ?a = "bit_length N" and ?b = "bit_length D"
  have "N < 2 ^ ?a" "D < 2 ^ ?b" "2 ^ ?a \<le> 2 * N" "2 ^ ?b \<le> 2 * D"
    using bit_length_bounds pos by blast+
  then have "of_nat N < (2 :: rat) ^ ?a" "of_nat D < (2 :: rat) ^ ?b"
    "(2 :: rat) ^ ?a \<le> of_nat (2 * N)" "(2 :: rat) ^ ?b \<le> of_nat (2 * D)"
    by (simp_all only: of_nat_less_numeral_power_cancel_iff numeral_power_le_of_nat_cancel_iff)
  then have b: "of_nat N < (2 :: rat) ^ ?a" "of_nat D < (2 :: rat) ^ ?b"
    "(2 :: rat) ^ ?a \<le> 2 * of_nat N" "(2 :: rat) ^ ?b \<le> 2 * of_nat D"
    by (simp_all only: of_nat_mult of_nat_numeral)
  have Dpos: "(0 :: rat) < of_nat D" using pos by simp
  have "x < 2 ^ ?a / of_nat D" using b(1) Dpos unfolding x' by (rule divide_strict_right_mono)
  also have "\<dots> \<le> 2 ^ ?a / (2 ^ ?b / 2)" using b(4) Dpos by (intro divide_left_mono) auto
  finally have up: "x < 2 * (2 ^ ?a / 2 ^ ?b)" by (simp add: mult.commute)
  have "2 ^ ?a / 2 ^ ?b / 2 \<le> (2 ^ ?a / 2) / (of_nat D :: rat)"
    using b(2) Dpos by (simp add: divide_left_mono)
  also have "\<dots> \<le> x" using b(3) Dpos unfolding x' by (intro divide_right_mono) auto
  finally have lo: "2 ^ ?a / 2 ^ ?b / 2 \<le> x" .
  let ?k = "int ?a - int ?b"
  have k: "2 powi (?k + 1) = 2 * (2 powi ?k :: rat)" "2 powi (?k - 1) = (2 powi ?k :: rat) / 2"
    by (simp_all add: power_int_add power_int_diff)
  have e: "f64_exponent x = (if 2 powi ?k \<le> x then ?k else ?k - 1)"
    by (simp add: f64_exponent_def q N_def D_def)
  show ?thesis using up lo k unfolding e powi_diff_nat [symmetric] by auto
qed

lemma f64_round_nonneg: "0 \<le> x \<Longrightarrow> 0 \<le> f64_round x"
  by (auto simp: f64_round_def Let_def intro!: mult_nonneg_nonneg round_half_even_nonneg)

lemma as_secs_f64_nonneg: "0 \<le> as_secs_f64 d"
  by (simp add: as_secs_f64_def f64_add_def f64_div_def f64_of_nat_def f64_round_nonneg)

lemma f64_round_error:
  assumes "0 \<le> x"
  shows "\<bar>f64_round x - x\<bar> \<le> x / 2 ^ 53"
proof (cases "x = 0")
  case False
  then have x: "0 < x" using assms by simp
  define u :: rat where "u = 2 powi (f64_exponent x - 52)"
  have u: "0 < u" by (simp add: u_def)
  have "f64_round x - x = (of_int (round_half_even (x / u)) - x / u) * u"
    using False u by (simp add: f64_round_def u_def [symmetric] field_simps)
  then have "\<bar>f64_round x - x\<bar> = \<bar>of_int (round_half_even (x / u)) - x / u\<bar> * u"
    using u by (simp add: abs_mult)
  also have "\<dots> \<le> 1 / 2 * u"
    using round_half_even_error u by (intro mult_right_mono) auto
  also have "\<dots> = 2 powi f64_exponent x / 2 ^ 53"
    by (simp add: u_def power_int_diff)
  also have "\<dots> \<le> x / 2 ^ 53"
    using f64_exponent_bounds [OF x] by (intro divide_right_mono) auto
  finally show ?thesis .
qed (simp add: f64_round_def)

lemma round_half_even_of_int [simp]: "round_half_even (of_int i) = i"
  by (simp add: round_half_even_def)

text \<open>A binary fraction with at most 53 significant bits is a float.\<close>

lemma f64_round_exact:
  assumes "n < 2 ^ 53"
  shows "f64_round (of_nat n / 2 ^ j) = of_nat n / 2 ^ j"
proof (cases "n = 0")
  case False
  let ?x = "of_nat n / 2 ^ j :: rat"
  let ?e = "f64_exponent ?x"
  have x: "0 < ?x" using False by simp
  have "(of_nat n :: rat) < 2 ^ 53" using assms by (simp only: of_nat_less_numeral_power_cancel_iff)
  then have "?x < 2 ^ 53 / 2 ^ j" by (simp add: divide_strict_right_mono)
  also have "\<dots> = 2 powi (int 53 - int j)" by (simp only: powi_diff_nat)
  finally have "(2 :: rat) powi ?e < 2 powi (int 53 - int j)"
    using f64_exponent_bounds [OF x] by (meson order.strict_trans1)
  then have "?e < int 53 - int j" using power_int_increasing [of "int 53 - int j" ?e "2 :: rat"] by linarith
  then have "int (nat (52 - ?e - int j)) + int j = 52 - ?e" by simp
  then obtain m where m: "52 - ?e = int m + int j" by metis
  have "?x / 2 powi (?e - 52) = ?x * 2 powi (52 - ?e)" by (simp add: power_int_diff)
  also have "\<dots> = ?x * (2 ^ m * 2 ^ j)" unfolding m by (simp add: power_int_add)
  also have "\<dots> = of_int (int n * 2 ^ m)" by simp
  finally have int: "?x / 2 powi (?e - 52) = of_int (int n * 2 ^ m)" .
  have "round_half_even (?x / 2 powi (?e - 52)) = int n * 2 ^ m"
    unfolding int by (rule round_half_even_of_int)
  with int have "of_int (round_half_even (?x / 2 powi (?e - 52))) = ?x / 2 powi (?e - 52)" by simp
  then have "f64_round ?x = ?x / 2 powi (?e - 52) * 2 powi (?e - 52)"
    using x unfolding f64_round_def Let_def by simp
  then show ?thesis by simp
qed (simp add: f64_round_def)

lemma f64_of_nat_exact: "n < 2 ^ 53 \<Longrightarrow> f64_of_nat n = of_nat n"
  using f64_round_exact [of n 0] by (simp add: f64_of_nat_def)

lemma as_secs_f64_error:
  assumes "d \<le> 2 ^ 50"
  shows "\<bar>as_secs_f64 d - of_nat d / 10 ^ 9\<bar> \<le> of_nat d / 10 ^ 9 * (2 / 2 ^ 53 + (1 / 2 ^ 53) ^ 2)"
proof -
  let ?t = "of_nat (d mod 1000000000) / 10 ^ 9 :: rat" and ?X = "of_nat d / 10 ^ 9 :: rat"
  have "(of_nat d :: rat) = of_nat (d div 1000000000) * 1000000000 + of_nat (d mod 1000000000)"
    using arg_cong [OF div_mult_mod_eq [of d 1000000000, symmetric], of "of_nat :: nat \<Rightarrow> rat"]
    by (simp only: of_nat_add of_nat_mult of_nat_numeral)
  then have X: "?X = of_nat (d div 1000000000) + ?t" by (simp add: field_simps)
  define s where "s = f64_round ?t"
  have st: "\<bar>s - ?t\<bar> \<le> ?t / 2 ^ 53" unfolding s_def by (rule f64_round_error) simp
  have tX: "0 \<le> ?t" "?t \<le> ?X" unfolding X by simp_all
  have "d div 1000000000 < 2 ^ 53" "d mod 1000000000 < 2 ^ 53"
    using assms by (auto intro: le_less_trans [OF div_le_dividend] less_trans [OF mod_less_divisor])
  then have "f64_of_nat (d div 1000000000) = of_nat (d div 1000000000)"
    "f64_of_nat (d mod 1000000000) = of_nat (d mod 1000000000)" "f64_of_nat 1000000000 = 10 ^ 9"
    by (simp_all add: f64_of_nat_exact)
  then have val: "as_secs_f64 d = f64_round (of_nat (d div 1000000000) + s)"
    by (simp add: as_secs_f64_def f64_add_def f64_div_def s_def)
  have s0: "0 \<le> s" unfolding s_def by (rule f64_round_nonneg) simp
  have "?t / 2 ^ 53 \<le> ?X / 2 ^ 53" using tX(2) by (rule divide_right_mono) simp
  then have sum: "\<bar>of_nat (d div 1000000000) + s - ?X\<bar> \<le> ?X / 2 ^ 53" using st unfolding X by linarith
  have "\<bar>as_secs_f64 d - (of_nat (d div 1000000000) + s)\<bar> \<le> (of_nat (d div 1000000000) + s) / 2 ^ 53"
    unfolding val using s0 by (intro f64_round_error) simp
  also have "\<dots> \<le> (?X + ?X / 2 ^ 53) / 2 ^ 53"
    using sum by (intro divide_right_mono) (linarith, simp)
  finally have "\<bar>as_secs_f64 d - ?X\<bar> \<le> (?X + ?X / 2 ^ 53) / 2 ^ 53 + ?X / 2 ^ 53"
    using sum by linarith
  also have "\<dots> = ?X * (2 / 2 ^ 53 + (1 / 2 ^ 53) ^ 2)" by (simp add: field_simps power2_eq_square)
  finally show ?thesis .
qed

text \<open>Scaling a duration of up to \<open>2 ^ 50\<close> nanoseconds by at most one is exact up to a nanosecond.\<close>

lemma mul_f64_error:
  assumes "d \<le> 2 ^ 50" "0 \<le> r" "r \<le> 1"
  shows "\<exists>n. mul_f64 d r = Some n \<and> \<bar>of_nat n - r * of_nat d\<bar> \<le> 1"
proof -
  define X :: rat where "X = of_nat d / 10 ^ 9"
  define \<epsilon> :: rat where "\<epsilon> = 1 / 2 ^ 53"
  define s where "s = as_secs_f64 d"
  define p where "p = f64_mul r s"
  have eps: "0 < \<epsilon>" "(1 + 2 * \<epsilon> + \<epsilon> ^ 2) * \<epsilon> + (2 * \<epsilon> + \<epsilon> ^ 2) \<le> 4 * \<epsilon>"
    by (simp_all add: \<epsilon>_def field_simps)
  have X: "0 \<le> X" by (simp add: X_def)
  have s: "\<bar>s - X\<bar> \<le> X * (2 * \<epsilon> + \<epsilon> ^ 2)"
    using as_secs_f64_error [OF assms(1)] by (simp add: s_def X_def \<epsilon>_def)
  have s0: "0 \<le> s" unfolding s_def by (rule as_secs_f64_nonneg)
  have "\<bar>r * s - r * X\<bar> = r * \<bar>s - X\<bar>"
    unfolding right_diff_distrib [symmetric] abs_mult using assms(2) by simp
  also have "\<dots> \<le> 1 * \<bar>s - X\<bar>" using assms(3) by (intro mult_right_mono) auto
  also have "\<dots> \<le> X * (2 * \<epsilon> + \<epsilon> ^ 2)" using s by simp
  finally have rs: "\<bar>r * s - r * X\<bar> \<le> X * (2 * \<epsilon> + \<epsilon> ^ 2)" .
  have "r * X \<le> 1 * X" using assms(3) X by (intro mult_right_mono) auto
  then have "r * s \<le> X + X * (2 * \<epsilon> + \<epsilon> ^ 2)" using rs by linarith
  then have rs_le: "r * s \<le> X * (1 + 2 * \<epsilon> + \<epsilon> ^ 2)" by (simp add: algebra_simps)
  have "\<bar>p - r * s\<bar> \<le> r * s * \<epsilon>"
    unfolding p_def f64_mul_def using f64_round_error [of "r * s"] assms(2) s0 by (simp add: \<epsilon>_def)
  also have "\<dots> \<le> X * (1 + 2 * \<epsilon> + \<epsilon> ^ 2) * \<epsilon>" using rs_le eps(1) by (intro mult_right_mono) auto
  finally have "\<bar>p - r * X\<bar> \<le> X * (1 + 2 * \<epsilon> + \<epsilon> ^ 2) * \<epsilon> + X * (2 * \<epsilon> + \<epsilon> ^ 2)"
    using rs by linarith
  also have "\<dots> = X * ((1 + 2 * \<epsilon> + \<epsilon> ^ 2) * \<epsilon> + (2 * \<epsilon> + \<epsilon> ^ 2))" by (simp add: algebra_simps)
  also have "\<dots> \<le> X * (4 * \<epsilon>)" using eps(2) X by (intro mult_left_mono) auto
  finally have "\<bar>p - r * X\<bar> \<le> X * (4 * \<epsilon>)" .
  then have le: "\<bar>p - r * X\<bar> * 10 ^ 9 \<le> X * (4 * \<epsilon>) * 10 ^ 9" by (rule mult_right_mono) simp
  have eq: "p * 10 ^ 9 - r * of_nat d = (p - r * X) * 10 ^ 9" by (simp add: left_diff_distrib X_def)
  have "\<bar>p * 10 ^ 9 - r * of_nat d\<bar> = \<bar>p - r * X\<bar> * 10 ^ 9" unfolding eq abs_mult by simp
  also have "\<dots> \<le> X * (4 * \<epsilon>) * 10 ^ 9" by (rule le)
  also have "\<dots> = of_nat d * (4 * \<epsilon>)" by (simp add: X_def)
  finally have "\<bar>p * 10 ^ 9 - r * of_nat d\<bar> \<le> of_nat d * (4 * \<epsilon>)" .
  moreover have "of_nat d \<le> (2 :: rat) ^ 50" using assms(1) by (simp only: of_nat_le_numeral_power_cancel_iff)
  ultimately have "\<bar>p * 10 ^ 9 - r * of_nat d\<bar> \<le> 1 / 2" by (simp add: \<epsilon>_def)
  moreover have "\<bar>of_int (round_half_even (p * 10 ^ 9)) - p * 10 ^ 9\<bar> \<le> 1 / 2" by (rule round_half_even_error)
  ultimately have close: "\<bar>of_int (round_half_even (p * 10 ^ 9)) - r * of_nat d\<bar> \<le> 1" by linarith
  have "0 \<le> p" unfolding p_def f64_mul_def using assms(2) s0 by (simp add: f64_round_nonneg)
  then have nn: "0 \<le> round_half_even (p * 10 ^ 9)" by (intro round_half_even_nonneg) simp
  have "r * of_nat d \<le> 1 * of_nat d" using assms(3) by (intro mult_right_mono) auto
  then have "(of_int (round_half_even (p * 10 ^ 9)) :: rat) \<le> of_int (int d + 1)" using close by (simp add: abs_le_iff)
  then have "nat (round_half_even (p * 10 ^ 9)) \<le> duration_max"
    using assms(1) by (simp only: of_int_le_iff) (simp add: duration_max_def)
  then show ?thesis using close nn
    by (simp add: mul_f64_def from_secs_f64_def p_def s_def)
qed

end
