(* ===== verification/Ha_Vrrp.thy ===== *)
theory Ha_Vrrp
  imports Ha_State_Sync Rust_Float
begin

text \<open>
  The election of \<open>sng-ha\<close> (\<open>vrrp.rs\<close>): the advertisement frame, the configuration, the timers, and the
  state machine that decides which of the two instances is Master. Opening the multicast socket
  (crate \<open>socket2\<close>) is not modelled; a datagram and its source are the input of the receive side.
\<close>

section \<open>Constants and transitions\<close>

definition vrrp_multicast_group :: ip_addr where
  "vrrp_multicast_group = V4 (from_be32 224 0 0 18)"

definition vrrp_udp_port :: u16 where
  "vrrp_udp_port = 1112"

definition default_advertisement_interval :: nat where
  "default_advertisement_interval = from_secs 1"

definition priority_release :: u8 where
  "priority_release = 0"

definition priority_owner :: u8 where
  "priority_owner = 255"

definition frame_magic :: bytes where
  "frame_magic = [0x56, 0x52]"

definition frame_len :: nat where
  "frame_len = 7"

definition frame_version :: u8 where
  "frame_version = 1"

datatype vrrp_state = Initialize | Backup | Master

datatype role_change = Promoted | Demoted

datatype master_down = Leave | ResetFull | ResetSkew

record transition =
  tr_role_change :: "role_change option"
  tr_send_advertisement :: bool
  tr_master_down :: master_down

definition transition_none :: transition where
  "transition_none = \<lparr>tr_role_change = None, tr_send_advertisement = False, tr_master_down = Leave\<rparr>"

definition transition_send :: transition where
  "transition_send = \<lparr>tr_role_change = None, tr_send_advertisement = True, tr_master_down = Leave\<rparr>"

definition transition_promote :: transition where
  "transition_promote = \<lparr>tr_role_change = Some Promoted, tr_send_advertisement = True, tr_master_down = Leave\<rparr>"

definition transition_demote :: transition where
  "transition_demote = \<lparr>tr_role_change = Some Demoted, tr_send_advertisement = False, tr_master_down = Leave\<rparr>"

definition with_master_down :: "master_down \<Rightarrow> transition \<Rightarrow> transition" where
  "with_master_down md t = t\<lparr>tr_master_down := md\<rparr>"

lemmas transition_defs =
  transition_none_def transition_send_def transition_promote_def transition_demote_def with_master_down_def

section \<open>Advertisements\<close>

record vrrp_advertisement =
  adv_virtual_router_id :: u8
  adv_priority :: u8
  adv_interval :: nat
  adv_source :: ip_addr

datatype vrrp_event = AdvertisementTimer | MasterDownTimer | Advertisement vrrp_advertisement

definition interval_centis :: "nat \<Rightarrow> u16" where
  "interval_centis d = (let n = as_millis d div 10 in if n < 2 ^ 16 then of_nat n else - 1)"

definition adv_encode :: "vrrp_advertisement \<Rightarrow> bytes" where
  "adv_encode a =
     frame_magic @ [frame_version, adv_virtual_router_id a, adv_priority a] @ be16 (interval_centis (adv_interval a))"

definition adv_decode :: "bytes \<Rightarrow> ip_addr \<Rightarrow> ha_error + vrrp_advertisement" where
  "adv_decode b source =
     (if length b < frame_len then
        Inl (Decode (''advertisement frame too short: '' @ decimal (length b) @ '' < '' @ decimal frame_len))
      else if take 2 b \<noteq> frame_magic then Inl (Decode ''bad advertisement magic'')
      else if b ! 2 \<noteq> frame_version then
        Inl (Decode (''unsupported advertisement version '' @ decimal (unat (b ! 2))))
      else Inr \<lparr>adv_virtual_router_id = b ! 3, adv_priority = b ! 4,
                adv_interval = from_millis (unat (from_be16 (b ! 5) (b ! 6)) * 10), adv_source = source\<rparr>)"

text \<open>Receiving: the socket fills a 64-byte buffer with the datagram and names the peer.\<close>

definition multicast_recv :: "io_error + (bytes \<times> ip_addr) \<Rightarrow> ha_error + vrrp_advertisement" where
  "multicast_recv res =
     (case res of
        Inl e \<Rightarrow> Inl (Socket (''recv_from: '' @ io_message e))
      | Inr (datagram, peer) \<Rightarrow> adv_decode (take 64 datagram) peer)"

section \<open>Configuration\<close>

record vrrp_config =
  cfg_virtual_router_id :: u8
  cfg_priority :: u8
  cfg_advertisement_interval :: nat
  cfg_preempt_mode :: bool

definition default_vrrp_config :: vrrp_config where
  "default_vrrp_config =
     \<lparr>cfg_virtual_router_id = 1, cfg_priority = 100,
      cfg_advertisement_interval = default_advertisement_interval, cfg_preempt_mode = True\<rparr>"

definition vrrp_config_validate :: "vrrp_config \<Rightarrow> ha_error + unit" where
  "vrrp_config_validate c =
     (if cfg_virtual_router_id c = 0 then Inl (InvalidConfig ''virtual_router_id must be in 1..=255'')
      else if cfg_priority c = priority_release then
        Inl (InvalidConfig ''priority 0 is reserved for the release signal; use 1..=255'')
      else if cfg_advertisement_interval c = 0 then
        Inl (InvalidConfig ''advertisement_interval must be non-zero'')
      else Inr ())"

section \<open>The instance\<close>

record vrrp_instance =
  vi_config :: vrrp_config
  vi_state :: vrrp_state
  vi_effective_priority :: u8
  vi_local_addr :: ip_addr

definition vrrp_new :: "vrrp_config \<Rightarrow> ip_addr \<Rightarrow> ha_error + vrrp_instance" where
  "vrrp_new c addr =
     and_then (vrrp_config_validate c) (\<lambda>_.
       Inr \<lparr>vi_config = c, vi_state = Initialize, vi_effective_priority = cfg_priority c, vi_local_addr = addr\<rparr>)"

text \<open>\<open>mul_f64\<close> panics when the product overflows a \<open>Duration\<close>; so does \<open>skew_time\<close>.\<close>

definition skew_time :: "vrrp_instance \<Rightarrow> nat option" where
  "skew_time v =
     (let p = unat (vi_effective_priority v)
      in mul_f64 (cfg_advertisement_interval (vi_config v)) (f64_div (f64_of_nat (256 - p)) 256))"

definition master_down_interval :: "vrrp_instance \<Rightarrow> nat option" where
  "master_down_interval v =
     map_option
       (duration_saturating_add (duration_saturating_mul (cfg_advertisement_interval (vi_config v)) 3))
       (skew_time v)"

definition advertisement :: "vrrp_instance \<Rightarrow> vrrp_advertisement" where
  "advertisement v =
     \<lparr>adv_virtual_router_id = cfg_virtual_router_id (vi_config v), adv_priority = vi_effective_priority v,
      adv_interval = cfg_advertisement_interval (vi_config v), adv_source = vi_local_addr v\<rparr>"

definition vrrp_start :: "vrrp_instance \<Rightarrow> transition \<times> vrrp_instance" where
  "vrrp_start v =
     (if vi_state v \<noteq> Initialize then (transition_none, v)
      else if cfg_priority (vi_config v) = priority_owner then (transition_promote, v\<lparr>vi_state := Master\<rparr>)
      else (transition_none, v\<lparr>vi_state := Backup\<rparr>))"

definition set_released :: "vrrp_instance \<Rightarrow> transition \<times> vrrp_instance" where
  "set_released v =
     (let v1 = v\<lparr>vi_effective_priority := priority_release\<rparr>
      in (if vi_state v1 = Master then transition_send else transition_none, v1))"

definition clear_released :: "vrrp_instance \<Rightarrow> vrrp_instance" where
  "clear_released v = v\<lparr>vi_effective_priority := cfg_priority (vi_config v)\<rparr>"

definition peer_outranks :: "vrrp_instance \<Rightarrow> vrrp_advertisement \<Rightarrow> bool" where
  "peer_outranks v a \<longleftrightarrow>
     vi_effective_priority v < adv_priority a
     \<or> adv_priority a = vi_effective_priority v \<and> vi_local_addr v < adv_source a"

definition on_advertisement :: "vrrp_advertisement \<Rightarrow> vrrp_instance \<Rightarrow> transition \<times> vrrp_instance" where
  "on_advertisement a v =
     (if adv_virtual_router_id a \<noteq> cfg_virtual_router_id (vi_config v) then (transition_none, v)
      else case vi_state v of
        Initialize \<Rightarrow> (transition_none, v)
      | Master \<Rightarrow>
          if peer_outranks v a then (transition_demote, v\<lparr>vi_state := Backup\<rparr>)
          else if adv_priority a = priority_release then (transition_send, v)
          else (transition_none, v)
      | Backup \<Rightarrow>
          if adv_priority a = priority_release then (with_master_down ResetSkew transition_none, v)
          else if cfg_preempt_mode (vi_config v) \<and> adv_priority a < vi_effective_priority v
          then (transition_none, v)
          else (with_master_down ResetFull transition_none, v))"

definition vrrp_handle :: "vrrp_event \<Rightarrow> vrrp_instance \<Rightarrow> transition \<times> vrrp_instance" where
  "vrrp_handle e v =
     (case (vi_state v, e) of
        (_, Advertisement a) \<Rightarrow> on_advertisement a v
      | (Master, AdvertisementTimer) \<Rightarrow> (transition_send, v)
      | (Backup, MasterDownTimer) \<Rightarrow> (transition_promote, v\<lparr>vi_state := Master\<rparr>)
      | _ \<Rightarrow> (transition_none, v))"

section \<open>The frame\<close>

text \<open>The interval the frame carries: whole centiseconds, at most 655.35 s.\<close>

definition wire_interval :: "nat \<Rightarrow> nat" where
  "wire_interval d = min (d div 10000000) 65535 * 10000000"

lemma unat_interval_centis: "unat (interval_centis d) = min (d div 10000000) 65535"
proof -
  have "as_millis d div 10 = d div 10000000" by (simp add: as_millis_def div_mult2_eq [symmetric])
  then show ?thesis by (auto simp: interval_centis_def Let_def unat_max_word unat_of_nat_less)
qed

lemma adv_decode_encode:
  "adv_decode (adv_encode a) source = Inr (a\<lparr>adv_interval := wire_interval (adv_interval a), adv_source := source\<rparr>)"
  by (cases a) (simp add: adv_decode_def adv_encode_def frame_magic_def frame_len_def be16_def
      from_millis_def wire_interval_def unat_interval_centis)

section \<open>The timers\<close>

lemma skew_factor: "f64_div (f64_of_nat (256 - p)) 256 = of_nat (256 - p) / 256"
proof -
  have "f64_of_nat (256 - p) = of_nat (256 - p)" by (rule f64_of_nat_exact) simp
  moreover have "f64_round (of_nat (256 - p) / 2 ^ 8) = of_nat (256 - p) / 2 ^ 8"
    by (rule f64_round_exact) simp
  ultimately show ?thesis by (simp add: f64_div_def)
qed

lemma skew_time_close:
  assumes "cfg_advertisement_interval (vi_config v) \<le> 2 ^ 50"
  shows "\<exists>s. skew_time v = Some s \<and>
    \<bar>int (256 * s) - int ((256 - unat (vi_effective_priority v)) * cfg_advertisement_interval (vi_config v))\<bar> \<le> 256"
proof -
  let ?d = "cfg_advertisement_interval (vi_config v)" and ?k = "256 - unat (vi_effective_priority v)"
  have r: "0 \<le> (of_nat ?k / 256 :: rat)" "of_nat ?k / 256 \<le> (1 :: rat)" by (simp_all add: of_nat_diff)
  obtain s where s: "skew_time v = Some s" "\<bar>of_nat s - of_nat ?k / 256 * of_nat ?d\<bar> \<le> (1 :: rat)"
    using mul_f64_error [OF assms r] by (auto simp: skew_time_def skew_factor)
  have "\<bar>of_nat s - of_nat ?k / 256 * of_nat ?d\<bar> * 256 = \<bar>(of_nat s - of_nat ?k / 256 * of_nat ?d) * (256 :: rat)\<bar>"
    unfolding abs_mult by simp
  also have "\<dots> = \<bar>of_int (int (256 * s) - int (?k * ?d))\<bar>" by (simp add: left_diff_distrib mult.commute)
  finally have "(of_int \<bar>int (256 * s) - int (?k * ?d)\<bar> :: rat) \<le> of_int 256" using s(2) by simp
  then have "\<bar>int (256 * s) - int (?k * ?d)\<bar> \<le> 256" by (simp only: of_int_le_iff)
  then show ?thesis using s(1) by blast
qed

lemma master_down_close:
  assumes "cfg_advertisement_interval (vi_config v) \<le> 2 ^ 50"
  shows "\<exists>s m. skew_time v = Some s \<and> master_down_interval v = Some m
    \<and> m = 3 * cfg_advertisement_interval (vi_config v) + s
    \<and> s \<le> cfg_advertisement_interval (vi_config v) + 1
    \<and> \<bar>int (256 * s) - int ((256 - unat (vi_effective_priority v)) * cfg_advertisement_interval (vi_config v))\<bar> \<le> 256"
proof -
  let ?d = "cfg_advertisement_interval (vi_config v)" and ?k = "256 - unat (vi_effective_priority v)"
  obtain s where s: "skew_time v = Some s" "\<bar>int (256 * s) - int (?k * ?d)\<bar> \<le> 256"
    using skew_time_close [OF assms] by blast
  have "?k * ?d \<le> 256 * ?d" by (rule mult_le_mono1) simp
  then have "256 * s \<le> 256 * ?d + 256" using s(2) by linarith
  then have "s \<le> ?d + 1" by simp
  moreover have "3 * ?d + s \<le> duration_max" using calculation assms by (simp add: duration_max_def)
  ultimately show ?thesis using s
    by (simp add: master_down_interval_def duration_saturating_add_def duration_saturating_mul_def)
qed

section \<open>The state machine\<close>

lemma vrrp_handle_frame:
  "vi_config (snd (vrrp_handle e v)) = vi_config v"
  "vi_effective_priority (snd (vrrp_handle e v)) = vi_effective_priority v"
  "vi_local_addr (snd (vrrp_handle e v)) = vi_local_addr v"
  by (simp_all add: vrrp_handle_def on_advertisement_def split: vrrp_state.split vrrp_event.split)

text \<open>A role change is reported exactly when the machine enters or leaves \<open>Master\<close>.\<close>

lemma vrrp_handle_role_change:
  assumes "vi_state v \<noteq> Initialize" "vrrp_handle e v = (t, v')"
  shows "vi_state v' \<noteq> Initialize \<and>
    tr_role_change t = (if vi_state v \<noteq> Master \<and> vi_state v' = Master then Some Promoted
      else if vi_state v = Master \<and> vi_state v' \<noteq> Master then Some Demoted else None)"
  using assms
  by (auto simp: vrrp_handle_def on_advertisement_def transition_defs
      split: vrrp_state.splits vrrp_event.splits if_splits)

definition rank :: "vrrp_instance \<Rightarrow> nat \<times> ip_addr" where
  "rank v = (unat (vi_effective_priority v), vi_local_addr v)"

text \<open>What a peer decodes from the advertisement an instance sends.\<close>

definition heard :: "vrrp_instance \<Rightarrow> vrrp_advertisement" where
  "heard v = (advertisement v)\<lparr>adv_interval := wire_interval (cfg_advertisement_interval (vi_config v))\<rparr>"

lemma heard_on_the_wire: "adv_decode (adv_encode (advertisement v)) (vi_local_addr v) = Inr (heard v)"
  by (simp add: adv_decode_encode heard_def advertisement_def)

definition outranks :: "vrrp_instance \<Rightarrow> vrrp_instance \<Rightarrow> bool" where
  "outranks a b \<longleftrightarrow> fst (rank b) < fst (rank a) \<or> fst (rank a) = fst (rank b) \<and> snd (rank b) < snd (rank a)"

lemma outranks_total: "vi_local_addr a \<noteq> vi_local_addr b \<Longrightarrow> outranks a b \<longleftrightarrow> \<not> outranks b a"
  by (auto simp: outranks_def rank_def)

lemma peer_outranks_heard: "peer_outranks a (heard b) \<longleftrightarrow> outranks b a"
  by (auto simp: peer_outranks_def heard_def advertisement_def outranks_def rank_def word_less_nat_alt word_unat_eq_iff)

lemma master_hears_master:
  assumes "vi_state a = Master" "cfg_virtual_router_id (vi_config b) = cfg_virtual_router_id (vi_config a)"
  shows "vi_state (snd (vrrp_handle (Advertisement (heard b)) a)) = (if outranks b a then Backup else Master)"
    and "tr_role_change (fst (vrrp_handle (Advertisement (heard b)) a)) = (if outranks b a then Some Demoted else None)"
  using assms peer_outranks_heard [of a b]
  by (simp_all add: vrrp_handle_def on_advertisement_def transition_defs)
    (auto simp: heard_def advertisement_def)

section \<open>Properties\<close>

definition demo_instance :: "u8 \<Rightarrow> u32 \<Rightarrow> vrrp_state \<Rightarrow> vrrp_instance" where
  "demo_instance p addr st =
     \<lparr>vi_config = default_vrrp_config\<lparr>cfg_priority := p\<rparr>, vi_state = st, vi_effective_priority = p,
      vi_local_addr = V4 addr\<rparr>"

text \<open>
  The advertisement frame round-trips: what one instance encodes its peer decodes to the
  same virtual router and priority, the interval in whole centiseconds (saturating at 655.35 s), and
  the source address the transport names. Every other input is judged by its first bytes alone: a
  frame is accepted exactly when it has the length, the magic and the version.
\<close>

theorem advertisement_round_trip:
  "adv_decode (adv_encode a) source = Inr (a\<lparr>adv_interval := wire_interval (adv_interval a), adv_source := source\<rparr>)
   \<and> (isl (adv_decode b source) \<longleftrightarrow> \<not> (frame_len \<le> length b \<and> take 3 b = [0x56, 0x52, frame_version]))"
proof -
  have "take 3 b = take 2 b @ [b ! 2]" if "frame_len \<le> length b"
    using that take_Suc_conv_app_nth [of 2 b] by (simp add: frame_len_def eval_nat_numeral)
  then show ?thesis
    unfolding adv_decode_encode by (auto simp: adv_decode_def frame_magic_def)
qed

text \<open>
  Claim C37. The election timers, computed in \<open>f64\<close>: for every advertisement interval up to \<open>2 ^ 50\<close> ns
  (13 days) the skew time is within one nanosecond of \<open>(256 - priority) / 256\<close> intervals and the
  computation does not panic; the master-down interval lies between three and four intervals (plus
  one nanosecond); and of two Backups with the same interval, above 512 ns, the one with the higher
  priority has the strictly shorter master-down interval, so it wins a simultaneous start.
\<close>

theorem master_down_timer_bounds:
  assumes "cfg_advertisement_interval (vi_config v) \<le> 2 ^ 50"
    and "cfg_advertisement_interval (vi_config w) = cfg_advertisement_interval (vi_config v)"
  shows "let d = cfg_advertisement_interval (vi_config v) in
    \<exists>s m m'. skew_time v = Some s \<and> master_down_interval v = Some m \<and> master_down_interval w = Some m'
      \<and> \<bar>int (256 * s) - int ((256 - unat (vi_effective_priority v)) * d)\<bar> \<le> 256
      \<and> 3 * d \<le> m \<and> m \<le> 4 * d + 1
      \<and> (vi_effective_priority v < vi_effective_priority w \<and> 512 < d \<longrightarrow> m' < m)"
proof -
  let ?d = "cfg_advertisement_interval (vi_config v)"
  obtain s m where sm: "skew_time v = Some s" "master_down_interval v = Some m" "m = 3 * ?d + s" "s \<le> ?d + 1"
    and s: "\<bar>int (256 * s) - int ((256 - unat (vi_effective_priority v)) * ?d)\<bar> \<le> 256"
    using master_down_close [OF assms(1)] by blast
  obtain s' m' where sm': "master_down_interval w = Some m'" "m' = 3 * ?d + s'"
    and s': "\<bar>int (256 * s') - int ((256 - unat (vi_effective_priority w)) * ?d)\<bar> \<le> 256"
    using master_down_close [of w] assms by auto
  have "s' < s" if pri: "vi_effective_priority v < vi_effective_priority w" and d: "512 < ?d"
  proof -
    have "256 - unat (vi_effective_priority w) + 1 \<le> 256 - unat (vi_effective_priority v)"
      using pri unat_u8_less [of "vi_effective_priority w"] by (simp add: word_less_nat_alt)
    then have "(256 - unat (vi_effective_priority w) + 1) * ?d \<le> (256 - unat (vi_effective_priority v)) * ?d"
      by (rule mult_le_mono1)
    then have "(256 - unat (vi_effective_priority w)) * ?d + ?d \<le> (256 - unat (vi_effective_priority v)) * ?d"
      by (simp add: algebra_simps)
    then show ?thesis using s s' d by linarith
  qed
  then show ?thesis using sm sm' s by (auto simp: Let_def)
qed

theorem master_down_timer_bounds_witness:
  "\<exists>m m'. master_down_interval (demo_instance 100 1 Backup) = Some m
     \<and> master_down_interval (demo_instance 200 2 Backup) = Some m' \<and> 3000000000 \<le> m \<and> m' < m"
  using master_down_timer_bounds [of "demo_instance 100 1 Backup" "demo_instance 200 2 Backup"]
  by (auto simp: demo_instance_def default_vrrp_config_def default_advertisement_interval_def from_secs_def Let_def)

text \<open>
  Claim C26. Two Masters resolve to one: when both instances of a pair (same virtual router, different
  addresses) are Master and each hears the other's advertisement as it arrives off the wire, exactly
  the one with the lower priority, or at equal priority the lower address, steps down and reports the
  demotion; the other keeps the role. Released priorities and the equal-priority case are included.
\<close>

theorem two_masters_resolve_to_one:
  assumes "vi_state a = Master" "vi_state b = Master" "vi_local_addr a \<noteq> vi_local_addr b"
    and "cfg_virtual_router_id (vi_config a) = cfg_virtual_router_id (vi_config b)"
  shows "\<exists>adv_a adv_b. adv_decode (adv_encode (advertisement a)) (vi_local_addr a) = Inr adv_a
    \<and> adv_decode (adv_encode (advertisement b)) (vi_local_addr b) = Inr adv_b
    \<and> (let (ta, a') = vrrp_handle (Advertisement adv_b) a; (tb, b') = vrrp_handle (Advertisement adv_a) b in
        if outranks a b
        then vi_state a' = Master \<and> tr_role_change ta = None \<and> vi_state b' = Backup \<and> tr_role_change tb = Some Demoted
        else vi_state a' = Backup \<and> tr_role_change ta = Some Demoted \<and> vi_state b' = Master \<and> tr_role_change tb = None)"
  using heard_on_the_wire [of a] heard_on_the_wire [of b] outranks_total [OF assms(3)]
    master_hears_master [of a b] master_hears_master [of b a] assms
  by (simp add: Let_def case_prod_beta)

theorem two_masters_resolve_to_one_witness:
  "\<exists>adv_a adv_b. adv_decode (adv_encode (advertisement (demo_instance 100 1 Master))) (V4 1) = Inr adv_a
    \<and> adv_decode (adv_encode (advertisement (demo_instance 100 2 Master))) (V4 2) = Inr adv_b
    \<and> vi_state (snd (vrrp_handle (Advertisement adv_b) (demo_instance 100 1 Master))) = Backup
    \<and> vi_state (snd (vrrp_handle (Advertisement adv_a) (demo_instance 100 2 Master))) = Master"
proof -
  have "\<not> outranks (demo_instance 100 1 Master) (demo_instance 100 2 Master)"
    by (simp add: outranks_def rank_def demo_instance_def less_ip_addr_def)
  then show ?thesis
    using two_masters_resolve_to_one [of "demo_instance 100 1 Master" "demo_instance 100 2 Master"]
    by (auto simp: demo_instance_def Let_def case_prod_beta)
qed

end
