(* ===== verification/Ha_Vip.thy ===== *)
theory Ha_Vip
  imports Ha_State_Sync
begin

text \<open>
  The health probes and the virtual-IP managers of \<open>sng-ha\<close> (\<open>health.rs\<close>, \<open>vip.rs\<close>). What the probes
  read (the flags other subsystems store into, the sysfs files) and the \<open>ip\<close> and \<open>arping\<close> programs are
  parameters; the locale \<open>ip_tool\<close> states what the shell manager relies on of the former.
\<close>

section \<open>Strings of the host interface\<close>

text \<open>\<open>str::contains\<close>, \<open>[_]::join\<close> and \<open>Path::join\<close>.\<close>

fun contains_str :: "string \<Rightarrow> string \<Rightarrow> bool" where
  "contains_str p [] = (p = [])"
| "contains_str p (c # s) = (strip_prefix p (c # s) \<noteq> None \<or> contains_str p s)"

fun join_str :: "string \<Rightarrow> string list \<Rightarrow> string" where
  "join_str sep [] = []"
| "join_str sep [x] = x"
| "join_str sep (x # xs) = x @ sep @ join_str sep xs"

definition path_join :: "string \<Rightarrow> string \<Rightarrow> string" where
  "path_join base part =
     (if strip_prefix ''/'' part \<noteq> None then part
      else if base = [] \<or> strip_suffix ''/'' base \<noteq> None then base @ part
      else base @ ''/'' @ part)"

text \<open>\<open>Display\<close> of an address: dotted decimal, and the compressed form of IPv6.\<close>

fun lower_hex :: "nat \<Rightarrow> string" where
  "lower_hex n = (if n < 16 then [hex_digit n] else lower_hex (n div 16) @ [hex_digit (n mod 16)])"

declare lower_hex.simps [simp del]

definition ipv4_display :: "u32 \<Rightarrow> string" where
  "ipv4_display a = join_str ''.'' (map (decimal \<circ> unat) (be32 a))"

definition ipv6_segments :: "128 word \<Rightarrow> nat list" where
  "ipv6_segments a = map (\<lambda>i. unat a div 2 ^ (16 * (7 - i)) mod 2 ^ 16) [0..<8]"

text \<open>The first longest run of zero segments, as start and length.\<close>

fun zero_span :: "nat \<Rightarrow> nat \<times> nat \<Rightarrow> nat \<times> nat \<Rightarrow> nat list \<Rightarrow> nat \<times> nat" where
  "zero_span i current longest [] = longest"
| "zero_span i current longest (x # xs) =
     (if x = 0 then
        let cur = (if snd current = 0 then i else fst current, Suc (snd current))
        in zero_span (Suc i) cur (if snd longest < snd cur then cur else longest) xs
      else zero_span (Suc i) (0, 0) longest xs)"

definition ipv6_display :: "128 word \<Rightarrow> string" where
  "ipv6_display a =
     (let segs = ipv6_segments a in
      if take 6 segs = [0, 0, 0, 0, 0, 0xffff] then ''::ffff:'' @ ipv4_display (ucast a)
      else let (start, len) = zero_span 0 (0, 0) (0, 0) segs; fmt = (\<lambda>xs. join_str '':'' (map lower_hex xs))
           in if 1 < len then fmt (take start segs) @ ''::'' @ fmt (drop (start + len) segs) else fmt segs)"

fun ip_display :: "ip_addr \<Rightarrow> string" where
  "ip_display (V4 a) = ipv4_display a"
| "ip_display (V6 a) = ipv6_display a"

section \<open>Health probes\<close>

record probe_report =
  rep_name :: string
  rep_mandatory :: bool
  rep_healthy :: bool
  rep_detail :: "string option"

record health_verdict =
  hv_reports :: "probe_report list"
  hv_fit_for_master :: bool

definition failing_mandatory :: "health_verdict \<Rightarrow> string list" where
  "failing_mandatory v = map rep_name (filter (\<lambda>r. rep_mandatory r \<and> \<not> rep_healthy r) (hv_reports v))"

text \<open>What probes read: flags by their identity, files by their path (an error is its message).\<close>

record probe_env =
  pe_flag :: "nat \<Rightarrow> bool"
  pe_read_to_string :: "string \<Rightarrow> string + string"

datatype health_probe =
    FlagProbe string bool nat
  | InterfaceUpProbe string string bool
  | StaticHealthProbe string bool nat

definition interface_up_probe_new :: "string \<Rightarrow> bool \<Rightarrow> health_probe" where
  "interface_up_probe_new interface mandatory = InterfaceUpProbe interface ''/sys'' mandatory"

definition operstate_path :: "string \<Rightarrow> string \<Rightarrow> string" where
  "operstate_path interface root =
     path_join (path_join (path_join (path_join root ''class'') ''net'') interface) ''operstate''"

definition flag_probe_check :: "probe_env \<Rightarrow> string \<Rightarrow> bool \<Rightarrow> nat \<Rightarrow> probe_report" where
  "flag_probe_check env name mandatory flag =
     \<lparr>rep_name = name, rep_mandatory = mandatory, rep_healthy = pe_flag env flag, rep_detail = None\<rparr>"

definition interface_up_probe_check :: "probe_env \<Rightarrow> string \<Rightarrow> string \<Rightarrow> bool \<Rightarrow> probe_report" where
  "interface_up_probe_check env interface root mandatory =
     (let path = operstate_path interface root;
          (healthy, detail) =
            (case pe_read_to_string env path of
               Inr s \<Rightarrow>
                 (let st = trim s
                  in (st = ''up'' \<or> st = ''unknown'', Some (interface @ '': operstate='' @ st)))
             | Inl e \<Rightarrow> (False, Some (interface @ '': read '' @ path @ '': '' @ e)))
      in \<lparr>rep_name = ''interface_up'', rep_mandatory = mandatory, rep_healthy = healthy, rep_detail = detail\<rparr>)"

definition static_health_probe_check :: "probe_env \<Rightarrow> string \<Rightarrow> bool \<Rightarrow> nat \<Rightarrow> probe_report" where
  "static_health_probe_check env name mandatory flag =
     \<lparr>rep_name = name, rep_mandatory = mandatory, rep_healthy = pe_flag env flag, rep_detail = None\<rparr>"

definition static_set_healthy :: "nat \<Rightarrow> bool \<Rightarrow> probe_env \<Rightarrow> probe_env" where
  "static_set_healthy flag healthy env = env\<lparr>pe_flag := (pe_flag env)(flag := healthy)\<rparr>"

fun probe_check :: "probe_env \<Rightarrow> health_probe \<Rightarrow> probe_report" where
  "probe_check env (FlagProbe name mandatory flag) = flag_probe_check env name mandatory flag"
| "probe_check env (InterfaceUpProbe interface root mandatory) = interface_up_probe_check env interface root mandatory"
| "probe_check env (StaticHealthProbe name mandatory flag) = static_health_probe_check env name mandatory flag"

text \<open>A registry is the probes in registration order; \<open>with_probe\<close> and \<open>push\<close> add at the end.\<close>

definition registry_push :: "health_probe \<Rightarrow> health_probe list \<Rightarrow> health_probe list" where
  "registry_push p ps = ps @ [p]"

text \<open>The registry polls its probes in order and aggregates as it goes.\<close>

fun evaluate_probes ::
  "probe_env \<Rightarrow> health_probe list \<Rightarrow> probe_report list \<Rightarrow> bool \<Rightarrow> health_verdict" where
  "evaluate_probes env [] reports fit = \<lparr>hv_reports = reports, hv_fit_for_master = fit\<rparr>"
| "evaluate_probes env (p # ps) reports fit =
     (let r = probe_check env p
      in evaluate_probes env ps (reports @ [r]) (if rep_mandatory r \<and> \<not> rep_healthy r then False else fit))"

definition registry_evaluate :: "probe_env \<Rightarrow> health_probe list \<Rightarrow> health_verdict" where
  "registry_evaluate env probes = evaluate_probes env probes [] True"

section \<open>Virtual IPs\<close>

definition default_gratuitous_arp_count :: u8 where
  "default_gratuitous_arp_count = 3"

record vip_spec =
  vs_address :: ip_addr
  vs_prefix_len :: u8
  vs_interface :: string

definition cidr :: "vip_spec \<Rightarrow> string" where
  "cidr v = ip_display (vs_address v) @ ''/'' @ decimal (unat (vs_prefix_len v))"

definition vip_validate :: "vip_spec \<Rightarrow> ha_error + unit" where
  "vip_validate v =
     (if trim (vs_interface v) = [] then Inl (InvalidConfig ''vip interface is empty'')
      else let m = (case vs_address v of V4 _ \<Rightarrow> 32 | V6 _ \<Rightarrow> 128)
           in if m < vs_prefix_len v
              then Inl (InvalidConfig (''vip prefix /'' @ decimal (unat (vs_prefix_len v))
                     @ '' out of range for address family (max /'' @ decimal (unat m) @ '')''))
              else Inr ())"

definition ip_addr_add_args :: "vip_spec \<Rightarrow> string list" where
  "ip_addr_add_args v = [''addr'', ''add'', cidr v, ''dev'', vs_interface v]"

definition ip_addr_del_args :: "vip_spec \<Rightarrow> string list" where
  "ip_addr_del_args v = [''addr'', ''del'', cidr v, ''dev'', vs_interface v]"

definition arping_args :: "vip_spec \<Rightarrow> u8 \<Rightarrow> string list" where
  "arping_args v n = [''-A'', ''-c'', decimal (unat n), ''-I'', vs_interface v, ip_display (vs_address v)]"

text \<open>A manager acts on a state \<open>'v\<close> of the host.\<close>

record 'v vip_ops =
  vip_acquire :: "vip_spec \<Rightarrow> 'v \<Rightarrow> (ha_error + unit) \<times> 'v"
  vip_release :: "vip_spec \<Rightarrow> 'v \<Rightarrow> (ha_error + unit) \<times> 'v"

subsection \<open>The shell manager\<close>

record command_output =
  co_success :: bool
  co_status :: string
  co_stderr :: string

type_synonym 'v command = "string \<Rightarrow> string list \<Rightarrow> 'v \<Rightarrow> (string + command_output) \<times> 'v"

record shell_vip_manager =
  svm_ip_binary :: string
  svm_arping_binary :: string
  svm_gratuitous_arp_count :: u8

definition default_shell_vip_manager :: shell_vip_manager where
  "default_shell_vip_manager =
     \<lparr>svm_ip_binary = ''ip'', svm_arping_binary = ''arping'', svm_gratuitous_arp_count = default_gratuitous_arp_count\<rparr>"

definition run_ip ::
  "'v command \<Rightarrow> shell_vip_manager \<Rightarrow> string list \<Rightarrow> bool \<Rightarrow> 'v \<Rightarrow> (ha_error + unit) \<times> 'v" where
  "run_ip run m args tolerate_exists h =
     (case run (svm_ip_binary m) args h of
        (Inl e, h1) \<Rightarrow> (Inl (Vip (''spawn '' @ svm_ip_binary m @ '': '' @ e)), h1)
      | (Inr out, h1) \<Rightarrow>
          if co_success out then (Inr (), h1)
          else let lower = to_ascii_lowercase (co_stderr out) in
               if tolerate_exists \<and>
                 (contains_str ''file exists'' lower \<or> contains_str ''cannot assign requested address'' lower)
               then (Inr (), h1)
               else (Inl (Vip (svm_ip_binary m @ '' '' @ join_str '' '' args @ '' exited '' @ co_status out
                       @ '': '' @ trim (co_stderr out))), h1))"

text \<open>The announcement is best effort: every outcome is only logged.\<close>

definition announce :: "'v command \<Rightarrow> shell_vip_manager \<Rightarrow> vip_spec \<Rightarrow> 'v \<Rightarrow> 'v" where
  "announce run m v h = snd (run (svm_arping_binary m) (arping_args v (svm_gratuitous_arp_count m)) h)"

definition shell_acquire ::
  "'v command \<Rightarrow> shell_vip_manager \<Rightarrow> vip_spec \<Rightarrow> 'v \<Rightarrow> (ha_error + unit) \<times> 'v" where
  "shell_acquire run m v h =
     (case vip_validate v of
        Inl e \<Rightarrow> (Inl e, h)
      | Inr _ \<Rightarrow>
          (case run_ip run m (ip_addr_add_args v) True h of
             (Inl e, h1) \<Rightarrow> (Inl e, h1)
           | (Inr _, h1) \<Rightarrow> (Inr (), announce run m v h1)))"

definition shell_release ::
  "'v command \<Rightarrow> shell_vip_manager \<Rightarrow> vip_spec \<Rightarrow> 'v \<Rightarrow> (ha_error + unit) \<times> 'v" where
  "shell_release run m v h =
     (case vip_validate v of
        Inl e \<Rightarrow> (Inl e, h)
      | Inr _ \<Rightarrow> run_ip run m (ip_addr_del_args v) True h)"

definition shell_vip_ops :: "'v command \<Rightarrow> shell_vip_manager \<Rightarrow> 'v vip_ops" where
  "shell_vip_ops run m = \<lparr>vip_acquire = shell_acquire run m, vip_release = shell_release run m\<rparr>"

subsection \<open>The no-op and the recording manager\<close>

definition noop_vip_ops :: "'v vip_ops" where
  "noop_vip_ops = \<lparr>vip_acquire = (\<lambda>_ h. (Inr (), h)), vip_release = (\<lambda>_ h. (Inr (), h))\<rparr>"

datatype vip_event = Acquired vip_spec | Released vip_spec

type_synonym recording_vip_manager = "vip_event list"

definition recording_acquire ::
  "vip_spec \<Rightarrow> recording_vip_manager \<Rightarrow> (ha_error + unit) \<times> recording_vip_manager" where
  "recording_acquire v es =
     (case vip_validate v of Inl e \<Rightarrow> (Inl e, es) | Inr _ \<Rightarrow> (Inr (), es @ [Acquired v]))"

definition recording_release ::
  "vip_spec \<Rightarrow> recording_vip_manager \<Rightarrow> (ha_error + unit) \<times> recording_vip_manager" where
  "recording_release v es =
     (case vip_validate v of Inl e \<Rightarrow> (Inl e, es) | Inr _ \<Rightarrow> (Inr (), es @ [Released v]))"

definition recording_vip_ops :: "recording_vip_manager vip_ops" where
  "recording_vip_ops = \<lparr>vip_acquire = recording_acquire, vip_release = recording_release\<rparr>"

section \<open>What the controller relies on\<close>

text \<open>
  The contract of a manager for one address: an acquire that succeeds leaves the address on the
  interface, a release that succeeds removes it, and one that fails changes nothing.
\<close>

locale vip_manager =
  fixes ops :: "'v vip_ops" and spec :: vip_spec and holds :: "'v \<Rightarrow> bool"
  assumes acquire_ok: "vip_acquire ops spec h = (Inr u, h') \<Longrightarrow> holds h'"
    and acquire_err: "vip_acquire ops spec h = (Inl e, h') \<Longrightarrow> holds h' = holds h"
    and release_ok: "vip_release ops spec h = (Inr u, h') \<Longrightarrow> \<not> holds h'"
    and release_err: "vip_release ops spec h = (Inl e, h') \<Longrightarrow> holds h' = holds h"

text \<open>The recorder holds the address when the last event for it is an acquire.\<close>

fun records_held :: "vip_spec \<Rightarrow> recording_vip_manager \<Rightarrow> bool" where
  "records_held v [] = False"
| "records_held v (e # es) =
     (if Acquired v \<in> set es \<or> Released v \<in> set es then records_held v es else e = Acquired v)"

lemma records_held_snoc: "records_held v (es @ [e]) \<longleftrightarrow> e = Acquired v \<or> e \<noteq> Released v \<and> records_held v es"
  by (induction es) auto

interpretation recording: vip_manager recording_vip_ops spec "records_held spec" for spec
  by unfold_locales
    (auto simp: recording_vip_ops_def recording_acquire_def recording_release_def records_held_snoc
      split: sum.splits)

text \<open>
  What the shell manager relies on of \<open>ip addr\<close> and \<open>arping\<close>: the exit status and the two error messages
  the manager recognises mean what it takes them to mean. Adding an address must not fail with the
  message that deletion of an absent address gives.
\<close>

definition says :: "string \<Rightarrow> command_output \<Rightarrow> bool" where
  "says msg out \<longleftrightarrow> \<not> co_success out \<and> contains_str msg (to_ascii_lowercase (co_stderr out))"

locale ip_tool =
  fixes run :: "'v command" and m :: shell_vip_manager and spec :: vip_spec and holds :: "'v \<Rightarrow> bool"
  assumes add_done: "run (svm_ip_binary m) (ip_addr_add_args spec) h = (Inr out, h') \<Longrightarrow>
      co_success out \<or> says ''file exists'' out \<Longrightarrow> holds h'"
    and add_failed: "run (svm_ip_binary m) (ip_addr_add_args spec) h = (Inr out, h') \<Longrightarrow>
      \<not> co_success out \<Longrightarrow> \<not> says ''file exists'' out \<Longrightarrow> holds h' = holds h"
    and add_assigns: "run (svm_ip_binary m) (ip_addr_add_args spec) h = (Inr out, h') \<Longrightarrow>
      \<not> says ''cannot assign requested address'' out"
    and del_done: "run (svm_ip_binary m) (ip_addr_del_args spec) h = (Inr out, h') \<Longrightarrow>
      co_success out \<or> says ''cannot assign requested address'' out \<Longrightarrow> \<not> holds h'"
    and del_failed: "run (svm_ip_binary m) (ip_addr_del_args spec) h = (Inr out, h') \<Longrightarrow>
      \<not> co_success out \<Longrightarrow> \<not> says ''cannot assign requested address'' out \<Longrightarrow> holds h' = holds h"
    and del_removes: "run (svm_ip_binary m) (ip_addr_del_args spec) h = (Inr out, h') \<Longrightarrow>
      \<not> says ''file exists'' out"
    and spawn_failed: "run (svm_ip_binary m) args h = (Inl e, h') \<Longrightarrow> holds h' = holds h"
    and arping_keeps: "run (svm_arping_binary m) args h = (res, h') \<Longrightarrow> holds h' = holds h"
begin

lemma announce_keeps: "holds (announce run m spec h) = holds h"
  unfolding announce_def using arping_keeps by (metis prod.collapse)

lemma run_ip_add:
  "run_ip run m (ip_addr_add_args spec) True h = (res, h') \<Longrightarrow>
     (case res of Inr _ \<Rightarrow> holds h' | Inl _ \<Rightarrow> holds h' = holds h)"
  using add_done add_failed spawn_failed
  by (auto simp: run_ip_def says_def Let_def split: sum.splits prod.splits if_splits dest: add_assigns)

lemma run_ip_del:
  "run_ip run m (ip_addr_del_args spec) True h = (res, h') \<Longrightarrow>
     (case res of Inr _ \<Rightarrow> \<not> holds h' | Inl _ \<Rightarrow> holds h' = holds h)"
  using del_done del_failed spawn_failed
  by (auto simp: run_ip_def says_def Let_def split: sum.splits prod.splits if_splits dest: del_removes)

end

sublocale ip_tool \<subseteq> shell: vip_manager "shell_vip_ops run m" spec holds
proof
  fix h u h' assume "vip_acquire (shell_vip_ops run m) spec h = (Inr u, h')"
  then show "holds h'"
    by (auto simp: shell_vip_ops_def shell_acquire_def announce_keeps split: sum.splits prod.splits dest!: run_ip_add)
next
  fix h e h' assume "vip_acquire (shell_vip_ops run m) spec h = (Inl e, h')"
  then show "holds h' = holds h"
    by (auto simp: shell_vip_ops_def shell_acquire_def split: sum.splits prod.splits dest!: run_ip_add)
next
  fix h u h' assume "vip_release (shell_vip_ops run m) spec h = (Inr u, h')"
  then show "\<not> holds h'"
    by (auto simp: shell_vip_ops_def shell_release_def split: sum.splits dest!: run_ip_del)
next
  fix h e h' assume "vip_release (shell_vip_ops run m) spec h = (Inl e, h')"
  then show "holds h' = holds h"
    by (auto simp: shell_vip_ops_def shell_release_def split: sum.splits dest!: run_ip_del)
qed

text \<open>A host as the set of configured addresses, with the messages the kernel gives.\<close>

type_synonym addr_table = "(string \<times> string) list"

definition table_run :: "addr_table command" where
  "table_run bin args h =
     (let done = \<lparr>co_success = True, co_status = ''exit status: 0'', co_stderr = []\<rparr>;
          failed = (\<lambda>msg. \<lparr>co_success = False, co_status = ''exit status: 2'', co_stderr = ''RTNETLINK answers: '' @ msg\<rparr>)
      in if bin = ''ip'' \<and> length args = 5 then
           let entry = (args ! 2, args ! 4) in
           if args ! 1 = ''add'' then
             if entry \<in> set h then (Inr (failed ''File exists''), h) else (Inr done, entry # h)
           else if entry \<in> set h then (Inr done, removeAll entry h)
           else (Inr (failed ''Cannot assign requested address''), h)
         else (Inr done, h))"

definition table_holds :: "vip_spec \<Rightarrow> addr_table \<Rightarrow> bool" where
  "table_holds v h \<longleftrightarrow> (cidr v, vs_interface v) \<in> set h"

interpretation table_host: ip_tool table_run default_shell_vip_manager spec "table_holds spec" for spec
proof -
  let ?e = "to_ascii_lowercase ''RTNETLINK answers: File exists''"
    and ?c = "to_ascii_lowercase ''RTNETLINK answers: Cannot assign requested address''"
  have msgs: "contains_str ''file exists'' ?e" "\<not> contains_str ''cannot assign requested address'' ?e"
    "contains_str ''cannot assign requested address'' ?c" "\<not> contains_str ''file exists'' ?c"
    by code_simp+
  show "ip_tool table_run default_shell_vip_manager spec (table_holds spec)" for spec
    using msgs
    by unfold_locales
      (auto simp: table_run_def table_holds_def default_shell_vip_manager_def ip_addr_add_args_def
        ip_addr_del_args_def says_def Let_def split: if_splits)
qed

section \<open>Facts about the registry\<close>

lemma evaluate_probes_eq:
  "evaluate_probes env ps rs fit =
     \<lparr>hv_reports = rs @ map (probe_check env) ps,
      hv_fit_for_master = (fit \<and> (\<forall>p \<in> set ps. rep_mandatory (probe_check env p) \<longrightarrow> rep_healthy (probe_check env p)))\<rparr>"
  by (induction ps arbitrary: rs fit) (auto simp: Let_def)

text \<open>An instance is fit exactly when no mandatory probe is named as failing.\<close>

lemma fit_iff_none_failing:
  "hv_fit_for_master (registry_evaluate env ps) \<longleftrightarrow> failing_mandatory (registry_evaluate env ps) = []"
  by (auto simp: registry_evaluate_def evaluate_probes_eq failing_mandatory_def filter_empty_conv)

end
