(* ===== verification/Ha_Sync_Concurrency.thy ===== *)
theory Ha_Sync_Concurrency
  imports Ha_State_Sync
begin

text \<open>
  The sync queue of \<open>sng-ha\<close> under concurrent use: producers that push, pumps that take a batch,
  write it and settle the outcome, and readers of the counters, with the steps of different callers
  interleaved at the points where \<open>state_sync.rs\<close> does not hold the queue's lock.
\<close>

section \<open>The system\<close>

text \<open>
  A flight is a batch a pump has taken and not settled. The remaining components are ghosts: the
  records that entered the queue, the records taken from it (both in order), the number of evictions,
  and whether a record was lost that no marker has announced yet, in the queue or at the time a
  flight was taken.
\<close>

record flight =
  fl_lagged :: bool
  fl_records :: "sync_record list"
  fl_unsignalled :: bool

record sync_sys =
  ss_queue :: sync_queue
  ss_flights :: "flight list"
  ss_pushing :: nat
  ss_uncounted :: "nat list"
  ss_entered :: "sync_record list"
  ss_taken :: "sync_record list"
  ss_evictions :: nat
  ss_unsignalled :: bool

definition sync_init :: "nat \<Rightarrow> sync_sys" where
  "sync_init capacity =
     \<lparr>ss_queue = sync_queue_new capacity, ss_flights = [], ss_pushing = 0, ss_uncounted = [],
      ss_entered = [], ss_taken = [], ss_evictions = 0, ss_unsignalled = False\<rparr>"

definition queue_full :: "sync_queue \<Rightarrow> bool" where
  "queue_full q \<longleftrightarrow> sq_capacity q \<le> depth q"

text \<open>Settling a flight leaves a loss unannounced when its marker did not go out or the batch was lost.\<close>

definition unsettled_loss :: "flight \<Rightarrow> ha_error + nat \<Rightarrow> bool" where
  "unsettled_loss fl res =
     (if fl_records fl = [] then fl_unsignalled fl else case res of Inl _ \<Rightarrow> True | Inr _ \<Rightarrow> False)"

inductive sync_step :: "sync_sys \<Rightarrow> sync_sys \<Rightarrow> bool" where
  push_counted:
    "sync_step s (s\<lparr>ss_queue := count_push (ss_queue s), ss_pushing := Suc (ss_pushing s)\<rparr>)"
| push_entered: "ss_pushing s = Suc n \<Longrightarrow>
    sync_step s (s\<lparr>ss_queue := push_locked r (ss_queue s), ss_pushing := n, ss_entered := ss_entered s @ [r],
      ss_evictions := ss_evictions s + (if queue_full (ss_queue s) then 1 else 0),
      ss_unsignalled := (ss_unsignalled s \<or> queue_full (ss_queue s))\<rparr>)"
| drained: "drain_locked m (ss_queue s) = (out, q) \<Longrightarrow>
    sync_step s (s\<lparr>ss_queue := q, ss_taken := ss_taken s @ out, ss_uncounted := ss_uncounted s @ [length out]\<rparr>)"
| batch_taken: "take_lag_locked m (ss_queue s) = ((lagged, out), q) \<Longrightarrow>
    sync_step s (s\<lparr>ss_queue := q, ss_taken := ss_taken s @ out, ss_uncounted := ss_uncounted s @ [length out],
      ss_flights := ss_flights s @ [\<lparr>fl_lagged = lagged, fl_records = out, fl_unsignalled = ss_unsignalled s\<rparr>],
      ss_unsignalled := False\<rparr>)"
| drain_counted: "ss_uncounted s = xs @ k # ys \<Longrightarrow>
    sync_step s (s\<lparr>ss_queue := count_drained k (ss_queue s), ss_uncounted := xs @ ys\<rparr>)"
| batch_settled: "ss_flights s = xs @ fl # ys \<Longrightarrow>
    sync_step s (s\<lparr>ss_queue := pump_settle (fl_lagged fl) (fl_records fl) res (ss_queue s),
      ss_flights := xs @ ys, ss_unsignalled := (ss_unsignalled s \<or> unsettled_loss fl res)\<rparr>)"
| marked: "sync_step s (s\<lparr>ss_queue := mark_lagged (ss_queue s)\<rparr>)"
| acknowledged: "sync_step s (s\<lparr>ss_queue := reset_lagged (ss_queue s), ss_unsignalled := False\<rparr>)"

inductive_cases sync_stepE: "sync_step s s'"

section \<open>Invariants\<close>

definition order_inv :: "sync_sys \<Rightarrow> bool" where
  "order_inv s \<longleftrightarrow>
     0 < sq_capacity (ss_queue s) \<and> depth (ss_queue s) \<le> sq_capacity (ss_queue s)
     \<and> suffix (sq_inner (ss_queue s)) (ss_entered s)
     \<and> subseq (ss_taken s @ sq_inner (ss_queue s)) (ss_entered s)
     \<and> length (ss_entered s) = ss_evictions s + length (ss_taken s) + depth (ss_queue s)"

definition counter_inv :: "sync_sys \<Rightarrow> bool" where
  "counter_inv s \<longleftrightarrow>
     sq_pushed (ss_queue s) = of_nat (length (ss_entered s) + ss_pushing s)
     \<and> sq_evicted (ss_queue s) = of_nat (ss_evictions s)
     \<and> sq_drained (ss_queue s) + of_nat (sum_list (ss_uncounted s)) = of_nat (length (ss_taken s))"

definition lag_inv :: "sync_sys \<Rightarrow> bool" where
  "lag_inv s \<longleftrightarrow>
     (ss_unsignalled s \<longrightarrow> is_lagged (ss_queue s))
     \<and> (\<forall>fl \<in> set (ss_flights s). fl_unsignalled fl \<longrightarrow> fl_lagged fl)"

lemmas queue_op_defs =
  count_push_def push_locked_def drain_locked_def take_lag_locked_def count_drained_def pump_settle_def
  mark_lagged_def reset_lagged_def depth_def queue_full_def is_lagged_def

lemma order_inv_init: "order_inv (sync_init c)"
  by (simp add: order_inv_def sync_init_def sync_queue_new_def depth_def)

lemma counter_inv_init: "counter_inv (sync_init c)"
  by (simp add: counter_inv_def sync_init_def sync_queue_new_def)

lemma lag_inv_init: "lag_inv (sync_init c)"
  by (simp add: lag_inv_def sync_init_def)

lemma lag_inv_step: "sync_step s s' \<Longrightarrow> lag_inv s \<Longrightarrow> lag_inv s'"
  by (induction rule: sync_step.induct)
    (auto simp: lag_inv_def queue_op_defs unsettled_loss_def Let_def split: if_splits sum.splits)

lemma counter_inv_step: "sync_step s s' \<Longrightarrow> counter_inv s \<Longrightarrow> counter_inv s'"
  by (induction rule: sync_step.induct)
    (auto simp: counter_inv_def queue_op_defs Let_def algebra_simps split: sum.splits)

lemma subseq_drop_one: "subseq (xs @ y # ys) zs \<Longrightarrow> subseq (xs @ ys) zs"
  by (rule subseq_order.trans [of _ "xs @ y # ys"]) (simp_all add: list_emb_Cons list_emb_append_mono)

lemma suffix_drop_trans: "suffix xs ys \<Longrightarrow> suffix (drop n xs) ys"
  by (meson suffix_drop suffix_order.trans)

lemma order_inv_push:
  assumes "order_inv s"
  shows "order_inv (s\<lparr>ss_queue := push_locked r (ss_queue s), ss_pushing := n, ss_entered := ss_entered s @ [r],
      ss_evictions := ss_evictions s + (if queue_full (ss_queue s) then 1 else 0),
      ss_unsignalled := u\<rparr>)"
proof (cases "queue_full (ss_queue s)")
  case True
  then obtain x xs where inner: "sq_inner (ss_queue s) = x # xs"
    using assms by (cases "sq_inner (ss_queue s)") (auto simp: order_inv_def queue_op_defs)
  have "subseq (ss_taken s @ xs) (ss_entered s)"
    using assms subseq_drop_one [of "ss_taken s" x xs] by (simp add: order_inv_def inner)
  moreover have "suffix xs (ss_entered s)"
    using assms suffix_ConsD [of x xs] by (simp add: order_inv_def inner)
  ultimately show ?thesis
    using assms True by (auto simp: order_inv_def queue_op_defs inner suffix_def Let_def simp flip: append_assoc)
next
  case False
  then show ?thesis
    using assms by (auto simp: order_inv_def queue_op_defs suffix_def Let_def simp flip: append_assoc)
qed

lemma order_inv_step: "sync_step s s' \<Longrightarrow> order_inv s \<Longrightarrow> order_inv s'"
proof (induction rule: sync_step.induct)
  case (push_entered s n r)
  then show ?case using order_inv_push by blast
qed (auto simp: order_inv_def queue_op_defs Let_def suffix_drop_trans split: sum.splits)

lemma reachable_invs:
  assumes "sync_step\<^sup>*\<^sup>* (sync_init c) s"
  shows "order_inv s \<and> counter_inv s \<and> lag_inv s"
  using assms
proof (induction rule: rtranclp_induct)
  case base
  show ?case by (simp add: order_inv_init counter_inv_init lag_inv_init)
next
  case (step s1 s2)
  then show ?case by (simp add: order_inv_step counter_inv_step lag_inv_step)
qed

lemma unsignalled_persists:
  assumes "sync_step s s'" "ss_unsignalled s" "\<not> ss_unsignalled s'"
  shows "(\<exists>fl. ss_flights s' = ss_flights s @ [fl] \<and> fl_unsignalled fl)
    \<or> ss_queue s' = reset_lagged (ss_queue s)"
  using assms by (auto elim!: sync_stepE)

section \<open>A run that loses a record\<close>

text \<open>Two pushes into a queue of capacity one, then a pump takes the batch.\<close>

definition evicting_run :: sync_sys where
  "evicting_run =
     \<lparr>ss_queue = \<lparr>sq_inner = [], sq_capacity = 1, sq_lagged = False, sq_pushed = 2, sq_evicted = 1, sq_drained = 0\<rparr>,
      ss_flights = [\<lparr>fl_lagged = True, fl_records = [score_record 2], fl_unsignalled = True\<rparr>],
      ss_pushing = 0, ss_uncounted = [1], ss_entered = [score_record 1, score_record 2],
      ss_taken = [score_record 2], ss_evictions = 1, ss_unsignalled = False\<rparr>"

lemma evicting_run_reachable: "sync_step\<^sup>*\<^sup>* (sync_init 1) evicting_run"
proof -
  let ?push = "\<lambda>r s. s\<lparr>ss_queue := push_locked r (count_push (ss_queue s)), ss_entered := ss_entered s @ [r],
      ss_evictions := ss_evictions s + (if queue_full (ss_queue s) then 1 else 0),
      ss_unsignalled := (ss_unsignalled s \<or> queue_full (ss_queue s))\<rparr>"
  have push: "sync_step\<^sup>*\<^sup>* s (?push r s)" for r s
    using sync_step.push_counted [of s]
      sync_step.push_entered [of "s\<lparr>ss_queue := count_push (ss_queue s), ss_pushing := Suc (ss_pushing s)\<rparr>" "ss_pushing s" r]
    by (simp add: queue_full_def count_push_def depth_def)
  let ?s = "?push (score_record 2) (?push (score_record 1) (sync_init 1))"
  have "sync_step\<^sup>*\<^sup>* (sync_init 1) ?s" using push rtranclp_trans by meson
  moreover have "sync_step ?s evicting_run"
    using sync_step.batch_taken [of 16 ?s True "[score_record 2]"]
    by (simp add: sync_init_def sync_queue_new_def queue_op_defs evicting_run_def Let_def)
  ultimately show ?thesis by simp
qed

section \<open>Properties\<close>

text \<open>
  Claim C30. In every reachable state of the queue, however its callers interleave: the depth is within
  the capacity; the queue holds the newest records that entered it, in order; what was taken and what
  is still queued is, in order, a subsequence of what entered, short of it by exactly the evicted
  records; and the published counters are these numbers modulo the word size, up to the callers that
  are between their counter and the lock.
\<close>

theorem sync_queue_accounting:
  assumes "sync_step\<^sup>*\<^sup>* (sync_init capacity) s"
  shows "stat_depth (queue_stats (ss_queue s)) \<le> sq_capacity (ss_queue s)
    \<and> suffix (sq_inner (ss_queue s)) (ss_entered s)
    \<and> subseq (ss_taken s @ sq_inner (ss_queue s)) (ss_entered s)
    \<and> length (ss_entered s) = ss_evictions s + length (ss_taken s) + depth (ss_queue s)
    \<and> stat_pushed (queue_stats (ss_queue s)) = of_nat (length (ss_entered s) + ss_pushing s)
    \<and> stat_evicted (queue_stats (ss_queue s)) = of_nat (ss_evictions s)
    \<and> stat_drained (queue_stats (ss_queue s)) + of_nat (sum_list (ss_uncounted s)) = of_nat (length (ss_taken s))"
  using reachable_invs [OF assms] by (simp add: queue_stats_def order_inv_def counter_inv_def)

theorem sync_queue_accounting_witness:
  "subseq (ss_taken evicting_run @ sq_inner (ss_queue evicting_run)) (ss_entered evicting_run)
   \<and> length (ss_entered evicting_run) = ss_evictions evicting_run + length (ss_taken evicting_run)
       + depth (ss_queue evicting_run)"
  using sync_queue_accounting [OF evicting_run_reachable] by simp

text \<open>
  Claim C27. A lost record is never silently forgotten: in every reachable state, if a record was lost
  that no marker has announced, the latch is set, so the next flush carries the marker; a batch taken
  while such a loss was open carries the marker itself; and the open loss is closed only by handing it
  to a batch or by an explicit reset of the latch. This includes evictions that happen while a flush
  is being written, flushes that fail, and flushes that found nothing to send.
\<close>

theorem lag_signal_never_dropped:
  assumes "sync_step\<^sup>*\<^sup>* (sync_init capacity) s"
  shows "(ss_unsignalled s \<longrightarrow> is_lagged (ss_queue s))
    \<and> (\<forall>fl \<in> set (ss_flights s). fl_unsignalled fl \<longrightarrow> fl_lagged fl)
    \<and> (\<forall>s'. sync_step s s' \<and> ss_unsignalled s \<and> \<not> ss_unsignalled s' \<longrightarrow>
         (\<exists>fl. ss_flights s' = ss_flights s @ [fl] \<and> fl_unsignalled fl \<and> fl_lagged fl)
         \<or> ss_queue s' = reset_lagged (ss_queue s))"
proof -
  have "lag_inv s" using reachable_invs [OF assms] by simp
  moreover have "lag_inv s'" if "sync_step s s'" for s'
    using that \<open>lag_inv s\<close> by (rule lag_inv_step)
  ultimately show ?thesis
    using unsignalled_persists [of s] unfolding lag_inv_def by fastforce
qed

theorem lag_signal_never_dropped_witness:
  "fl_unsignalled (hd (ss_flights evicting_run)) \<and> fl_lagged (hd (ss_flights evicting_run))"
  using lag_signal_never_dropped [OF evicting_run_reachable] by (simp add: evicting_run_def)

end
