(* ===== verification/Ha_Controller.thy ===== *)
theory Ha_Controller
  imports Ha_Vrrp Ha_Vip Ha_Sync_Concurrency
begin

text \<open>
  The failover loop of \<open>sng-ha\<close> (\<open>lib.rs\<close>): one instance of the pair, composed of the election, the
  probes, the virtual IP, the sync queue and the fencing gate. The \<open>select!\<close> loop is a run over a
  sequence of timed events; the advertisement channel and the VIP manager are parameters. A panic
  (an overflowing timer) is divergence of the monad, and the lemmas show it does not occur for the
  intervals and clocks they name.
\<close>

section \<open>Settings and counters\<close>

definition default_health_interval :: nat where
  "default_health_interval = from_secs 1"

definition master_down_disabled :: nat where
  "master_down_disabled = from_secs 3600"

record ha_settings =
  hs_vrrp :: vrrp_config
  hs_vip :: vip_spec
  hs_local_addr :: ip_addr
  hs_health_interval :: nat
  hs_sync_batch :: nat

definition ha_settings_validate :: "ha_settings \<Rightarrow> ha_error + unit" where
  "ha_settings_validate s =
     and_then (vrrp_config_validate (hs_vrrp s)) (\<lambda>_.
     and_then (vip_validate (hs_vip s)) (\<lambda>_.
       if hs_health_interval s = 0 then Inl (InvalidConfig ''health_interval must be non-zero'') else Inr ()))"

definition role_initialize :: u8 where
  "role_initialize = 0"

definition role_backup :: u8 where
  "role_backup = 1"

definition role_master :: u8 where
  "role_master = 2"

definition role_label :: "u8 \<Rightarrow> string" where
  "role_label r = (if r = role_backup then ''backup'' else if r = role_master then ''master'' else ''initialize'')"

fun state_to_code :: "vrrp_state \<Rightarrow> u8" where
  "state_to_code Initialize = role_initialize"
| "state_to_code Backup = role_backup"
| "state_to_code Master = role_master"

text \<open>The atomics of \<open>HaStats\<close>; a snapshot reads each of them.\<close>

record ha_stats =
  st_role :: u8
  st_promotions :: u64
  st_demotions :: u64
  st_advertisements_sent :: u64
  st_advertisements_received :: u64
  st_health_releases :: u64
  st_master_epoch :: u64

definition ha_stats_default :: ha_stats where
  "ha_stats_default =
     \<lparr>st_role = 0, st_promotions = 0, st_demotions = 0, st_advertisements_sent = 0,
      st_advertisements_received = 0, st_health_releases = 0, st_master_epoch = 0\<rparr>"

definition set_role :: "vrrp_state \<Rightarrow> ha_stats \<Rightarrow> ha_stats" where
  "set_role st stats = stats\<lparr>st_role := state_to_code st\<rparr>"

section \<open>The controller\<close>

text \<open>The collaborators, and the state: the controller's shared handles and the locals of \<open>run\<close>.\<close>

record ('c, 'v) ha_env =
  he_settings :: ha_settings
  he_send :: "bytes \<Rightarrow> 'c \<Rightarrow> (ha_error + unit) \<times> 'c"
  he_vip :: "'v vip_ops"
  he_probes :: "health_probe list"

record ('c, 'v) ha_node =
  nd_vrrp :: vrrp_instance
  nd_next_master_down :: nat
  nd_stats :: ha_stats
  nd_fence :: fence_state
  nd_queue :: sync_queue
  nd_channel :: 'c
  nd_vip :: 'v

type_synonym ('c, 'v, 'a) ha_act = "(('c, 'v) ha_node, ha_error, 'a) act"

text \<open>Before \<open>run\<close> the locals are not read; they stand at the instance in its initial state.\<close>

definition controller_new ::
  "('c, 'v) ha_env \<Rightarrow> sync_queue \<Rightarrow> 'c \<Rightarrow> 'v \<Rightarrow> ha_error + ('c, 'v) ha_node" where
  "controller_new env q c v =
     and_then (ha_settings_validate (he_settings env)) (\<lambda>_.
       Inr \<lparr>nd_vrrp = \<lparr>vi_config = hs_vrrp (he_settings env), vi_state = Initialize,
               vi_effective_priority = cfg_priority (hs_vrrp (he_settings env)),
               vi_local_addr = hs_local_addr (he_settings env)\<rparr>,
            nd_next_master_down = 0, nd_stats = ha_stats_default, nd_fence = fence_new, nd_queue = q,
            nd_channel = c, nd_vip = v\<rparr>)"

definition master_epoch :: "('c, 'v) ha_node \<Rightarrow> u64" where
  "master_epoch s = st_master_epoch (nd_stats s)"

definition update_stats :: "(ha_stats \<Rightarrow> ha_stats) \<Rightarrow> ('c, 'v) ha_node \<Rightarrow> ('c, 'v) ha_node" where
  "update_stats f s = s\<lparr>nd_stats := f (nd_stats s)\<rparr>"

definition call_vip ::
  "('v \<Rightarrow> (ha_error + unit) \<times> 'v) \<Rightarrow> ('c, 'v, unit) ha_act" where
  "call_vip f s = (let (res, v) = f (nd_vip s) in Some (res, s\<lparr>nd_vip := v\<rparr>))"

text \<open>\<open>Instant + Duration\<close>, which panics past the largest \<open>Instant\<close> of the platform.\<close>

definition instant_max :: nat where
  "instant_max = (2 ^ 63 - 1) * 1000000000 + 999999999"

definition instant_add :: "nat \<Rightarrow> nat \<Rightarrow> nat option" where
  "instant_add t d = (if t + d \<le> instant_max then Some (t + d) else None)"

definition arm :: "nat \<Rightarrow> nat option \<Rightarrow> ('c, 'v, unit) ha_act" where
  "arm now d s =
     (case d of
        None \<Rightarrow> None
      | Some n \<Rightarrow>
          (case instant_add now n of
             None \<Rightarrow> None
           | Some t \<Rightarrow> Some (Inr (), s\<lparr>nd_next_master_down := t\<rparr>)))"

definition arm_master_down :: "nat \<Rightarrow> ('c, 'v, unit) ha_act" where
  "arm_master_down now s =
     (if vi_state (nd_vrrp s) = Backup then arm now (master_down_interval (nd_vrrp s)) s
      else arm now (Some master_down_disabled) s)"

definition send_advertisement :: "('c, 'v) ha_env \<Rightarrow> ('c, 'v) ha_node \<Rightarrow> ('c, 'v) ha_node" where
  "send_advertisement env s =
     (case he_send env (adv_encode (advertisement (nd_vrrp s))) (nd_channel s) of
        (Inr _, c) \<Rightarrow>
          update_stats (\<lambda>st. st\<lparr>st_advertisements_sent := st_advertisements_sent st + 1\<rparr>) (s\<lparr>nd_channel := c\<rparr>)
      | (Inl _, c) \<Rightarrow> s\<lparr>nd_channel := c\<rparr>)"

text \<open>The fencing epoch a promotion takes: one above the gate, adopted into the gate.\<close>

definition mint_epoch :: "('c, 'v) ha_node \<Rightarrow> ('c, 'v) ha_node" where
  "mint_epoch s =
     (let epoch = saturating_add (fence_current (nd_fence s)) 1
      in update_stats (\<lambda>st. st\<lparr>st_master_epoch := epoch\<rparr>) (s\<lparr>nd_fence := snd (admit epoch (nd_fence s))\<rparr>))"

definition apply_role_change :: "('c, 'v) ha_env \<Rightarrow> role_change \<Rightarrow> ('c, 'v, unit) ha_act" where
  "apply_role_change env change =
     (case change of
        Promoted \<Rightarrow>
          bnd (modify (update_stats (\<lambda>st. st\<lparr>st_promotions := st_promotions st + 1\<rparr>))) (\<lambda>_.
          bnd (modify mint_epoch) (\<lambda>_.
          bnd (call_vip (vip_acquire (he_vip env) (hs_vip (he_settings env)))) (\<lambda>_.
          modify (\<lambda>s. if is_lagged (nd_queue s) then s\<lparr>nd_queue := reset_lagged (nd_queue s)\<rparr> else s))))
      | Demoted \<Rightarrow>
          bnd (modify (update_stats (\<lambda>st. st\<lparr>st_demotions := st_demotions st + 1\<rparr>))) (\<lambda>_.
          call_vip (vip_release (he_vip env) (hs_vip (he_settings env)))))"

definition apply_transition :: "('c, 'v) ha_env \<Rightarrow> transition \<Rightarrow> ('c, 'v, unit) ha_act" where
  "apply_transition env t =
     bnd (modify (\<lambda>s. update_stats (set_role (vi_state (nd_vrrp s))) s)) (\<lambda>_.
     bnd (case tr_role_change t of None \<Rightarrow> ret () | Some change \<Rightarrow> apply_role_change env change) (\<lambda>_.
     if tr_send_advertisement t then modify (send_advertisement env) else ret ()))"

text \<open>Feed one event to the machine; the transition is the result.\<close>

definition drive :: "(vrrp_instance \<Rightarrow> transition \<times> vrrp_instance) \<Rightarrow> ('c, 'v, transition) ha_act" where
  "drive f s = (let (t, v) = f (nd_vrrp s) in Some (Inr t, s\<lparr>nd_vrrp := v\<rparr>))"

definition evaluate_health :: "('c, 'v) ha_env \<Rightarrow> probe_env \<Rightarrow> ('c, 'v, bool) ha_act" where
  "evaluate_health env penv s =
     (let verdict = registry_evaluate penv (he_probes env); v = nd_vrrp s in
      if hv_fit_for_master verdict then
        if vi_effective_priority v = priority_release then
          Some (Inr (vi_state v = Backup), s\<lparr>nd_vrrp := clear_released v\<rparr>)
        else Some (Inr False, s)
      else if vi_effective_priority v \<noteq> priority_release then
        let s1 = update_stats (\<lambda>st. st\<lparr>st_health_releases := st_health_releases st + 1\<rparr>) s;
            (t, v1) = set_released v;
            s2 = s1\<lparr>nd_vrrp := v1\<rparr>
        in Some (Inr False, if tr_send_advertisement t then send_advertisement env s2 else s2)
      else Some (Inr False, s))"

section \<open>The loop\<close>

datatype loop_event =
    Adv_Tick
  | Master_Down
  | Received "ha_error + vrrp_advertisement"
  | Health_Tick probe_env

text \<open>What the receive arm does with the deadline.\<close>

definition follow_directive :: "nat \<Rightarrow> transition \<Rightarrow> ('c, 'v, unit) ha_act" where
  "follow_directive now t s =
     (case tr_master_down t of
        ResetSkew \<Rightarrow> arm now (skew_time (nd_vrrp s)) s
      | ResetFull \<Rightarrow> arm now (master_down_interval (nd_vrrp s)) s
      | Leave \<Rightarrow> if tr_role_change t \<noteq> None then arm_master_down now s else ret () s)"

definition handle_event :: "('c, 'v) ha_env \<Rightarrow> nat \<Rightarrow> loop_event \<Rightarrow> ('c, 'v, unit) ha_act" where
  "handle_event env now ev =
     (case ev of
        Adv_Tick \<Rightarrow> bnd (drive (vrrp_handle AdvertisementTimer)) (apply_transition env)
      | Master_Down \<Rightarrow>
          bnd (drive (vrrp_handle MasterDownTimer)) (\<lambda>t.
          bnd (apply_transition env t) (\<lambda>_. arm_master_down now))
      | Received (Inl _) \<Rightarrow> ret ()
      | Received (Inr adv) \<Rightarrow>
          bnd (modify (update_stats (\<lambda>st. st\<lparr>st_advertisements_received := st_advertisements_received st + 1\<rparr>))) (\<lambda>_.
          bnd (drive (vrrp_handle (Advertisement adv))) (\<lambda>t.
          bnd (apply_transition env t) (\<lambda>_. follow_directive now t)))
      | Health_Tick penv \<Rightarrow>
          bnd (evaluate_health env penv) (\<lambda>rearm. if rearm then arm_master_down now else ret ()))"

definition run_start :: "('c, 'v) ha_env \<Rightarrow> nat \<Rightarrow> ('c, 'v, unit) ha_act" where
  "run_start env now =
     (case vrrp_new (hs_vrrp (he_settings env)) (hs_local_addr (he_settings env)) of
        Inl e \<Rightarrow> raise e
      | Inr v \<Rightarrow>
          bnd (modify (\<lambda>s. update_stats (set_role (vi_state v)) (s\<lparr>nd_vrrp := v\<rparr>))) (\<lambda>_.
          bnd (drive vrrp_start) (\<lambda>t.
          bnd (apply_transition env t) (\<lambda>_. arm_master_down now))))"

fun run_loop :: "('c, 'v) ha_env \<Rightarrow> (nat \<times> loop_event) list \<Rightarrow> ('c, 'v, unit) ha_act" where
  "run_loop env [] = ret ()"
| "run_loop env ((now, ev) # evs) = bnd (handle_event env now ev) (\<lambda>_. run_loop env evs)"

text \<open>After the shutdown signal.\<close>

definition run_shutdown :: "('c, 'v) ha_env \<Rightarrow> ('c, 'v, unit) ha_act" where
  "run_shutdown env s =
     (if vi_state (nd_vrrp s) = Master
      then call_vip (vip_release (he_vip env) (hs_vip (he_settings env))) s else ret () s)"

text \<open>A whole run: the events the loop sees until the shutdown signal.\<close>

definition run :: "('c, 'v) ha_env \<Rightarrow> nat \<Rightarrow> (nat \<times> loop_event) list \<Rightarrow> ('c, 'v, unit) ha_act" where
  "run env now evs = bnd (run_start env now) (\<lambda>_. bnd (run_loop env evs) (\<lambda>_. run_shutdown env))"

section \<open>The invariant\<close>

text \<open>
  At the head of the loop: the instance runs the configured election, its priority is the configured
  one or the release signal, the role gauge and the two role counters say what the machine says, the
  epoch is one the gate has admitted, and the virtual IP is on the interface exactly when the
  instance is Master.
\<close>

definition election_inv :: "('c, 'v) ha_env \<Rightarrow> ('c, 'v) ha_node \<Rightarrow> bool" where
  "election_inv env s \<longleftrightarrow>
     vi_config (nd_vrrp s) = hs_vrrp (he_settings env)
     \<and> vi_local_addr (nd_vrrp s) = hs_local_addr (he_settings env)
     \<and> vi_state (nd_vrrp s) \<noteq> Initialize
     \<and> vi_effective_priority (nd_vrrp s) \<in> {priority_release, cfg_priority (hs_vrrp (he_settings env))}
     \<and> (master_epoch s \<le> fence_current (nd_fence s) \<or> nd_fence s = - 1)"

definition gauges_inv :: "('c, 'v) ha_node \<Rightarrow> bool" where
  "gauges_inv s \<longleftrightarrow>
     st_role (nd_stats s) = state_to_code (vi_state (nd_vrrp s))
     \<and> st_promotions (nd_stats s) = st_demotions (nd_stats s) + (if vi_state (nd_vrrp s) = Master then 1 else 0)"

definition node_inv :: "('c, 'v) ha_env \<Rightarrow> ('v \<Rightarrow> bool) \<Rightarrow> ('c, 'v) ha_node \<Rightarrow> bool" where
  "node_inv env holds s \<longleftrightarrow>
     election_inv env s \<and> gauges_inv s \<and> (holds (nd_vip s) \<longleftrightarrow> vi_state (nd_vrrp s) = Master)"

text \<open>After a VIP error the loop has ended with role and address apart.\<close>

definition vip_mismatch :: "('c, 'v) ha_env \<Rightarrow> ('v \<Rightarrow> bool) \<Rightarrow> ('c, 'v) ha_node \<Rightarrow> bool" where
  "vip_mismatch env holds s \<longleftrightarrow>
     election_inv env s \<and> gauges_inv s \<and> (holds (nd_vip s) \<longleftrightarrow> vi_state (nd_vrrp s) \<noteq> Master)"

text \<open>Between the machine's decision and its enactment.\<close>

definition decided :: "('c, 'v) ha_env \<Rightarrow> ('v \<Rightarrow> bool) \<Rightarrow> transition \<Rightarrow> ('c, 'v) ha_node \<Rightarrow> bool" where
  "decided env holds t s \<longleftrightarrow>
     election_inv env s
     \<and> st_promotions (nd_stats s) = st_demotions (nd_stats s) + (if holds (nd_vip s) then 1 else 0)
     \<and> (case tr_role_change t of
          None \<Rightarrow> holds (nd_vip s) \<longleftrightarrow> vi_state (nd_vrrp s) = Master
        | Some Promoted \<Rightarrow> vi_state (nd_vrrp s) = Master \<and> \<not> holds (nd_vip s)
        | Some Demoted \<Rightarrow> vi_state (nd_vrrp s) \<noteq> Master \<and> holds (nd_vip s))"

text \<open>A fresh controller: nothing promoted yet, the address not on the interface.\<close>

definition fresh :: "('v \<Rightarrow> bool) \<Rightarrow> ('c, 'v) ha_node \<Rightarrow> bool" where
  "fresh holds s \<longleftrightarrow> \<not> holds (nd_vip s) \<and> nd_stats s = ha_stats_default"

definition clock_ok :: "nat \<Rightarrow> bool" where
  "clock_ok now \<longleftrightarrow> now \<le> 2 ^ 62 * 1000000000"

lemma send_advertisement_frame [simp]:
  "nd_vrrp (send_advertisement env s) = nd_vrrp s" "nd_fence (send_advertisement env s) = nd_fence s"
  "nd_vip (send_advertisement env s) = nd_vip s" "nd_queue (send_advertisement env s) = nd_queue s"
  "nd_next_master_down (send_advertisement env s) = nd_next_master_down s"
  "st_role (nd_stats (send_advertisement env s)) = st_role (nd_stats s)"
  "st_promotions (nd_stats (send_advertisement env s)) = st_promotions (nd_stats s)"
  "st_demotions (nd_stats (send_advertisement env s)) = st_demotions (nd_stats s)"
  "st_master_epoch (nd_stats (send_advertisement env s)) = st_master_epoch (nd_stats s)"
  by (simp_all add: send_advertisement_def update_stats_def split: prod.split sum.split)

lemma mint_epoch_frame [simp]:
  "nd_vrrp (mint_epoch s) = nd_vrrp s" "nd_vip (mint_epoch s) = nd_vip s" "nd_queue (mint_epoch s) = nd_queue s"
  "nd_channel (mint_epoch s) = nd_channel s" "nd_next_master_down (mint_epoch s) = nd_next_master_down s"
  "st_role (nd_stats (mint_epoch s)) = st_role (nd_stats s)"
  "st_promotions (nd_stats (mint_epoch s)) = st_promotions (nd_stats s)"
  "st_demotions (nd_stats (mint_epoch s)) = st_demotions (nd_stats s)"
  "master_epoch (mint_epoch s) = saturating_add (fence_current (nd_fence s)) 1"
  by (simp_all add: mint_epoch_def update_stats_def Let_def master_epoch_def)

text \<open>A minted epoch is above everything the gate had admitted, and the gate adopts it.\<close>

lemma mint_epoch_above: "fence_current (nd_fence s) < master_epoch (mint_epoch s)"
  by (simp add: saturating_add_one_gt fence_current_not_max)

lemma mint_epoch_adopted:
  "fence_current (nd_fence (mint_epoch s)) = master_epoch (mint_epoch s) \<or> nd_fence (mint_epoch s) = - 1"
proof -
  let ?f = "nd_fence s"
  let ?e = "saturating_add (fence_current ?f) 1"
  have gt: "fence_current ?f < ?e" using mint_epoch_above [of s] by simp
  then have adm: "admit ?e ?f = (True, saturating_add ?e 1)" by (auto simp: admit_eq max_def)
  show ?thesis
  proof (cases "?e = - 1")
    case True
    then show ?thesis using adm
      by (simp add: mint_epoch_def update_stats_def Let_def word_unat_eq_iff unat_saturating_add unat_max_word)
  next
    case False
    then have "fence_current (saturating_add ?e 1) = max ?e (fence_current ?f)"
      using admit_current [OF adm] by simp
    also have "\<dots> = ?e" using gt by (simp add: max_absorb1 less_imp_le)
    finally show ?thesis using adm by (simp add: mint_epoch_def update_stats_def Let_def master_epoch_def)
  qed
qed

lemma mint_epoch_is_mark:
  assumes "nd_fence s \<noteq> - 1"
  shows "fence_current (nd_fence (mint_epoch s)) = master_epoch (mint_epoch s)"
proof -
  let ?e = "master_epoch (mint_epoch s)"
  have above: "fence_current (nd_fence s) < ?e" by (rule mint_epoch_above)
  have "unat ?e = unat (nd_fence s) - 1 + 1"
    by (simp add: unat_saturating_add_one fence_current_not_max unat_fence_current)
  then have "?e \<noteq> - 1" using unat_less_max [OF assms] by (auto simp: unat_max_word)
  moreover have "admit ?e (nd_fence s) = (True, nd_fence (mint_epoch s))"
    using above by (auto simp: admit_eq mint_epoch_def Let_def update_stats_def master_epoch_def)
  ultimately show ?thesis using admit_current above by (simp add: max_absorb1 less_imp_le)
qed

lemma election_inv_mint: "election_inv env s \<Longrightarrow> election_inv env (mint_epoch s)"
  using mint_epoch_adopted [of s] by (auto simp: election_inv_def)

lemma gate_admit_keeps_election:
  assumes "election_inv env s"
  shows "election_inv env (s\<lparr>nd_fence := snd (admit e (nd_fence s))\<rparr>)"
proof -
  have le: "nd_fence s \<le> snd (admit e (nd_fence s))" by (rule admit_grows [of e "nd_fence s" "fst (admit e (nd_fence s))"]) simp
  then have cur: "fence_current (nd_fence s) \<le> fence_current (snd (admit e (nd_fence s)))"
    by (auto simp: word_le_nat_alt unat_fence_current)
  show ?thesis
  proof (cases "nd_fence s = - 1")
    case True
    then have "snd (admit e (nd_fence s)) = - 1" using le by (simp add: word_order.extremum_unique)
    then show ?thesis using assms by (simp add: election_inv_def)
  next
    case False
    then show ?thesis using assms cur by (auto simp: election_inv_def master_epoch_def)
  qed
qed

subsection \<open>The steps of the loop\<close>

lemma triple_arm:
  assumes "\<And>s. P s \<Longrightarrow> \<exists>n t. d = Some n \<and> instant_add now n = Some t \<and> Q () (s\<lparr>nd_next_master_down := t\<rparr>)"
  shows "triple P (arm now d) Q E"
  using assms by (fastforce simp: triple_def arm_def)

lemma triple_call_vip:
  assumes "\<And>s res v. P s \<Longrightarrow> f (nd_vip s) = (res, v) \<Longrightarrow>
    (case res of Inr u \<Rightarrow> Q u (s\<lparr>nd_vip := v\<rparr>) | Inl e \<Rightarrow> E e (s\<lparr>nd_vip := v\<rparr>))"
  shows "triple P (call_vip f) Q E"
proof (rule tripleI)
  fix s assume "P s"
  obtain res v where f: "f (nd_vip s) = (res, v)" by fastforce
  show "outcome Q E (call_vip f s)"
    using assms [OF \<open>P s\<close> f] f by (cases res) (simp_all add: call_vip_def)
qed

lemma triple_drive:
  assumes "\<And>s t v. P s \<Longrightarrow> f (nd_vrrp s) = (t, v) \<Longrightarrow> Q t (s\<lparr>nd_vrrp := v\<rparr>)"
  shows "triple P (drive f) Q E"
  using assms by (auto simp: triple_def drive_def split: prod.split)

locale ha_member = vip_manager "he_vip env" "hs_vip (he_settings env)" holds
  for env :: "('c, 'v) ha_env" and holds :: "'v \<Rightarrow> bool" +
  assumes interval: "cfg_advertisement_interval (hs_vrrp (he_settings env)) \<le> 2 ^ 50"
begin

lemma node_inv_deadline [simp]: "node_inv env holds (s\<lparr>nd_next_master_down := t\<rparr>) = node_inv env holds s"
  by (simp add: node_inv_def election_inv_def gauges_inv_def master_epoch_def)

lemma timers:
  assumes "election_inv env s" "clock_ok now"
  shows "\<exists>n t. skew_time (nd_vrrp s) = Some n \<and> instant_add now n = Some t"
    and "\<exists>n t. master_down_interval (nd_vrrp s) = Some n \<and> instant_add now n = Some t"
    and "\<exists>t. instant_add now master_down_disabled = Some t"
proof -
  have "cfg_advertisement_interval (vi_config (nd_vrrp s)) \<le> 2 ^ 50"
    using assms(1) interval by (simp add: election_inv_def)
  from master_down_close [OF this] obtain n m where
    "skew_time (nd_vrrp s) = Some n" "master_down_interval (nd_vrrp s) = Some m" "n \<le> 2 ^ 50 + 1" "m \<le> 4 * 2 ^ 50 + 1"
    using \<open>_ \<le> 2 ^ 50\<close> by fastforce
  then show "\<exists>n t. skew_time (nd_vrrp s) = Some n \<and> instant_add now n = Some t"
    "\<exists>n t. master_down_interval (nd_vrrp s) = Some n \<and> instant_add now n = Some t"
    "\<exists>t. instant_add now master_down_disabled = Some t"
    using assms(2)
    by (auto simp: instant_add_def clock_ok_def instant_max_def master_down_disabled_def from_secs_def)
qed

lemma arm_master_down_inv:
  assumes "clock_ok now"
  shows "triple (node_inv env holds) (arm_master_down now) (\<lambda>_. node_inv env holds) E"
proof (rule tripleI)
  fix s assume inv: "node_inv env holds s"
  then have "election_inv env s" by (simp add: node_inv_def)
  from timers [OF this assms] show "outcome (\<lambda>_. node_inv env holds) E (arm_master_down now s)"
    using inv by (auto simp: arm_master_down_def arm_def)
qed

lemma follow_directive_inv:
  assumes "clock_ok now"
  shows "triple (node_inv env holds) (follow_directive now t) (\<lambda>_. node_inv env holds) E"
proof (rule tripleI)
  fix s assume inv: "node_inv env holds s"
  then have "election_inv env s" by (simp add: node_inv_def)
  from timers [OF this assms] show "outcome (\<lambda>_. node_inv env holds) E (follow_directive now t s)"
    using inv tripleD [OF arm_master_down_inv [OF assms] inv]
    by (cases "tr_master_down t") (auto simp: follow_directive_def arm_def ret_def)
qed

lemma promote_inv:
  "triple (\<lambda>s. decided env holds t s \<and> tr_role_change t = Some Promoted \<and> st_role (nd_stats s) = role_master)
     (apply_role_change env Promoted) (\<lambda>_. node_inv env holds) (\<lambda>_. vip_mismatch env holds)"
proof -
  let ?A = "\<lambda>s. election_inv env s \<and> vi_state (nd_vrrp s) = Master \<and> \<not> holds (nd_vip s)
    \<and> st_role (nd_stats s) = role_master \<and> st_promotions (nd_stats s) = st_demotions (nd_stats s) + 1"
  have 1: "triple (\<lambda>s. decided env holds t s \<and> tr_role_change t = Some Promoted \<and> st_role (nd_stats s) = role_master)
      (modify (update_stats (\<lambda>st. st\<lparr>st_promotions := st_promotions st + 1\<rparr>))) (\<lambda>_. ?A) (\<lambda>_. vip_mismatch env holds)"
    by (rule triple_modify)
      (auto simp: decided_def update_stats_def election_inv_def master_epoch_def split: option.splits role_change.splits)
  have 2: "triple ?A (modify mint_epoch) (\<lambda>_. ?A) (\<lambda>_. vip_mismatch env holds)"
    by (rule triple_modify) (simp add: election_inv_mint)
  have 3: "triple ?A (call_vip (vip_acquire (he_vip env) (hs_vip (he_settings env)))) (\<lambda>_. node_inv env holds)
      (\<lambda>_. vip_mismatch env holds)"
    by (rule triple_call_vip)
      (auto simp: node_inv_def vip_mismatch_def gauges_inv_def election_inv_def master_epoch_def
        acquire_ok dest: acquire_ok acquire_err split: sum.split)
  have 4: "triple (node_inv env holds)
      (modify (\<lambda>s. if is_lagged (nd_queue s) then s\<lparr>nd_queue := reset_lagged (nd_queue s)\<rparr> else s))
      (\<lambda>_. node_inv env holds) (\<lambda>_. vip_mismatch env holds)"
    by (rule triple_modify) (simp add: node_inv_def gauges_inv_def election_inv_def master_epoch_def)
  show ?thesis
    unfolding apply_role_change_def role_change.case
    by (rule triple_bnd [OF 1 triple_bnd [OF 2 triple_bnd [OF 3 4]]])
qed

lemma demote_inv:
  "triple (\<lambda>s. decided env holds t s \<and> tr_role_change t = Some Demoted
       \<and> st_role (nd_stats s) = state_to_code (vi_state (nd_vrrp s)))
     (apply_role_change env Demoted) (\<lambda>_. node_inv env holds) (\<lambda>_. vip_mismatch env holds)"
proof -
  let ?A = "\<lambda>s. election_inv env s \<and> vi_state (nd_vrrp s) \<noteq> Master \<and> holds (nd_vip s)
    \<and> st_role (nd_stats s) = state_to_code (vi_state (nd_vrrp s))
    \<and> st_promotions (nd_stats s) = st_demotions (nd_stats s)"
  have 1: "triple (\<lambda>s. decided env holds t s \<and> tr_role_change t = Some Demoted
       \<and> st_role (nd_stats s) = state_to_code (vi_state (nd_vrrp s)))
      (modify (update_stats (\<lambda>st. st\<lparr>st_demotions := st_demotions st + 1\<rparr>))) (\<lambda>_. ?A) (\<lambda>_. vip_mismatch env holds)"
    by (rule triple_modify)
      (auto simp: decided_def update_stats_def election_inv_def master_epoch_def)
  have 2: "triple ?A (call_vip (vip_release (he_vip env) (hs_vip (he_settings env)))) (\<lambda>_. node_inv env holds)
      (\<lambda>_. vip_mismatch env holds)"
    by (rule triple_call_vip)
      (auto simp: node_inv_def vip_mismatch_def gauges_inv_def election_inv_def master_epoch_def
        dest: release_ok release_err split: sum.split)
  show ?thesis
    unfolding apply_role_change_def role_change.case by (rule triple_bnd [OF 1 2])
qed

lemma apply_transition_inv:
  "triple (decided env holds t) (apply_transition env t) (\<lambda>_. node_inv env holds) (\<lambda>_. vip_mismatch env holds)"
proof -
  let ?R = "\<lambda>s. decided env holds t s \<and> st_role (nd_stats s) = state_to_code (vi_state (nd_vrrp s))"
  have 1: "triple (decided env holds t) (modify (\<lambda>s. update_stats (set_role (vi_state (nd_vrrp s))) s)) (\<lambda>_. ?R)
      (\<lambda>_. vip_mismatch env holds)"
    by (rule triple_modify)
      (auto simp: decided_def update_stats_def set_role_def election_inv_def master_epoch_def
        split: option.split role_change.split)
  have 2: "triple ?R (case tr_role_change t of None \<Rightarrow> ret () | Some change \<Rightarrow> apply_role_change env change)
      (\<lambda>_. node_inv env holds) (\<lambda>_. vip_mismatch env holds)"
  proof (cases "tr_role_change t")
    case None
    then show ?thesis
      by (auto intro!: triple_ret simp: decided_def node_inv_def gauges_inv_def split: if_splits)
  next
    case (Some change)
    show ?thesis
    proof (cases change)
      case Promoted
      show ?thesis unfolding Some option.case Promoted
        by (rule triple_conseq [OF promote_inv [of t]]) (auto simp: decided_def Some Promoted)
    next
      case Demoted
      show ?thesis unfolding Some option.case Demoted
        by (rule triple_conseq [OF demote_inv [of t]]) (auto simp: Some Demoted)
    qed
  qed
  have 3: "triple (node_inv env holds) (if tr_send_advertisement t then modify (send_advertisement env) else ret ())
      (\<lambda>_. node_inv env holds) (\<lambda>_. vip_mismatch env holds)"
    by (intro triple_if triple_modify triple_ret)
      (simp_all add: node_inv_def gauges_inv_def election_inv_def master_epoch_def)
  show ?thesis unfolding apply_transition_def by (rule triple_bnd [OF 1 triple_bnd [OF 2 3]])
qed

lemma drive_decides:
  "triple (node_inv env holds) (drive (vrrp_handle e)) (decided env holds) E"
proof (rule triple_drive)
  fix s t v assume inv: "node_inv env holds s" and h: "vrrp_handle e (nd_vrrp s) = (t, v)"
  have v: "v = snd (vrrp_handle e (nd_vrrp s))" using h by simp
  have "vi_state (nd_vrrp s) \<noteq> Initialize" using inv by (simp add: node_inv_def election_inv_def)
  from vrrp_handle_role_change [OF this h] show "decided env holds t (s\<lparr>nd_vrrp := v\<rparr>)"
    using inv vrrp_handle_frame [of e "nd_vrrp s", folded v]
    by (auto simp: decided_def node_inv_def gauges_inv_def election_inv_def master_epoch_def)
qed

lemma evaluate_health_inv:
  "triple (node_inv env holds) (evaluate_health env penv) (\<lambda>_. node_inv env holds) E"
  by (rule tripleI)
    (auto simp: evaluate_health_def Let_def set_released_def clear_released_def update_stats_def
      node_inv_def gauges_inv_def election_inv_def master_epoch_def split: prod.split)

lemma handle_event_inv:
  assumes "clock_ok now"
  shows "triple (node_inv env holds) (handle_event env now ev) (\<lambda>_. node_inv env holds) (\<lambda>_. vip_mismatch env holds)"
proof -
  have received: "triple (node_inv env holds)
      (modify (update_stats (\<lambda>st. st\<lparr>st_advertisements_received := st_advertisements_received st + 1\<rparr>)))
      (\<lambda>_. node_inv env holds) (\<lambda>_. vip_mismatch env holds)"
    by (rule triple_modify) (simp add: update_stats_def node_inv_def gauges_inv_def election_inv_def master_epoch_def)
  show ?thesis
  proof (cases ev)
    case Adv_Tick
    show ?thesis unfolding handle_event_def Adv_Tick loop_event.case
      by (rule triple_bnd [OF drive_decides apply_transition_inv])
  next
    case Master_Down
    show ?thesis unfolding handle_event_def Master_Down loop_event.case
      by (rule triple_bnd [OF drive_decides triple_bnd [OF apply_transition_inv arm_master_down_inv [OF assms]]])
  next
    case (Received res)
    show ?thesis
    proof (cases res)
      case (Inl e)
      show ?thesis unfolding handle_event_def Received loop_event.case Inl sum.case by (rule triple_ret)
    next
      case (Inr adv)
      show ?thesis unfolding handle_event_def Received loop_event.case Inr sum.case
        by (rule triple_bnd [OF received triple_bnd [OF drive_decides
              triple_bnd [OF apply_transition_inv follow_directive_inv [OF assms]]]])
    qed
  next
    case (Health_Tick penv)
    show ?thesis unfolding handle_event_def Health_Tick loop_event.case
      by (rule triple_bnd [OF evaluate_health_inv triple_if [OF arm_master_down_inv [OF assms] triple_ret]])
  qed
qed

lemma run_loop_inv:
  assumes "\<forall>(now, ev) \<in> set evs. clock_ok now"
  shows "triple (node_inv env holds) (run_loop env evs) (\<lambda>_. node_inv env holds) (\<lambda>_. vip_mismatch env holds)"
  using assms
proof (induction evs)
  case Nil
  show ?case by (simp add: triple_ret)
next
  case (Cons p evs)
  obtain now ev where p: "p = (now, ev)" by fastforce
  have "clock_ok now" using Cons.prems p by simp
  then show ?case using Cons unfolding p run_loop.simps
    by (intro triple_bnd [OF handle_event_inv]) auto
qed

lemma run_start_inv:
  assumes "clock_ok now" "vrrp_config_validate (hs_vrrp (he_settings env)) = Inr ()"
  shows "triple (fresh holds) (run_start env now) (\<lambda>_. node_inv env holds) (\<lambda>_. vip_mismatch env holds)"
proof -
  let ?v = "\<lparr>vi_config = hs_vrrp (he_settings env), vi_state = Initialize,
      vi_effective_priority = cfg_priority (hs_vrrp (he_settings env)), vi_local_addr = hs_local_addr (he_settings env)\<rparr>"
  let ?P = "\<lambda>s. \<not> holds (nd_vip s) \<and> nd_vrrp s = ?v \<and> st_promotions (nd_stats s) = st_demotions (nd_stats s)
    \<and> master_epoch s = 0"
  have new: "vrrp_new (hs_vrrp (he_settings env)) (hs_local_addr (he_settings env)) = Inr ?v"
    using assms(2) by (simp add: vrrp_new_def)
  have 1: "triple (fresh holds) (modify (\<lambda>s. update_stats (set_role (vi_state ?v)) (s\<lparr>nd_vrrp := ?v\<rparr>))) (\<lambda>_. ?P)
      (\<lambda>_. vip_mismatch env holds)"
    by (rule triple_modify) (simp add: fresh_def update_stats_def set_role_def ha_stats_default_def master_epoch_def)
  have 2: "triple ?P (drive vrrp_start) (decided env holds) (\<lambda>_. vip_mismatch env holds)"
    by (rule triple_drive)
      (auto simp: vrrp_start_def decided_def election_inv_def master_epoch_def transition_defs split: if_splits)
  show ?thesis unfolding run_start_def new sum.case
    by (rule triple_bnd [OF 1 triple_bnd [OF 2 triple_bnd [OF apply_transition_inv arm_master_down_inv [OF assms(1)]]]])
qed

lemma run_shutdown_inv:
  "triple (node_inv env holds) (run_shutdown env) (\<lambda>_ s. \<not> holds (nd_vip s)) (\<lambda>_ s. holds (nd_vip s))"
proof (rule tripleI)
  fix s assume inv: "node_inv env holds s"
  obtain res v where rel: "vip_release (he_vip env) (hs_vip (he_settings env)) (nd_vip s) = (res, v)" by fastforce
  show "outcome (\<lambda>_ s. \<not> holds (nd_vip s)) (\<lambda>_ s. holds (nd_vip s)) (run_shutdown env s)"
    using inv rel release_ok release_err
    by (cases res) (auto simp: run_shutdown_def call_vip_def ret_def node_inv_def)
qed

end

end
