(* ===== verification/Ha_Failover.thy ===== *)
theory Ha_Failover
  imports Ha_Controller
begin

text \<open>
  What the pair guarantees: the controller's invariant under everything that happens around it, the
  fencing of a predecessor on promotion, the hand-over when the Master becomes unfit, and the
  take-over by a Backup that hears no acceptable Master.
\<close>

section \<open>The controller among its peers\<close>

text \<open>
  Between two events of the loop the reader task may offer epochs to the shared gate, and producers
  and pumps may use the shared queue.
\<close>

inductive ha_step :: "('c, 'v) ha_env \<Rightarrow> ('c, 'v) ha_node \<Rightarrow> ('c, 'v) ha_node \<Rightarrow> bool"
  for env :: "('c, 'v) ha_env" where
  loop_event: "clock_ok now \<Longrightarrow> handle_event env now ev s = Some (Inr (), s') \<Longrightarrow> ha_step env s s'"
| gate_offered: "ha_step env s (s\<lparr>nd_fence := snd (admit epoch (nd_fence s))\<rparr>)"
| queue_used: "ha_step env s (s\<lparr>nd_queue := q\<rparr>)"

inductive_cases ha_stepE: "ha_step env s s'"

context ha_member
begin

lemma ha_step_inv:
  assumes "ha_step env s s'" "node_inv env holds s"
  shows "node_inv env holds s'"
  using assms(1)
proof cases
  case (loop_event now ev)
  then show ?thesis using tripleD [OF handle_event_inv [OF loop_event(1), of ev] assms(2)] by simp
next
  case (gate_offered epoch)
  then show ?thesis
    using gate_admit_keeps_election [of env s epoch] assms(2) by (simp add: node_inv_def gauges_inv_def)
next
  case (queue_used q)
  then show ?thesis using assms(2) by (simp add: node_inv_def gauges_inv_def election_inv_def master_epoch_def)
qed

lemma reachable_node_inv:
  assumes "(ha_step env)\<^sup>*\<^sup>* s s'" "node_inv env holds s"
  shows "node_inv env holds s'"
  using assms by (induction rule: rtranclp_induct) (auto intro: ha_step_inv)

lemma started_node_inv:
  assumes "vrrp_config_validate (hs_vrrp (he_settings env)) = Inr ()" "clock_ok now" "fresh holds s"
    and "run_start env now s = Some (Inr (), s')"
  shows "node_inv env holds s'"
  using tripleD [OF run_start_inv [OF assms(2,1)] assms(3)] assms(4) by simp

lemma handle_event_outcome:
  assumes "node_inv env holds s" "clock_ok now"
  shows "\<exists>res s'. handle_event env now ev s = Some (res, s') \<and>
    (case res of Inr _ \<Rightarrow> node_inv env holds s' | Inl _ \<Rightarrow> vip_mismatch env holds s')"
  using tripleD [OF handle_event_inv [OF assms(2), of ev] assms(1)]
  by (cases "handle_event env now ev s" rule: act_result_cases) auto

end

section \<open>Epochs\<close>












section \<open>Hand-over\<close>

context ha_member
begin

lemma handle_event_ok_inv:
  assumes "node_inv env holds s" "clock_ok now" "handle_event env now ev s = Some (Inr (), s')"
  shows "node_inv env holds s'"
  using tripleD [OF handle_event_inv [OF assms(2), of ev] assms(1)] assms(3) by simp

text \<open>A Master whose mandatory probe turns red announces priority 0 and keeps the role.\<close>

lemma unfit_master_releases:
  assumes "node_inv env holds s" "vi_state (nd_vrrp s) = Master"
    and "vi_effective_priority (nd_vrrp s) \<noteq> priority_release"
    and "\<not> hv_fit_for_master (registry_evaluate penv (he_probes env))"
  shows "\<exists>s'. handle_event env now (Health_Tick penv) s = Some (Inr (), s')
    \<and> nd_vrrp s' = (nd_vrrp s)\<lparr>vi_effective_priority := priority_release\<rparr>
    \<and> nd_channel s' = snd (he_send env (adv_encode (advertisement (nd_vrrp s'))) (nd_channel s))
    \<and> node_inv env holds s'"
proof -
  let ?v = "(nd_vrrp s)\<lparr>vi_effective_priority := priority_release\<rparr>"
  let ?s1 = "(update_stats (\<lambda>st. st\<lparr>st_health_releases := st_health_releases st + 1\<rparr>) s)\<lparr>nd_vrrp := ?v\<rparr>"
  have ev: "handle_event env now (Health_Tick penv) s = Some (Inr (), send_advertisement env ?s1)"
    using assms(2-4)
    by (simp add: handle_event_def evaluate_health_def bnd_def ret_def set_released_def Let_def transition_send_def)
  have "nd_channel (send_advertisement env ?s1) = snd (he_send env (adv_encode (advertisement ?v)) (nd_channel s))"
    by (simp add: send_advertisement_def update_stats_def split: prod.split sum.split)
  moreover have "node_inv env holds (send_advertisement env ?s1)"
    using assms(1,2) by (simp add: node_inv_def gauges_inv_def election_inv_def master_epoch_def update_stats_def)
  ultimately show ?thesis using ev by simp
qed

text \<open>A Backup that hears the release promotes after its skew time.\<close>

lemma backup_hears_release:
  assumes "node_inv env holds s" "vi_state (nd_vrrp s) = Backup" "clock_ok now"
    and "adv_virtual_router_id adv = cfg_virtual_router_id (hs_vrrp (he_settings env))" "adv_priority adv = priority_release"
  shows "\<exists>s'. handle_event env now (Received (Inr adv)) s = Some (Inr (), s')
    \<and> nd_vrrp s' = nd_vrrp s \<and> node_inv env holds s'
    \<and> nd_next_master_down s' \<le> now + cfg_advertisement_interval (hs_vrrp (he_settings env)) + 1"
proof -
  let ?v = "nd_vrrp s"
  have cfg: "vi_config ?v = hs_vrrp (he_settings env)" and el: "election_inv env s"
    using assms(1) by (simp_all add: node_inv_def election_inv_def)
  have h: "vrrp_handle (Advertisement adv) ?v = (with_master_down ResetSkew transition_none, ?v)"
    using assms(2,4,5) cfg by (simp add: vrrp_handle_def on_advertisement_def)
  obtain n where n: "skew_time ?v = Some n" "n \<le> cfg_advertisement_interval (hs_vrrp (he_settings env)) + 1"
    using master_down_close [of ?v] cfg interval by auto
  then have add: "instant_add now n = Some (now + n)"
    using timers(1) [OF el assms(3)] by (auto simp: instant_add_def split: if_splits)
  obtain s' where ev: "handle_event env now (Received (Inr adv)) s = Some (Inr (), s')"
    "nd_vrrp s' = ?v" "nd_next_master_down s' = now + n"
    using n(1) add h assms(2)
    by (auto simp: handle_event_def bnd_def modify_def drive_def update_stats_def apply_transition_def ret_def
        transition_defs follow_directive_def arm_def)
  moreover have "node_inv env holds s'"
    using assms(1,3) ev(1) by (rule handle_event_ok_inv)
  ultimately show ?thesis using n(2) by auto
qed

lemma apply_promote_ok:
  assumes "\<And>h. \<exists>h'. vip_acquire (he_vip env) (hs_vip (he_settings env)) h = (Inr (), h')"
  shows "\<exists>s'. apply_transition env transition_promote s = Some (Inr (), s') \<and> nd_vrrp s' = nd_vrrp s"
proof -
  obtain h' where "vip_acquire (he_vip env) (hs_vip (he_settings env)) (nd_vip s) = (Inr (), h')" using assms by blast
  then show ?thesis
    by (auto simp: apply_transition_def apply_role_change_def transition_promote_def bnd_def modify_def call_vip_def
        update_stats_def)
qed

text \<open>When its deadline fires, a Backup becomes Master and owns the address.\<close>

lemma backup_promotes:
  assumes "node_inv env holds s" "vi_state (nd_vrrp s) = Backup" "clock_ok now"
    and "\<And>h. \<exists>h'. vip_acquire (he_vip env) (hs_vip (he_settings env)) h = (Inr (), h')"
  shows "\<exists>s'. handle_event env now Master_Down s = Some (Inr (), s')
    \<and> nd_vrrp s' = (nd_vrrp s)\<lparr>vi_state := Master\<rparr> \<and> node_inv env holds s' \<and> holds (nd_vip s')"
proof -
  let ?s1 = "s\<lparr>nd_vrrp := (nd_vrrp s)\<lparr>vi_state := Master\<rparr>\<rparr>"
  obtain s2 where s2: "apply_transition env transition_promote ?s1 = Some (Inr (), s2)"
    "nd_vrrp s2 = (nd_vrrp s)\<lparr>vi_state := Master\<rparr>"
    using apply_promote_ok [OF assms(4), of ?s1] by auto
  obtain t where t: "instant_add now master_down_disabled = Some t"
    using timers(3) [OF _ assms(3), of s] assms(1) by (auto simp: node_inv_def)
  obtain s' where ev: "handle_event env now Master_Down s = Some (Inr (), s')" "nd_vrrp s' = nd_vrrp s2"
    using s2 t assms(2)
    by (auto simp: handle_event_def bnd_def drive_def vrrp_handle_def arm_master_down_def arm_def)
  moreover have "node_inv env holds s'"
    using assms(1,3) ev(1) by (rule handle_event_ok_inv)
  ultimately show ?thesis using s2(2) by (auto simp: node_inv_def)
qed

text \<open>A Master that hears a peer that outranks it steps down and gives the address up.\<close>

lemma master_steps_down:
  assumes "node_inv env holds s" "vi_state (nd_vrrp s) = Master" "clock_ok now"
    and "adv_virtual_router_id adv = cfg_virtual_router_id (hs_vrrp (he_settings env))" "peer_outranks (nd_vrrp s) adv"
    and "\<And>h. \<exists>h'. vip_release (he_vip env) (hs_vip (he_settings env)) h = (Inr (), h')"
  shows "\<exists>s'. handle_event env now (Received (Inr adv)) s = Some (Inr (), s')
    \<and> nd_vrrp s' = (nd_vrrp s)\<lparr>vi_state := Backup\<rparr> \<and> node_inv env holds s' \<and> \<not> holds (nd_vip s')"
proof -
  let ?s1 = "(update_stats (\<lambda>st. st\<lparr>st_advertisements_received := st_advertisements_received st + 1\<rparr>) s)
      \<lparr>nd_vrrp := (nd_vrrp s)\<lparr>vi_state := Backup\<rparr>\<rparr>"
  have el: "election_inv env s" and cfg: "vi_config (nd_vrrp s) = hs_vrrp (he_settings env)"
    using assms(1) by (simp_all add: node_inv_def election_inv_def)
  have h: "vrrp_handle (Advertisement adv) (nd_vrrp s) = (transition_demote, (nd_vrrp s)\<lparr>vi_state := Backup\<rparr>)"
    using assms(2,4,5) cfg by (simp add: vrrp_handle_def on_advertisement_def)
  obtain h' where "vip_release (he_vip env) (hs_vip (he_settings env)) (nd_vip s) = (Inr (), h')" using assms(6) by blast
  then obtain s2 where s2: "apply_transition env transition_demote ?s1 = Some (Inr (), s2)"
    "nd_vrrp s2 = (nd_vrrp s)\<lparr>vi_state := Backup\<rparr>"
    by (auto simp: apply_transition_def apply_role_change_def transition_demote_def bnd_def modify_def call_vip_def
        update_stats_def ret_def)
  have "election_inv env (s\<lparr>nd_vrrp := (nd_vrrp s)\<lparr>vi_state := Backup\<rparr>\<rparr>)"
    using el by (simp add: election_inv_def master_epoch_def)
  from timers(2) [OF this assms(3)] obtain n t
    where "master_down_interval ((nd_vrrp s)\<lparr>vi_state := Backup\<rparr>) = Some n" "instant_add now n = Some t"
    by auto
  then obtain s' where ev: "handle_event env now (Received (Inr adv)) s = Some (Inr (), s')" "nd_vrrp s' = nd_vrrp s2"
    using s2 h
    by (auto simp: handle_event_def bnd_def modify_def drive_def update_stats_def follow_directive_def
        arm_master_down_def arm_def transition_demote_def)
  moreover have "node_inv env holds s'"
    using assms(1,3) ev(1) by (rule handle_event_ok_inv)
  ultimately show ?thesis using s2(2) by (auto simp: node_inv_def)
qed

end

section \<open>Taking over\<close>

text \<open>Events that tell a Backup of no Master it has to accept.\<close>

fun no_acceptable_master :: "('c, 'v) ha_env \<Rightarrow> vrrp_instance \<Rightarrow> loop_event \<Rightarrow> bool" where
  "no_acceptable_master env v Adv_Tick = True"
| "no_acceptable_master env v Master_Down = False"
| "no_acceptable_master env v (Received (Inl _)) = True"
| "no_acceptable_master env v (Received (Inr adv)) =
     (adv_virtual_router_id adv \<noteq> cfg_virtual_router_id (vi_config v)
      \<or> cfg_preempt_mode (vi_config v) \<and> adv_priority adv \<noteq> priority_release
        \<and> adv_priority adv < vi_effective_priority v)"
| "no_acceptable_master env v (Health_Tick penv) =
     (hv_fit_for_master (registry_evaluate penv (he_probes env)) \<and> vi_effective_priority v \<noteq> priority_release)"

lemma unaccepted_event_keeps_deadline:
  assumes "vi_state (nd_vrrp s) = Backup" "no_acceptable_master env (nd_vrrp s) ev"
  shows "\<exists>s'. handle_event env now ev s = Some (Inr (), s')
    \<and> nd_vrrp s' = nd_vrrp s \<and> nd_next_master_down s' = nd_next_master_down s"
  using assms
  by (cases "(env, nd_vrrp s, ev)" rule: no_acceptable_master.cases)
    (auto simp: handle_event_def bnd_def ret_def modify_def drive_def vrrp_handle_def on_advertisement_def
      transition_none_def apply_transition_def update_stats_def follow_directive_def evaluate_health_def Let_def)

context ha_member
begin

lemma unaccepted_events_keep_deadline:
  assumes "node_inv env holds s" "vi_state (nd_vrrp s) = Backup"
    and "\<forall>(now, ev) \<in> set evs. clock_ok now \<and> no_acceptable_master env (nd_vrrp s) ev"
  shows "\<exists>s'. run_loop env evs s = Some (Inr (), s') \<and> node_inv env holds s'
    \<and> nd_vrrp s' = nd_vrrp s \<and> nd_next_master_down s' = nd_next_master_down s"
  using assms
proof (induction evs arbitrary: s)
  case Nil
  then show ?case by (simp add: ret_def)
next
  case (Cons p evs)
  obtain now ev where p: "p = (now, ev)" by fastforce
  obtain s1 where s1: "handle_event env now ev s = Some (Inr (), s1)" "nd_vrrp s1 = nd_vrrp s"
    "nd_next_master_down s1 = nd_next_master_down s"
    using unaccepted_event_keeps_deadline [of s env ev now] Cons.prems p by auto
  have "node_inv env holds s1" using Cons.prems p s1(1) by (auto intro: handle_event_ok_inv)
  then show ?case using Cons.IH [of s1] Cons.prems s1 p by (simp add: bnd_def)
qed

end

section \<open>A pair of edges\<close>

text \<open>Two edges with the recording VIP manager, a channel that keeps the frames, and one mandatory flag.\<close>

definition edge_vip :: vip_spec where
  "edge_vip = \<lparr>vs_address = V4 0xC0A80901, vs_prefix_len = 24, vs_interface = ''eth0''\<rparr>"

definition edge_env :: "u8 \<Rightarrow> u32 \<Rightarrow> (bytes list, recording_vip_manager) ha_env" where
  "edge_env p a =
     \<lparr>he_settings = \<lparr>hs_vrrp = default_vrrp_config\<lparr>cfg_priority := p\<rparr>, hs_vip = edge_vip, hs_local_addr = V4 a,
        hs_health_interval = default_health_interval, hs_sync_batch = 64\<rparr>,
      he_send = (\<lambda>frame sent. (Inr (), sent @ [frame])), he_vip = recording_vip_ops,
      he_probes = [FlagProbe ''suricata'' True 0]\<rparr>"

definition edge_node :: "u8 \<Rightarrow> u32 \<Rightarrow> vrrp_state \<Rightarrow> (bytes list, recording_vip_manager) ha_node" where
  "edge_node p a st =
     \<lparr>nd_vrrp = \<lparr>vi_config = default_vrrp_config\<lparr>cfg_priority := p\<rparr>, vi_state = st, vi_effective_priority = p,
        vi_local_addr = V4 a\<rparr>,
      nd_next_master_down = 0,
      nd_stats = ha_stats_default\<lparr>st_role := state_to_code st, st_promotions := (if st = Master then 1 else 0)\<rparr>,
      nd_fence = fence_new, nd_queue = sync_queue_new 16, nd_channel = [],
      nd_vip = (if st = Master then [Acquired edge_vip] else [])\<rparr>"

interpretation edge: ha_member "edge_env p a" "records_held edge_vip" for p a
proof -
  show "ha_member (edge_env p a) (records_held edge_vip)" for p a
    using recording.vip_manager_axioms [of edge_vip]
    by (simp add: ha_member_def ha_member_axioms_def edge_env_def default_vrrp_config_def
        default_advertisement_interval_def from_secs_def)
qed

lemma edge_vip_valid: "vip_validate edge_vip = Inr ()"
  by code_simp

lemma edge_vip_reliable:
  "\<exists>h'. vip_acquire (he_vip (edge_env p a)) (hs_vip (he_settings (edge_env p a))) h = (Inr (), h')"
  "\<exists>h'. vip_release (he_vip (edge_env p a)) (hs_vip (he_settings (edge_env p a))) h = (Inr (), h')"
  by (simp_all add: edge_env_def recording_vip_ops_def recording_acquire_def recording_release_def edge_vip_valid)

lemma edge_node_inv: "st \<noteq> Initialize \<Longrightarrow> node_inv (edge_env p a) (records_held edge_vip) (edge_node p a st)"
  by (simp add: node_inv_def election_inv_def gauges_inv_def edge_env_def edge_node_def ha_stats_default_def
      master_epoch_def)

lemma edge_starts:
  assumes "p \<noteq> 0" "p \<noteq> 255"
  shows "\<exists>s. run_start (edge_env p a) 0 (edge_node p a Initialize) = Some (Inr (), s)"
proof -
  let ?v = "\<lparr>vi_config = default_vrrp_config\<lparr>cfg_priority := p\<rparr>, vi_state = Backup, vi_effective_priority = p,
        vi_local_addr = V4 a\<rparr>"
  obtain m where "master_down_interval ?v = Some m" "m \<le> 4 * 1000000000 + 1"
    using master_down_close [of ?v]
    by (auto simp: default_vrrp_config_def default_advertisement_interval_def from_secs_def)
  then show ?thesis using assms
    by (simp add: run_start_def vrrp_new_def vrrp_config_validate_def edge_env_def edge_node_def
        default_vrrp_config_def default_advertisement_interval_def from_secs_def priority_release_def
        priority_owner_def bnd_def modify_def drive_def vrrp_start_def update_stats_def apply_transition_def
        transition_none_def ret_def arm_master_down_def arm_def instant_add_def instant_max_def)
qed

section \<open>Properties\<close>

text \<open>
  Claim C5. The address follows the role. From a successful start, after any sequence of loop events
  interleaved with other tasks' use of the fencing gate and of the queue, the virtual IP is on the
  interface exactly when the instance is Master, the role gauge and the role counters agree with the
  machine, and the next event neither diverges nor panics: it keeps the agreement or ends the loop
  with the VIP manager's error, in which case role and address are apart. A shutdown leaves the
  address on the interface only when releasing it failed.
\<close>

theorem vip_follows_master_role:
  assumes "ha_member env holds" "vrrp_config_validate (hs_vrrp (he_settings env)) = Inr ()" "fresh holds s0"
    and "clock_ok start" "run_start env start s0 = Some (Inr (), s1)" "(ha_step env)\<^sup>*\<^sup>* s1 s" "clock_ok now"
  shows "(holds (nd_vip s) \<longleftrightarrow> vi_state (nd_vrrp s) = Master)
    \<and> st_role (nd_stats s) = state_to_code (vi_state (nd_vrrp s))
    \<and> st_promotions (nd_stats s) = st_demotions (nd_stats s) + (if vi_state (nd_vrrp s) = Master then 1 else 0)
    \<and> (\<exists>res s'. handle_event env now ev s = Some (res, s')
         \<and> (if isl res then holds (nd_vip s') \<longleftrightarrow> vi_state (nd_vrrp s') \<noteq> Master
             else holds (nd_vip s') \<longleftrightarrow> vi_state (nd_vrrp s') = Master))
    \<and> (\<exists>res s'. run_shutdown env s = Some (res, s') \<and> (holds (nd_vip s') \<longleftrightarrow> isl res))"
proof -
  have inv: "node_inv env holds s"
    using ha_member.reachable_node_inv [OF assms(1,6) ha_member.started_node_inv [OF assms(1,2,4,3,5)]] .
  obtain res s' where "handle_event env now ev s = Some (res, s')"
    "case res of Inr _ \<Rightarrow> node_inv env holds s' | Inl _ \<Rightarrow> vip_mismatch env holds s'"
    using ha_member.handle_event_outcome [OF assms(1) inv assms(7), of ev] by blast
  moreover have "\<exists>res s'. run_shutdown env s = Some (res, s') \<and> (holds (nd_vip s') \<longleftrightarrow> isl res)"
    using tripleD [OF ha_member.run_shutdown_inv [OF assms(1)] inv]
    by (cases "run_shutdown env s" rule: act_result_cases) auto
  ultimately show ?thesis using inv
    by (cases res) (auto simp: node_inv_def gauges_inv_def vip_mismatch_def)
qed

theorem vip_follows_master_role_witness:
  "\<exists>s. run_start (edge_env 100 1) 0 (edge_node 100 1 Initialize) = Some (Inr (), s)
     \<and> (records_held edge_vip (nd_vip s) \<longleftrightarrow> vi_state (nd_vrrp s) = Master)
     \<and> (\<exists>res s'. handle_event (edge_env 100 1) 5000000000 Master_Down s = Some (res, s'))"
proof -
  obtain s where s: "run_start (edge_env 100 1) 0 (edge_node 100 1 Initialize) = Some (Inr (), s)"
    using edge_starts [of 100 1] by auto
  have cfg: "vrrp_config_validate (hs_vrrp (he_settings (edge_env 100 1))) = Inr ()"
    by (simp add: edge_env_def vrrp_config_validate_def default_vrrp_config_def priority_release_def
        default_advertisement_interval_def from_secs_def)
  have fresh: "fresh (records_held edge_vip) (edge_node 100 1 Initialize)"
    by (simp add: fresh_def edge_node_def ha_stats_default_def role_initialize_def)
  have clock: "clock_ok 0" "clock_ok 5000000000" by (simp_all add: clock_ok_def)
  show ?thesis
    using vip_follows_master_role [OF edge.ha_member_axioms cfg fresh clock(1) s rtranclp.rtrancl_refl clock(2),
        of Master_Down] s
    by blast
qed





text \<open>
  Claim C36. A Backup takes over when it hears no Master it has to accept: through any sequence of
  advertisement ticks, receive errors, foreign advertisements, green health ticks and, in preempt mode,
  advertisements of a lower-priority Master, its master-down deadline does not move; and when the
  deadline fires it is Master and owns the address.
\<close>

theorem backup_takes_over:
  assumes "ha_member env holds" "node_inv env holds s" "vi_state (nd_vrrp s) = Backup"
    and "\<forall>(now, ev) \<in> set evs. clock_ok now \<and> no_acceptable_master env (nd_vrrp s) ev" "clock_ok t"
    and "\<And>h. \<exists>h'. vip_acquire (he_vip env) (hs_vip (he_settings env)) h = (Inr (), h')"
  shows "\<exists>s1 s2. run_loop env evs s = Some (Inr (), s1) \<and> nd_next_master_down s1 = nd_next_master_down s
    \<and> handle_event env t Master_Down s1 = Some (Inr (), s2)
    \<and> vi_state (nd_vrrp s2) = Master \<and> holds (nd_vip s2)"
proof -
  obtain s1 where s1: "run_loop env evs s = Some (Inr (), s1)" "node_inv env holds s1" "nd_vrrp s1 = nd_vrrp s"
    "nd_next_master_down s1 = nd_next_master_down s"
    using ha_member.unaccepted_events_keep_deadline [OF assms(1-4)] by blast
  have "vi_state (nd_vrrp s1) = Backup" using s1(3) assms(3) by simp
  from ha_member.backup_promotes [OF assms(1) s1(2) this assms(5,6)] show ?thesis using s1 by auto
qed

theorem backup_takes_over_witness:
  "\<exists>s1 s2. run_loop (edge_env 150 1) [(1, Adv_Tick), (2, Received (Inr (heard (demo_instance 100 2 Master))))]
       (edge_node 150 1 Backup) = Some (Inr (), s1) \<and> nd_next_master_down s1 = 0
     \<and> handle_event (edge_env 150 1) 3 Master_Down s1 = Some (Inr (), s2) \<and> records_held edge_vip (nd_vip s2)"
proof -
  have inv: "node_inv (edge_env 150 1) (records_held edge_vip) (edge_node 150 1 Backup)" by (simp add: edge_node_inv)
  have st: "vi_state (nd_vrrp (edge_node 150 1 Backup)) = Backup" by (simp add: edge_node_def)
  have evs: "\<forall>(now, ev) \<in> set [(1, Adv_Tick), (2, Received (Inr (heard (demo_instance 100 2 Master))))].
      clock_ok now \<and> no_acceptable_master (edge_env 150 1) (nd_vrrp (edge_node 150 1 Backup)) ev"
    by (simp add: clock_ok_def edge_node_def heard_def advertisement_def demo_instance_def default_vrrp_config_def
        priority_release_def)
  have clock: "clock_ok 3" by (simp add: clock_ok_def)
  have "nd_next_master_down (edge_node 150 1 Backup) = 0" by (simp add: edge_node_def)
  then show ?thesis
    using backup_takes_over [OF edge.ha_member_axioms inv st evs clock edge_vip_reliable(1)] by auto
qed

section \<open>Behaviours worth knowing\<close>

text \<open>
  A clean shutdown is silent: it removes the address and sends nothing, so a peer that waits out its
  master-down interval is not told.
\<close>

lemma shutdown_is_silent:
  assumes "run_shutdown env s = Some (res, s')"
  shows "nd_channel s' = nd_channel s \<and> nd_stats s' = nd_stats s"
  using assms by (auto simp: run_shutdown_def call_vip_def ret_def split: if_splits prod.splits)

text \<open>
  A promotion clears the lag latch of the instance's own outbound queue: a loss that no marker
  announced is then announced to nobody.
\<close>

lemma promotion_clears_own_lag:
  assumes "apply_role_change env Promoted s = Some (Inr (), s')"
  shows "\<not> is_lagged (nd_queue s')"
  using assms
  by (auto simp: apply_role_change_def act_defs call_vip_def update_stats_def reset_lagged_def is_lagged_def
      split: prod.splits sum.splits if_splits)

text \<open>Two instances whose gates observed nothing mint the same epoch.\<close>

lemma unobserved_gates_mint_alike:
  "nd_fence s = fence_new \<Longrightarrow> master_epoch (mint_epoch s) = 1"
  by (simp add: fence_new_def fence_current_def decode_fence_def saturating_add_def)

end
