(* ===== verification/Oidc_Client.thy ===== *)
theory Oidc_Client
  imports SNG_Prelude
begin

text \<open>
  The provider-facing half of \<open>sng-oidc\<close>: its errors (\<open>error.rs\<close>), the discovery client
  (\<open>discovery.rs\<close>) and the key-set client of \<open>validation.rs\<close>, both of which cache what they fetch for
  a time to live. The HTTP client, the JSON decoder, the URL parser and the clocks are code outside
  the repository: they are the fields of \<open>oidc_env\<close>, over a state of the outside world that a request
  may change. The locale \<open>fetch_cache\<close> is the contract of the two clients.
\<close>

section \<open>Errors\<close>

datatype algorithm = RS256 | RS384 | RS512 | ES256 | ES384 | OtherAlgorithm string

text \<open>The reasons of \<open>OidcError::Discovery\<close> and \<open>OidcError::Validation\<close>, one constructor per message.\<close>

datatype discovery_failure =
    IssuerEmpty | IssuerNotUrl | IssuerInsecure | IssuerQueryOrFragment
  | EndpointNotUrl string | EndpointInsecure string | IssuerMismatch string string

datatype validation_failure =
    UnsupportedAlgorithm algorithm | PinsUnsupportedAlg string | AlgMismatch string algorithm
  | MissingField string | IncompatibleKty string algorithm | NonceMismatch | MissingIat
  | IatInFuture | AzpAbsent | AzpMismatch

record oauth_error_response =
  oe_error :: string
  oe_description :: "string option"
  oe_uri :: "string option"

datatype oidc_error =
    HttpErr string string | HttpStatusErr string u16 | DecodeErr string string
  | DiscoveryErr discovery_failure | TokenErr oauth_error_response
  | ValidationErr validation_failure | UnknownSigningKey "string option" | JwtErr string
  | StateMismatch | CallbackErr string | UrlErr string | AuthSurfaceErr string
  | StorageErr string | SessionErr string

section \<open>Documents\<close>

record provider_metadata =
  pm_issuer :: string
  authorization_endpoint :: string
  token_endpoint :: string
  jwks_uri :: string
  userinfo_endpoint :: "string option"
  scopes_supported :: "string list"
  claims_supported :: "string list"
  id_token_signing_alg_values_supported :: "string list"

record jwk =
  jwk_kty :: string
  jwk_kid :: "string option"
  jwk_alg :: "string option"
  jwk_n :: "string option"
  jwk_e :: "string option"
  jwk_crv :: "string option"
  jwk_x :: "string option"
  jwk_y :: "string option"

type_synonym jwks = "jwk list"

definition jwks_select :: "jwks \<Rightarrow> string option \<Rightarrow> jwk option" where
  "jwks_select keys kid =
     (case kid of
        Some k \<Rightarrow> List.find (\<lambda>j. jwk_kid j = Some k) keys
      | None \<Rightarrow> (if length keys = 1 then Some (hd keys) else None))"

lemma jwks_select_mem: "jwks_select keys kid = Some j \<Longrightarrow> j \<in> set keys"
  by (auto simp: jwks_select_def find_Some_iff in_set_conv_nth split: option.splits if_splits)
    (metis hd_conv_nth length_0_conv length_greater_0_conv One_nat_def zero_neq_one)

lemma jwks_select_kid: "jwks_select keys (Some k) = Some j \<Longrightarrow> jwk_kid j = Some k"
  by (auto simp: jwks_select_def find_Some_iff)

section \<open>The outside world\<close>

text \<open>
  A request ends before a status line, after one but within the body, or with a body. \<open>http_get\<close>,
  \<open>http_post\<close> and the clocks depend on the state \<open>'n\<close> of the world.
\<close>

datatype http_reply = SendFailed string | BodyFailed u16 string | Reply u16 string

record parsed_url =
  url_scheme :: string
  url_host_str :: "string option"
  url_query :: "string option"
  url_fragment :: "string option"
  url_rest :: string

record 'n oidc_env =
  http_get :: "'n \<Rightarrow> string \<Rightarrow> http_reply \<times> 'n"
  http_post :: "'n \<Rightarrow> string \<Rightarrow> (string \<times> string) list \<Rightarrow> http_reply \<times> 'n"
  instant_now :: "'n \<Rightarrow> nat"
  utc_now :: "'n \<Rightarrow> int"
  url_parse :: "string \<Rightarrow> string + parsed_url"
  metadata_from_str :: "string \<Rightarrow> string + provider_metadata"
  jwks_from_str :: "string \<Rightarrow> string + jwks"

definition is_success :: "u16 \<Rightarrow> bool" where
  "is_success s \<longleftrightarrow> 200 \<le> s \<and> s < 300"

section \<open>The caches\<close>

record 'v cache_entry =
  cached_value :: 'v
  fetched_at :: nat

record 'v fetch_client =
  fc_ttl :: nat
  fc_cache :: "string \<rightharpoonup> 'v cache_entry"

definition default_ttl :: nat where
  "default_ttl = from_secs 3600"

definition with_client :: "nat \<Rightarrow> 'v fetch_client" where
  "with_client ttl = \<lparr>fc_ttl = ttl, fc_cache = Map.empty\<rparr>"

text \<open>\<open>cached\<close> of either client: a stale entry is dropped on the way.\<close>

definition cached :: "nat \<Rightarrow> string \<Rightarrow> 'v fetch_client \<Rightarrow> 'v option \<times> 'v fetch_client" where
  "cached now uri c =
     (case fc_cache c uri of
        None \<Rightarrow> (None, c)
      | Some e \<Rightarrow> (if now - fetched_at e < fc_ttl c then (Some (cached_value e), c)
                   else (None, c\<lparr>fc_cache := (fc_cache c)(uri := None)\<rparr>)))"

definition cache_insert :: "nat \<Rightarrow> string \<Rightarrow> 'v \<Rightarrow> 'v fetch_client \<Rightarrow> 'v fetch_client" where
  "cache_insert now uri v c =
     c\<lparr>fc_cache := (fc_cache c)(uri \<mapsto> \<lparr>cached_value = v, fetched_at = now\<rparr>)\<rparr>"

section \<open>Discovery\<close>

definition is_secure_endpoint :: "parsed_url \<Rightarrow> bool" where
  "is_secure_endpoint u =
     (if url_scheme u = ''https'' then True
      else if url_scheme u = ''http''
      then url_host_str u \<in> {Some ''127.0.0.1'', Some ''localhost'', Some ''[::1]''}
      else False)"

fun check_endpoints :: "('n, 'z) oidc_env_scheme \<Rightarrow> (string \<times> string) list \<Rightarrow> oidc_error + unit" where
  "check_endpoints env [] = Inr ()"
| "check_endpoints env ((field, value) # rest) =
     (case url_parse env value of
        Inl _ \<Rightarrow> Inl (DiscoveryErr (EndpointNotUrl field))
      | Inr u \<Rightarrow> (if is_secure_endpoint u then check_endpoints env rest
                  else Inl (DiscoveryErr (EndpointInsecure field))))"

definition metadata_validate :: "('n, 'z) oidc_env_scheme \<Rightarrow> provider_metadata \<Rightarrow> oidc_error + unit" where
  "metadata_validate env m =
     (if trim (pm_issuer m) = [] then Inl (DiscoveryErr IssuerEmpty)
      else case url_parse env (pm_issuer m) of
        Inl _ \<Rightarrow> Inl (DiscoveryErr IssuerNotUrl)
      | Inr u \<Rightarrow>
          if \<not> is_secure_endpoint u then Inl (DiscoveryErr IssuerInsecure)
          else if url_query u \<noteq> None \<or> url_fragment u \<noteq> None
          then Inl (DiscoveryErr IssuerQueryOrFragment)
          else check_endpoints env
                 [(''authorization_endpoint'', authorization_endpoint m),
                  (''token_endpoint'', token_endpoint m), (''jwks_uri'', jwks_uri m)])"

definition issuer_matches_discovery_url :: "('n, 'z) oidc_env_scheme \<Rightarrow> string \<Rightarrow> string \<Rightarrow> bool" where
  "issuer_matches_discovery_url env iss discovery_url =
     (let expected = rev (dropWhile (\<lambda>c. c = CHR ''/'') (rev iss)) @ ''/.well-known/openid-configuration''
      in case (url_parse env expected, url_parse env discovery_url) of
           (Inr e, Inr a) \<Rightarrow> e = a
         | _ \<Rightarrow> expected = discovery_url)"

text \<open>
  A remote fetch: the status is looked at before the body, the document decoded and checked, and only
  an accepted document enters the cache, stamped with the time after the request.
\<close>

definition fetch_document ::
  "('n, 'z) oidc_env_scheme \<Rightarrow> string \<Rightarrow> (string \<Rightarrow> oidc_error + 'v) \<Rightarrow> string \<Rightarrow> 'v fetch_client \<Rightarrow> 'n
   \<Rightarrow> (oidc_error + 'v) \<times> 'v fetch_client \<times> 'n" where
  "fetch_document env ctx accept uri c n =
     (let (reply, n') = http_get env n uri in
      case reply of
        SendFailed m \<Rightarrow> (Inl (HttpErr ctx m), c, n')
      | BodyFailed st m \<Rightarrow>
          (Inl (if is_success st then HttpErr ctx m else HttpStatusErr ctx st), c, n')
      | Reply st body \<Rightarrow>
          if \<not> is_success st then (Inl (HttpStatusErr ctx st), c, n')
          else case accept body of
                 Inl e \<Rightarrow> (Inl e, c, n')
               | Inr v \<Rightarrow> (Inr v, cache_insert (instant_now env n') uri v c, n'))"

definition fetch_or_cached ::
  "('n, 'z) oidc_env_scheme \<Rightarrow> string \<Rightarrow> (string \<Rightarrow> oidc_error + 'v) \<Rightarrow> string \<Rightarrow> 'v fetch_client \<Rightarrow> 'n
   \<Rightarrow> (oidc_error + 'v) \<times> 'v fetch_client \<times> 'n" where
  "fetch_or_cached env ctx accept uri c n =
     (case cached (instant_now env n) uri c of
        (Some v, c') \<Rightarrow> (Inr v, c', n)
      | (None, c') \<Rightarrow> fetch_document env ctx accept uri c' n)"

definition accept_metadata :: "('n, 'z) oidc_env_scheme \<Rightarrow> string \<Rightarrow> string \<Rightarrow> oidc_error + provider_metadata" where
  "accept_metadata env discovery_url body =
     and_then (map_err (DecodeErr ''discovery'') (metadata_from_str env body))
       (\<lambda>m. and_then (metadata_validate env m)
          (\<lambda>_. if issuer_matches_discovery_url env (pm_issuer m) discovery_url then Inr m
               else Inl (DiscoveryErr (IssuerMismatch (pm_issuer m) discovery_url))))"

definition discover ::
  "('n, 'z) oidc_env_scheme \<Rightarrow> string \<Rightarrow> provider_metadata fetch_client \<Rightarrow> 'n
   \<Rightarrow> (oidc_error + provider_metadata) \<times> provider_metadata fetch_client \<times> 'n" where
  "discover env discovery_url c n =
     fetch_or_cached env ''discovery'' (accept_metadata env discovery_url) discovery_url c n"

section \<open>Key sets\<close>

definition accept_jwks :: "('n, 'z) oidc_env_scheme \<Rightarrow> string \<Rightarrow> oidc_error + jwks" where
  "accept_jwks env body = map_err (DecodeErr ''jwks'') (jwks_from_str env body)"

definition fetch_remote ::
  "('n, 'z) oidc_env_scheme \<Rightarrow> string \<Rightarrow> jwks fetch_client \<Rightarrow> 'n \<Rightarrow> (oidc_error + jwks) \<times> jwks fetch_client \<times> 'n" where
  "fetch_remote env uri c n = fetch_document env ''jwks'' (accept_jwks env) uri c n"

definition jwks_fetch ::
  "('n, 'z) oidc_env_scheme \<Rightarrow> string \<Rightarrow> jwks fetch_client \<Rightarrow> 'n \<Rightarrow> (oidc_error + jwks) \<times> jwks fetch_client \<times> 'n" where
  "jwks_fetch env uri c n = fetch_or_cached env ''jwks'' (accept_jwks env) uri c n"

definition jwks_refresh ::
  "('n, 'z) oidc_env_scheme \<Rightarrow> string \<Rightarrow> jwks fetch_client \<Rightarrow> 'n \<Rightarrow> (oidc_error + jwks) \<times> jwks fetch_client \<times> 'n" where
  "jwks_refresh env uri c n = fetch_remote env uri c n"

section \<open>What a client returns\<close>

text \<open>
  A client of a provider relies on the fetcher for two things: a document it returns was accepted
  from the provider at that address, and it was so less than the time to live ago.
  \<open>good uri v t\<close> is what is known of a document \<open>v\<close> accepted from \<open>uri\<close> at the instant \<open>t\<close>.
\<close>

definition cache_ok :: "(string \<Rightarrow> 'v \<Rightarrow> nat \<Rightarrow> bool) \<Rightarrow> 'v fetch_client \<Rightarrow> bool" where
  "cache_ok good c \<longleftrightarrow> (\<forall>uri e. fc_cache c uri = Some e \<longrightarrow> good uri (cached_value e) (fetched_at e))"

definition fresh_document ::
  "('n, 'z) oidc_env_scheme \<Rightarrow> (string \<Rightarrow> 'v \<Rightarrow> nat \<Rightarrow> bool) \<Rightarrow> nat \<Rightarrow> string \<Rightarrow> 'v \<Rightarrow> 'n \<Rightarrow> bool" where
  "fresh_document env good ttl uri v n \<longleftrightarrow>
     (\<exists>t. good uri v t \<and> (t = instant_now env n \<or> instant_now env n - t < ttl))"

locale document_fetcher =
  fixes env :: "('n, 'z) oidc_env_scheme"
    and accept :: "string \<Rightarrow> string \<Rightarrow> oidc_error + 'v"
    and good :: "string \<Rightarrow> 'v \<Rightarrow> nat \<Rightarrow> bool"
  assumes accepted_good:
    "http_get env n uri = (Reply st body, n') \<Longrightarrow> is_success st \<Longrightarrow> accept uri body = Inr v
     \<Longrightarrow> good uri v (instant_now env n')"
begin

lemma fetch_document_ok:
  assumes "fetch_document env ctx (accept uri) uri c n = (r, c', n')" and "cache_ok good c"
  shows "cache_ok good c' \<and> fc_ttl c' = fc_ttl c
         \<and> (\<forall>v. r = Inr v \<longrightarrow> fresh_document env good (fc_ttl c) uri v n')"
proof -
  obtain reply n1 where get: "http_get env n uri = (reply, n1)" by fastforce
  show ?thesis
  proof (cases reply)
    case (Reply st body)
    then show ?thesis
      using assms get accepted_good [of n uri st body n1]
      by (auto simp: fetch_document_def cache_ok_def cache_insert_def fresh_document_def
          split: if_splits sum.splits)
  qed (use assms get in \<open>auto simp: fetch_document_def\<close>)
qed

lemma fetch_or_cached_ok:
  assumes run: "fetch_or_cached env ctx (accept uri) uri c n = (r, c', n')" and ok: "cache_ok good c"
  shows "cache_ok good c' \<and> fc_ttl c' = fc_ttl c
         \<and> (\<forall>v. r = Inr v \<longrightarrow> fresh_document env good (fc_ttl c) uri v n')"
proof (cases "fst (cached (instant_now env n) uri c)")
  case (Some v)
  then obtain e where e: "fc_cache c uri = Some e" "v = cached_value e"
      "instant_now env n - fetched_at e < fc_ttl c" "cached (instant_now env n) uri c = (Some v, c)"
    by (auto simp: cached_def split: option.splits if_splits)
  then have "(r, c', n') = (Inr v, c, n)" using run by (simp add: fetch_or_cached_def)
  then show ?thesis using e ok by (auto simp: cache_ok_def fresh_document_def)
next
  case None
  then obtain c1 where c1: "cached (instant_now env n) uri c = (None, c1)" by (metis prod.collapse)
  then have "cache_ok good c1" "fc_ttl c1 = fc_ttl c"
    using ok by (auto simp: cached_def cache_ok_def split: option.splits if_splits)
  moreover have "fetch_document env ctx (accept uri) uri c1 n = (r, c', n')"
    using run c1 by (simp add: fetch_or_cached_def)
  ultimately show ?thesis using fetch_document_ok by metis
qed

lemma new_client_ok: "cache_ok good (with_client ttl)"
  by (simp add: cache_ok_def with_client_def)

end

text \<open>The key sets a provider publishes, and the metadata documents that pass every check.\<close>

definition published_at :: "('n, 'z) oidc_env_scheme \<Rightarrow> string \<Rightarrow> jwks \<Rightarrow> nat \<Rightarrow> bool" where
  "published_at env uri keys t \<longleftrightarrow>
     (\<exists>n st body n'. http_get env n uri = (Reply st body, n') \<and> is_success st
        \<and> jwks_from_str env body = Inr keys \<and> instant_now env n' = t)"

definition secure_url :: "('n, 'z) oidc_env_scheme \<Rightarrow> string \<Rightarrow> bool" where
  "secure_url env s \<longleftrightarrow> (\<exists>u. url_parse env s = Inr u \<and> is_secure_endpoint u)"

definition metadata_trusted :: "('n, 'z) oidc_env_scheme \<Rightarrow> string \<Rightarrow> provider_metadata \<Rightarrow> bool" where
  "metadata_trusted env discovery_url m \<longleftrightarrow>
     issuer_matches_discovery_url env (pm_issuer m) discovery_url
     \<and> (\<exists>u. url_parse env (pm_issuer m) = Inr u \<and> is_secure_endpoint u
          \<and> url_query u = None \<and> url_fragment u = None)
     \<and> secure_url env (authorization_endpoint m) \<and> secure_url env (token_endpoint m)
     \<and> secure_url env (jwks_uri m)"

lemma check_endpoints_ok:
  "check_endpoints env fs = Inr () \<longleftrightarrow> (\<forall>(f, v)\<in>set fs. secure_url env v)"
  by (induction env fs rule: check_endpoints.induct)
    (auto simp: secure_url_def split: sum.splits)

lemma metadata_validate_ok:
  "metadata_validate env m = Inr () \<Longrightarrow> issuer_matches_discovery_url env (pm_issuer m) uri
   \<Longrightarrow> metadata_trusted env uri m"
  by (auto simp: metadata_validate_def metadata_trusted_def check_endpoints_ok secure_url_def
      split: sum.splits if_splits)

lemma accept_metadata_trusted: "accept_metadata env uri body = Inr m \<Longrightarrow> metadata_trusted env uri m"
  using metadata_validate_ok [of env m uri]
  by (auto simp: accept_metadata_def and_then_Inr split: if_splits)

interpretation keyset: document_fetcher env "\<lambda>uri. accept_jwks env" "published_at env"
  for env :: "('n, 'z) oidc_env_scheme"
  by unfold_locales (auto simp: accept_jwks_def published_at_def)

interpretation metadata: document_fetcher env "accept_metadata env" "\<lambda>uri m t. metadata_trusted env uri m"
  for env :: "('n, 'z) oidc_env_scheme"
  by unfold_locales (rule accept_metadata_trusted)

lemmas jwks_fetch_ok = keyset.fetch_or_cached_ok [of _ "''jwks''", folded jwks_fetch_def]
lemmas fetch_remote_ok = keyset.fetch_document_ok [of _ "''jwks''", folded fetch_remote_def]
lemmas jwks_refresh_ok = fetch_remote_ok [folded jwks_refresh_def]
lemmas discover_ok = metadata.fetch_or_cached_ok [of _ "''discovery''", folded discover_def]

text \<open>The discovery client as its callers drive it: any requests, in any state of the world.\<close>

inductive discovery_client ::
  "('n, 'z) oidc_env_scheme \<Rightarrow> provider_metadata fetch_client \<Rightarrow> bool" for env where
  fresh: "discovery_client env (with_client ttl)"
| discovers: "discovery_client env c \<Longrightarrow> discovery_client env (fst (snd (discover env url c n)))"

lemma discovery_client_ok:
  "discovery_client env c \<Longrightarrow> cache_ok (\<lambda>uri m t. metadata_trusted env uri m) c"
proof (induction rule: discovery_client.induct)
  case (discovers c url n)
  obtain r c' n' where "discover env url c n = (r, c', n')" by (cases "discover env url c n")
  then show ?case using discover_ok [OF _ discovers.IH] by simp
qed (rule metadata.new_client_ok)

text \<open>
  Whatever a discovery client returns, from the network or from its cache, was issued for
  the address it was asked for: the issuer is the one the discovery address is built from, it is a
  secure address with no query and no fragment, and the authorization, token and key-set endpoints
  are secure as well.
\<close>

theorem discovered_metadata_trusted:
  assumes "discovery_client env c" and "discover env url c n = (Inr m, c', n')"
  shows "metadata_trusted env url m"
  using discover_ok [OF assms(2) discovery_client_ok [OF assms(1)]] by (simp add: fresh_document_def)

definition sample_metadata :: provider_metadata where
  "sample_metadata = \<lparr>pm_issuer = ''https://idp/'', authorization_endpoint = ''https://idp/a'',
     token_endpoint = ''https://idp/t'', jwks_uri = ''https://idp/k'', userinfo_endpoint = None,
     scopes_supported = [], claims_supported = [], id_token_signing_alg_values_supported = []\<rparr>"

definition sample_provider :: "nat oidc_env" where
  "sample_provider =
     \<lparr>http_get = (\<lambda>n uri. (Reply 200 ''metadata'', Suc n)),
      http_post = (\<lambda>n uri form. (SendFailed ''down'', Suc n)),
      instant_now = id, utc_now = (\<lambda>_. 1000),
      url_parse = (\<lambda>s. Inr \<lparr>url_scheme = ''https'', url_host_str = Some ''idp'', url_query = None,
                       url_fragment = None, url_rest = s\<rparr>),
      metadata_from_str = (\<lambda>_. Inr sample_metadata), jwks_from_str = (\<lambda>_. Inl ''no key set'')\<rparr>"

theorem discovered_metadata_trusted_witness:
  "metadata_trusted sample_provider ''https://idp/.well-known/openid-configuration'' sample_metadata"
proof -
  have "trim ''https://idp/'' = ''https://idp/''" by code_simp
  then have "discover sample_provider ''https://idp/.well-known/openid-configuration'' (with_client 10) 0
    = (Inr sample_metadata,
       cache_insert 1 ''https://idp/.well-known/openid-configuration'' sample_metadata (with_client 10), 1)"
    by (simp add: discover_def fetch_or_cached_def cached_def with_client_def fetch_document_def
        sample_provider_def is_success_def accept_metadata_def metadata_validate_def sample_metadata_def
        is_secure_endpoint_def issuer_matches_discovery_url_def)
  then show ?thesis
    by (rule discovered_metadata_trusted [OF discovery_client.fresh])
qed

end
