(* ===== verification/Ztna_Policy.thy ===== *)
theory Ztna_Policy
  imports Oidc_Client Core_Error "HOL-Library.Product_Lexorder"
begin

text \<open>
  The access decision of \<open>sng-ztna\<close> (\<open>request.rs\<close>, \<open>device.rs\<close>, \<open>identity.rs\<close>, \<open>app.rs\<close>, \<open>error.rs\<close>
  and \<open>policy.rs\<close>): the records the three providers resolve, the contextual conditions of an
  application, and the evaluator that joins them. A hash set is a set and a hash map a partial
  map; the evaluator never depends on their iteration order.
\<close>

section \<open>Requests\<close>

datatype network_type = Corporate | Vpn | Public | Unknown

primrec network_type_as_str :: "network_type \<Rightarrow> string" where
  "network_type_as_str Corporate = ''corporate''"
| "network_type_as_str Vpn = ''vpn''"
| "network_type_as_str Public = ''public''"
| "network_type_as_str Unknown = ''unknown''"

record access_request =
  req_app_id :: string
  req_device_id :: string
  req_user_id :: string
  req_now_ms :: u64
  req_source_ip :: "string option"
  req_source_country :: "string option"
  req_network_type :: "network_type option"

definition access_request_new :: "string \<Rightarrow> string \<Rightarrow> string \<Rightarrow> u64 \<Rightarrow> access_request" where
  "access_request_new app dev user now =
     \<lparr>req_app_id = app, req_device_id = dev, req_user_id = user, req_now_ms = now,
      req_source_ip = None, req_source_country = None, req_network_type = None\<rparr>"

definition with_network ::
  "access_request \<Rightarrow> string option \<Rightarrow> string option \<Rightarrow> network_type option \<Rightarrow> access_request" where
  "with_network r ip country nt =
     r\<lparr>req_source_ip := ip, req_source_country := country, req_network_type := nt\<rparr>"

section \<open>Devices and their posture\<close>

datatype certificate_health = CertHealthy | CertExpiring | CertExpired | CertUnknown

record device_posture =
  disk_encrypted :: bool
  os_patched :: bool
  antimalware_running :: bool
  firewall_enabled :: bool
  screen_lock_configured :: bool
  edr_healthy :: bool
  os_patch_level :: string
  os_patch_days_since :: u32
  certificate_health :: certificate_health
  antivirus_enabled :: bool
  antivirus_definitions_age_hours :: u32
  attested_at_ms :: u64

definition default_stale_u32 :: u32 where
  "default_stale_u32 = - 1"

definition pristine :: "u64 \<Rightarrow> device_posture" where
  "pristine now =
     \<lparr>disk_encrypted = True, os_patched = True, antimalware_running = True,
      firewall_enabled = True, screen_lock_configured = True, edr_healthy = True,
      os_patch_level = ''current'', os_patch_days_since = 0, certificate_health = CertHealthy,
      antivirus_enabled = True, antivirus_definitions_age_hours = 0, attested_at_ms = now\<rparr>"

definition unmanaged :: device_posture where
  "unmanaged =
     \<lparr>disk_encrypted = False, os_patched = False, antimalware_running = False,
      firewall_enabled = False, screen_lock_configured = False, edr_healthy = False,
      os_patch_level = [], os_patch_days_since = - 1, certificate_health = CertUnknown,
      antivirus_enabled = False, antivirus_definitions_age_hours = - 1, attested_at_ms = 0\<rparr>"

definition risk_score :: "device_posture \<Rightarrow> u8" where
  "risk_score p =
     (let score = 0;
          score = (if disk_encrypted p then score + 25 else score);
          score = (if os_patched p then score + 25 else score);
          score = (if antimalware_running p then score + 20 else score);
          score = (if firewall_enabled p then score + 15 else score);
          score = (if screen_lock_configured p then score + 15 else score)
      in score)"

record device_trust =
  dev_device_id :: string
  dev_tenant_id :: string
  dev_posture :: device_posture
  dev_tags :: "string \<rightharpoonup> string"

definition posture_fresh :: "device_trust \<Rightarrow> u64 \<Rightarrow> u64 \<Rightarrow> bool" where
  "posture_fresh d now max_age \<longleftrightarrow> saturating_sub now (attested_at_ms (dev_posture d)) \<le> max_age"

section \<open>Identities\<close>

record user_identity =
  usr_user_id :: string
  usr_tenant_id :: string
  usr_groups :: "string set"
  usr_mfa_at_ms :: u64
  usr_tags :: "string \<rightharpoonup> string"

definition mfa_fresh :: "user_identity \<Rightarrow> u64 \<Rightarrow> u64 \<Rightarrow> bool" where
  "mfa_fresh u now max_age \<longleftrightarrow> saturating_sub now (usr_mfa_at_ms u) \<le> max_age"

section \<open>Posture requirements\<close>

record posture_requirement =
  min_score :: u8
  require_edr :: bool
  min_patch_days :: "u32 option"
  max_av_definition_age_hours :: "u32 option"

definition posture_requirement_new :: "u8 \<Rightarrow> posture_requirement" where
  "posture_requirement_new n =
     \<lparr>min_score = (if n > 100 then 100 else n), require_edr = False,
      min_patch_days = None, max_av_definition_age_hours = None\<rparr>"

definition requirement_none :: posture_requirement where
  "requirement_none = posture_requirement_new 0"

definition requirement_basic :: posture_requirement where
  "requirement_basic = posture_requirement_new 60"

definition requirement_strict :: posture_requirement where
  "requirement_strict = posture_requirement_new 90"

definition with_require_edr :: "posture_requirement \<Rightarrow> bool \<Rightarrow> posture_requirement" where
  "with_require_edr r b = r\<lparr>require_edr := b\<rparr>"

definition with_min_patch_days :: "posture_requirement \<Rightarrow> u32 \<Rightarrow> posture_requirement" where
  "with_min_patch_days r d = r\<lparr>min_patch_days := Some d\<rparr>"

definition with_max_av_definition_age_hours :: "posture_requirement \<Rightarrow> u32 \<Rightarrow> posture_requirement" where
  "with_max_av_definition_age_hours r h = r\<lparr>max_av_definition_age_hours := Some h\<rparr>"

definition satisfied_by :: "posture_requirement \<Rightarrow> device_posture \<Rightarrow> bool" where
  "satisfied_by r p =
     (if risk_score p < min_score r then False
      else if require_edr r \<and> \<not> edr_healthy p then False
      else if (case min_patch_days r of Some d \<Rightarrow> os_patch_days_since p > d | None \<Rightarrow> False) then False
      else if (case max_av_definition_age_hours r of
                 Some a \<Rightarrow> \<not> antivirus_enabled p \<or> antivirus_definitions_age_hours p > a
               | None \<Rightarrow> False) then False
      else True)"

fun cap_key :: "u32 option \<Rightarrow> u8 \<times> u32" where
  "cap_key None = (0, 0)"
| "cap_key (Some c) = (1, - 1 - c)"

definition strictness_key ::
  "'z posture_requirement_scheme \<Rightarrow> u8 \<times> bool \<times> (u8 \<times> u32) \<times> (u8 \<times> u32)" where
  "strictness_key r =
     (min_score r, require_edr r, cap_key (min_patch_days r), cap_key (max_av_definition_age_hours r))"

text \<open>\<open>impl Ord for PostureRequirement\<close>: requirements are compared by their key.\<close>

lemma cap_key_inj: "cap_key a = cap_key b \<longleftrightarrow> a = b"
  by (cases a; cases b) simp_all

lemma strictness_key_inj:
  "strictness_key r = strictness_key s \<and> posture_requirement.more r = posture_requirement.more s \<longleftrightarrow> r = s"
  by (cases r; cases s) (auto simp: strictness_key_def cap_key_inj)

instantiation posture_requirement_ext :: (linorder) linorder
begin

definition less_eq_posture_requirement_ext ::
  "'a posture_requirement_ext \<Rightarrow> 'a posture_requirement_ext \<Rightarrow> bool" where
  "less_eq_posture_requirement_ext r s \<longleftrightarrow>
     (strictness_key r, posture_requirement.more r) \<le> (strictness_key s, posture_requirement.more s)"

definition less_posture_requirement_ext ::
  "'a posture_requirement_ext \<Rightarrow> 'a posture_requirement_ext \<Rightarrow> bool" where
  "less_posture_requirement_ext r s \<longleftrightarrow>
     (strictness_key r, posture_requirement.more r) < (strictness_key s, posture_requirement.more s)"

instance
proof
  fix r s t :: "'a posture_requirement_scheme"
  show "(r < s) = (r \<le> s \<and> \<not> s \<le> r)"
    unfolding less_eq_posture_requirement_ext_def less_posture_requirement_ext_def
    by (rule less_le_not_le)
  show "r \<le> r"
    unfolding less_eq_posture_requirement_ext_def by (rule order_refl)
  show "r \<le> s \<Longrightarrow> s \<le> t \<Longrightarrow> r \<le> t"
    unfolding less_eq_posture_requirement_ext_def by (rule order_trans)
  show "r \<le> s \<Longrightarrow> s \<le> r \<Longrightarrow> r = s"
    unfolding less_eq_posture_requirement_ext_def
    by (drule (1) order_antisym) (simp add: strictness_key_inj [of r s, symmetric])
  show "r \<le> s \<or> s \<le> r"
    unfolding less_eq_posture_requirement_ext_def by (rule linear)
qed

end

section \<open>Contextual conditions\<close>

datatype tag_op = TagEquals | TagNotEquals | TagExists | TagNotExists

record tag_condition =
  tag_key :: string
  tag_oper :: tag_op
  tag_value :: "string option"

definition tag_matches :: "tag_condition \<Rightarrow> (string \<rightharpoonup> string) \<Rightarrow> bool" where
  "tag_matches c tags =
     (let current = tags (tag_key c)
      in case tag_oper c of
           TagEquals \<Rightarrow> current \<noteq> None \<and> current = tag_value c
         | TagNotEquals \<Rightarrow> current \<noteq> tag_value c
         | TagExists \<Rightarrow> current \<noteq> None
         | TagNotExists \<Rightarrow> current = None)"

record time_window =
  start_hour :: u8
  end_hour :: u8
  days :: "u8 set"

definition window_contains :: "time_window \<Rightarrow> u64 \<Rightarrow> bool" where
  "window_contains w now =
     (let days_since_epoch = now div 86400000;
          weekday = (ucast ((days_since_epoch + 4) mod 7) :: u8)
      in if days w \<noteq> {} \<and> weekday \<notin> days w then False
         else let hour = (ucast (now div 3600000 mod 24) :: u8)
              in if start_hour w \<le> end_hour w then hour \<ge> start_hour w \<and> hour < end_hour w
                 else hour \<ge> start_hour w \<or> hour < end_hour w)"

record access_conditions =
  allowed_countries :: "string set option"
  blocked_countries :: "string set option"
  allowed_network_types :: "network_type set option"
  allowed_hours :: "time_window option"
  device_tag_conditions :: "tag_condition list"
  user_tag_conditions :: "tag_condition list"

definition access_conditions_default :: access_conditions where
  "access_conditions_default =
     \<lparr>allowed_countries = None, blocked_countries = None, allowed_network_types = None,
      allowed_hours = None, device_tag_conditions = [], user_tag_conditions = []\<rparr>"

definition country_denied :: "access_conditions \<Rightarrow> string option \<Rightarrow> bool" where
  "country_denied c country =
     (let upper = map_option to_ascii_uppercase country
      in if (case (blocked_countries c, upper) of
               (Some blocked, Some u) \<Rightarrow> \<exists>b\<in>blocked. eq_ignore_ascii_case b u
             | _ \<Rightarrow> False) then True
         else case allowed_countries c of
                Some allowed \<Rightarrow>
                  (case upper of
                     Some u \<Rightarrow> \<not> (\<exists>a\<in>allowed. eq_ignore_ascii_case a u)
                   | None \<Rightarrow> True)
              | None \<Rightarrow> False)"

definition network_denied :: "access_conditions \<Rightarrow> network_type \<Rightarrow> bool" where
  "network_denied c nt = (case allowed_network_types c of Some ns \<Rightarrow> nt \<notin> ns | None \<Rightarrow> False)"

definition outside_hours :: "access_conditions \<Rightarrow> u64 \<Rightarrow> bool" where
  "outside_hours c now = (case allowed_hours c of Some w \<Rightarrow> \<not> window_contains w now | None \<Rightarrow> False)"

section \<open>Applications\<close>

record app =
  app_app_id :: string
  display_name :: string
  host_patterns :: "string list"
  required_groups :: "string set"
  app_posture_requirement :: posture_requirement
  mfa_max_age_override_ms :: "u64 option"
  conditions :: access_conditions
  app_tags :: "string \<rightharpoonup> string"

definition app_new :: "string \<Rightarrow> string \<Rightarrow> app" where
  "app_new ident label =
     \<lparr>app_app_id = ident, display_name = label, host_patterns = [], required_groups = {},
      app_posture_requirement = requirement_none, mfa_max_age_override_ms = None,
      conditions = access_conditions_default, app_tags = Map.empty\<rparr>"

section \<open>Decisions\<close>

datatype ztna_reason =
    Allow | UnknownApp | DeviceNotEnrolled | DevicePostureStale | DevicePostureInsufficient
  | IdentityNotFound | IdentityAbsent | MfaStale | NotEntitled | TenantMismatch | Revoked
  | GeoBlocked | NetworkTypeBlocked | OutsideAllowedHours | TagMismatch

primrec reason_as_str :: "ztna_reason \<Rightarrow> string" where
  "reason_as_str Allow = ''allow''"
| "reason_as_str UnknownApp = ''unknown_app''"
| "reason_as_str DeviceNotEnrolled = ''device_not_enrolled''"
| "reason_as_str DevicePostureStale = ''device_posture_stale''"
| "reason_as_str DevicePostureInsufficient = ''device_posture_insufficient''"
| "reason_as_str IdentityNotFound = ''identity_not_found''"
| "reason_as_str IdentityAbsent = ''identity_absent''"
| "reason_as_str MfaStale = ''mfa_stale''"
| "reason_as_str NotEntitled = ''not_entitled''"
| "reason_as_str TenantMismatch = ''tenant_mismatch''"
| "reason_as_str Revoked = ''revoked''"
| "reason_as_str GeoBlocked = ''geo_blocked''"
| "reason_as_str NetworkTypeBlocked = ''network_type_blocked''"
| "reason_as_str OutsideAllowedHours = ''outside_allowed_hours''"
| "reason_as_str TagMismatch = ''tag_mismatch''"

datatype posture_result = PosturePass | PostureFail | PostureNotEvaluated

primrec posture_result_as_str :: "posture_result \<Rightarrow> string" where
  "posture_result_as_str PosturePass = ''pass''"
| "posture_result_as_str PostureFail = ''fail''"
| "posture_result_as_str PostureNotEvaluated = ''not_evaluated''"

record ztna_decision =
  allow :: bool
  reason :: ztna_reason
  posture_outcome :: posture_result

definition decision_allow :: ztna_decision where
  "decision_allow = \<lparr>allow = True, reason = Allow, posture_outcome = PosturePass\<rparr>"

definition decision_deny :: "ztna_reason \<Rightarrow> posture_result \<Rightarrow> ztna_decision" where
  "decision_deny r p = \<lparr>allow = False, reason = r, posture_outcome = p\<rparr>"

section \<open>Errors\<close>

text \<open>Why a token was rejected, one constructor per message of the source.\<close>

datatype token_rejection = CrossTenantToken string string | EmptySub | InvalidToken oidc_error

datatype ztna_error =
    ErrUnknownApp string | ErrDeviceNotEnrolled string | ErrIdentityNotFound string
  | ErrBundleDecode string | ErrInvalidPolicy string | ErrProviderFailure string string
  | ErrTelemetry string | ErrTokenRejected token_rejection | ErrIdpConfigNotFound string

fun ztna_error_code :: "ztna_error \<Rightarrow> error_code" where
  "ztna_error_code (ErrBundleDecode _) = Code_WireSchema"
| "ztna_error_code (ErrInvalidPolicy _) = Code_WireSchema"
| "ztna_error_code (ErrUnknownApp _) = Code_ResourceMissing"
| "ztna_error_code (ErrDeviceNotEnrolled _) = Code_IdentityRejected"
| "ztna_error_code (ErrIdentityNotFound _) = Code_IdentityRejected"
| "ztna_error_code (ErrTokenRejected _) = Code_IdentityRejected"
| "ztna_error_code (ErrIdpConfigNotFound _) = Code_IdentityRejected"
| "ztna_error_code (ErrProviderFailure _ _) = Code_Io"
| "ztna_error_code (ErrTelemetry _) = Code_Io"

fun as_decision_reason :: "ztna_error \<Rightarrow> ztna_reason" where
  "as_decision_reason (ErrUnknownApp _) = UnknownApp"
| "as_decision_reason (ErrDeviceNotEnrolled _) = DeviceNotEnrolled"
| "as_decision_reason (ErrIdentityNotFound _) = IdentityNotFound"
| "as_decision_reason _ = Revoked"

section \<open>The policy and its evaluator\<close>

record ztna_policy =
  device_posture_max_age_ms :: u64
  mfa_max_age_ms :: u64
  pol_tenant_id :: string
  reeval_interval_ms :: u64

definition ztna_policy_default :: ztna_policy where
  "ztna_policy_default =
     \<lparr>device_posture_max_age_ms = 12 * 60 * 60 * 1000, mfa_max_age_ms = 8 * 60 * 60 * 1000,
      pol_tenant_id = [], reeval_interval_ms = 60 * 1000\<rparr>"

definition ztna_policy_validate :: "ztna_policy \<Rightarrow> ztna_error + unit" where
  "ztna_policy_validate p =
     (if mfa_max_age_ms p = 0
      then Inl (ErrInvalidPolicy
        ''mfa_max_age_ms must be > 0 (a zero budget marks every MFA assertion stale)'')
      else if device_posture_max_age_ms p = 0
      then Inl (ErrInvalidPolicy
        ''device_posture_max_age_ms must be > 0 (a zero budget marks every posture attestation stale)'')
      else if reeval_interval_ms p = 0
      then Inl (ErrInvalidPolicy
        ''reeval_interval_ms must be > 0 (a zero interval would busy-spin the re-evaluation loop)'')
      else Inr ())"

record evaluation_inputs =
  in_app :: app
  in_device :: device_trust
  in_identity :: "user_identity option"
  in_now_ms :: u64
  in_source_country :: "string option"
  in_network_type :: network_type

definition evaluate_policy :: "ztna_policy \<Rightarrow> evaluation_inputs \<Rightarrow> ztna_decision" where
  "evaluate_policy policy inputs =
     (let app = in_app inputs; device = in_device inputs; identity = in_identity inputs;
          now_ms = in_now_ms inputs; conds = conditions app
      in if pol_tenant_id policy \<noteq> []
            \<and> (dev_tenant_id device \<noteq> pol_tenant_id policy
               \<or> (case identity of Some i \<Rightarrow> usr_tenant_id i \<noteq> pol_tenant_id policy | None \<Rightarrow> False))
         then decision_deny TenantMismatch PostureNotEvaluated
         else if country_denied conds (in_source_country inputs)
         then decision_deny GeoBlocked PostureNotEvaluated
         else if network_denied conds (in_network_type inputs)
         then decision_deny NetworkTypeBlocked PostureNotEvaluated
         else if outside_hours conds now_ms
         then decision_deny OutsideAllowedHours PostureNotEvaluated
         else let device_tags_ok =
                    list_all (\<lambda>c. tag_matches c (dev_tags device)) (device_tag_conditions conds);
                  user_tags_ok =
                    (case identity of None \<Rightarrow> True
                     | Some i \<Rightarrow> list_all (\<lambda>c. tag_matches c (usr_tags i)) (user_tag_conditions conds))
         in if \<not> (device_tags_ok \<and> user_tags_ok)
         then decision_deny TagMismatch PostureNotEvaluated
         else let identity_gates =
           (case identity of
              None \<Rightarrow> None
            | Some i \<Rightarrow>
                if required_groups app \<noteq> {} \<and> \<not> (\<exists>g\<in>required_groups app. g \<in> usr_groups i)
                then Some (decision_deny NotEntitled PostureNotEvaluated)
                else let max_age =
                       (case mfa_max_age_override_ms app of Some m \<Rightarrow> m | None \<Rightarrow> mfa_max_age_ms policy)
                     in if \<not> mfa_fresh i now_ms max_age
                        then Some (decision_deny MfaStale PostureNotEvaluated) else None)
         in case identity_gates of
              Some d \<Rightarrow> d
            | None \<Rightarrow>
                if \<not> posture_fresh device now_ms (device_posture_max_age_ms policy)
                then decision_deny DevicePostureStale PostureFail
                else if \<not> satisfied_by (app_posture_requirement app) (dev_posture device)
                then decision_deny DevicePostureInsufficient PostureFail
                else if identity \<noteq> None then decision_allow
                else decision_deny IdentityAbsent PosturePass)"

section \<open>The gates in order\<close>

text \<open>
  The decision as its documentation puts it: a list of gates, each with the reason and the posture
  outcome that its failure gives, over natural numbers. The evaluator is proved to report the first
  gate that fails.
\<close>

type_synonym gate = "bool \<times> ztna_reason \<times> posture_result"

definition same_country :: "string \<Rightarrow> string set \<Rightarrow> bool" where
  "same_country c S \<longleftrightarrow> to_ascii_lowercase c \<in> to_ascii_lowercase ` S"

definition country_ok :: "access_conditions \<Rightarrow> string option \<Rightarrow> bool" where
  "country_ok c country \<longleftrightarrow>
     (\<forall>S k. blocked_countries c = Some S \<longrightarrow> country = Some k \<longrightarrow> \<not> same_country k S)
     \<and> (\<forall>S. allowed_countries c = Some S \<longrightarrow> (\<exists>k. country = Some k \<and> same_country k S))"

text \<open>Weekday and hour of a Unix time in milliseconds; day 0 was a Thursday.\<close>

definition weekday_of :: "u64 \<Rightarrow> nat" where
  "weekday_of now = (unat now div 86400000 + 4) mod 7"

definition hour_of :: "u64 \<Rightarrow> nat" where
  "hour_of now = unat now div 3600000 mod 24"

definition in_window :: "time_window \<Rightarrow> u64 \<Rightarrow> bool" where
  "in_window w now \<longleftrightarrow>
     (days w = {} \<or> weekday_of now \<in> unat ` days w)
     \<and> (if start_hour w \<le> end_hour w
        then unat (start_hour w) \<le> hour_of now \<and> hour_of now < unat (end_hour w)
        else unat (start_hour w) \<le> hour_of now \<or> hour_of now < unat (end_hour w))"

definition posture_points :: "device_posture \<Rightarrow> nat" where
  "posture_points p =
     25 * of_bool (disk_encrypted p) + 25 * of_bool (os_patched p)
     + 20 * of_bool (antimalware_running p) + 15 * of_bool (firewall_enabled p)
     + 15 * of_bool (screen_lock_configured p)"

definition posture_meets :: "posture_requirement \<Rightarrow> device_posture \<Rightarrow> bool" where
  "posture_meets r p \<longleftrightarrow>
     unat (min_score r) \<le> posture_points p
     \<and> (require_edr r \<longrightarrow> edr_healthy p)
     \<and> (\<forall>d. min_patch_days r = Some d \<longrightarrow> os_patch_days_since p \<le> d)
     \<and> (\<forall>a. max_av_definition_age_hours r = Some a \<longrightarrow>
          antivirus_enabled p \<and> antivirus_definitions_age_hours p \<le> a)"

definition mfa_budget :: "ztna_policy \<Rightarrow> app \<Rightarrow> u64" where
  "mfa_budget policy a = (case mfa_max_age_override_ms a of Some m \<Rightarrow> m | None \<Rightarrow> mfa_max_age_ms policy)"

definition tenant_ok :: "ztna_policy \<Rightarrow> evaluation_inputs \<Rightarrow> bool" where
  "tenant_ok policy i \<longleftrightarrow>
     pol_tenant_id policy = []
     \<or> dev_tenant_id (in_device i) = pol_tenant_id policy
       \<and> (\<forall>u. in_identity i = Some u \<longrightarrow> usr_tenant_id u = pol_tenant_id policy)"

definition network_ok :: "access_conditions \<Rightarrow> network_type \<Rightarrow> bool" where
  "network_ok c nt \<longleftrightarrow> (\<forall>ns. allowed_network_types c = Some ns \<longrightarrow> nt \<in> ns)"

definition hours_ok :: "access_conditions \<Rightarrow> u64 \<Rightarrow> bool" where
  "hours_ok c now \<longleftrightarrow> (\<forall>w. allowed_hours c = Some w \<longrightarrow> in_window w now)"

definition tags_ok :: "evaluation_inputs \<Rightarrow> bool" where
  "tags_ok i \<longleftrightarrow>
     (\<forall>t\<in>set (device_tag_conditions (conditions (in_app i))). tag_matches t (dev_tags (in_device i)))
     \<and> (\<forall>u. in_identity i = Some u \<longrightarrow>
          (\<forall>t\<in>set (user_tag_conditions (conditions (in_app i))). tag_matches t (usr_tags u)))"

definition entitled :: "app \<Rightarrow> user_identity \<Rightarrow> bool" where
  "entitled a u \<longleftrightarrow> required_groups a = {} \<or> required_groups a \<inter> usr_groups u \<noteq> {}"

definition mfa_current :: "ztna_policy \<Rightarrow> app \<Rightarrow> user_identity \<Rightarrow> u64 \<Rightarrow> bool" where
  "mfa_current policy a u now \<longleftrightarrow> unat now \<le> unat (usr_mfa_at_ms u) + unat (mfa_budget policy a)"

definition posture_current :: "ztna_policy \<Rightarrow> device_trust \<Rightarrow> u64 \<Rightarrow> bool" where
  "posture_current policy d now \<longleftrightarrow>
     unat now \<le> unat (attested_at_ms (dev_posture d)) + unat (device_posture_max_age_ms policy)"

definition gates :: "ztna_policy \<Rightarrow> evaluation_inputs \<Rightarrow> gate list" where
  "gates policy i =
     [(tenant_ok policy i, TenantMismatch, PostureNotEvaluated),
      (country_ok (conditions (in_app i)) (in_source_country i), GeoBlocked, PostureNotEvaluated),
      (network_ok (conditions (in_app i)) (in_network_type i), NetworkTypeBlocked, PostureNotEvaluated),
      (hours_ok (conditions (in_app i)) (in_now_ms i), OutsideAllowedHours, PostureNotEvaluated),
      (tags_ok i, TagMismatch, PostureNotEvaluated),
      (\<forall>u. in_identity i = Some u \<longrightarrow> entitled (in_app i) u, NotEntitled, PostureNotEvaluated),
      (\<forall>u. in_identity i = Some u \<longrightarrow> mfa_current policy (in_app i) u (in_now_ms i),
       MfaStale, PostureNotEvaluated),
      (posture_current policy (in_device i) (in_now_ms i), DevicePostureStale, PostureFail),
      (posture_meets (app_posture_requirement (in_app i)) (dev_posture (in_device i)),
       DevicePostureInsufficient, PostureFail),
      (in_identity i \<noteq> None, IdentityAbsent, PosturePass)]"

fun first_failure :: "gate list \<Rightarrow> ztna_decision" where
  "first_failure [] = decision_allow"
| "first_failure ((ok, r, p) # gs) = (if ok then first_failure gs else decision_deny r p)"

section \<open>The evaluator reports the first gate that fails\<close>

lemma age_within:
  "saturating_sub now t \<le> (m :: u64) \<longleftrightarrow> unat now \<le> unat t + unat m"
  by (auto simp: word_le_nat_alt unat_saturating_sub)

lemma unat_risk_score: "unat (risk_score p) = posture_points p"
  by (simp add: risk_score_def posture_points_def Let_def)

lemma satisfied_by_iff: "satisfied_by r p \<longleftrightarrow> posture_meets r p"
  unfolding satisfied_by_def posture_meets_def unat_risk_score [symmetric] word_le_nat_alt [symmetric]
  by (auto simp: not_less split: option.splits)

lemma same_country_iff: "(\<exists>b\<in>S. eq_ignore_ascii_case b k) \<longleftrightarrow> same_country k S"
  by (simp add: same_country_def eq_ignore_ascii_case_def image_iff) metis

lemma same_country_upper [simp]: "same_country (to_ascii_uppercase k) S = same_country k S"
  by (simp flip: same_country_iff)

lemma country_denied_iff: "country_denied c k \<longleftrightarrow> \<not> country_ok c k"
  unfolding country_denied_def country_ok_def Let_def
  by (auto simp: same_country_iff split: option.splits)

lemma unat_ucast_small:
  "unat x < 256 \<Longrightarrow> unat (ucast (x :: u64) :: u8) = unat x"
  by (simp add: unsigned_ucast_eq take_bit_nat_eq_self)

lemma unat_mod_u64: "unat ((x :: u64) mod n) = unat x mod unat n"
  by (simp add: unat_mod)

lemma weekday_of_word: "unat (ucast ((now div 86400000 + 4) mod 7 :: u64) :: u8) = weekday_of now"
proof -
  have "unat now < 2 ^ 64" using unsigned_less [where w = now and ?'a = nat] by simp
  then have "unat (now div 86400000 + 4) = unat now div 86400000 + 4"
    by (subst unat_add_no_overflow) (simp_all add: unat_div div_le_dividend less_le_trans)
  then have "unat ((now div 86400000 + 4) mod 7) = weekday_of now"
    by (simp add: unat_mod_u64 weekday_of_def)
  moreover have "weekday_of now < 256" by (simp add: weekday_of_def less_trans [OF mod_less_divisor])
  ultimately show ?thesis by (simp add: unat_ucast_small)
qed

lemma hour_of_word: "unat (ucast (now div 3600000 mod 24 :: u64) :: u8) = hour_of now"
proof -
  have "unat (now div 3600000 mod 24) = hour_of now"
    by (simp add: unat_mod_u64 unat_div hour_of_def)
  moreover have "hour_of now < 256" by (simp add: hour_of_def less_trans [OF mod_less_divisor])
  ultimately show ?thesis by (simp add: unat_ucast_small)
qed

lemma unat_mem_image: "unat x \<in> unat ` S \<longleftrightarrow> x \<in> S"
proof
  assume "unat x \<in> unat ` S"
  then obtain y where "y \<in> S" "unat x = unat y" by blast
  moreover from this(2) have "x = y" by (simp only: word_unat_eq_iff)
  ultimately show "x \<in> S" by simp
qed (rule imageI)

lemma window_contains_iff: "window_contains w now \<longleftrightarrow> in_window w now"
  unfolding window_contains_def in_window_def Let_def
    weekday_of_word [symmetric] hour_of_word [symmetric] unat_mem_image
    word_le_nat_alt [symmetric] word_less_nat_alt [symmetric]
  by simp

lemma tenant_denied_iff:
  "(pol_tenant_id policy \<noteq> []
    \<and> (dev_tenant_id (in_device i) \<noteq> pol_tenant_id policy
       \<or> (case in_identity i of None \<Rightarrow> False | Some u \<Rightarrow> usr_tenant_id u \<noteq> pol_tenant_id policy)))
   = (\<not> tenant_ok policy i)"
  by (auto simp: tenant_ok_def split: option.splits)

lemma network_denied_iff: "network_denied c nt = (\<not> network_ok c nt)"
  by (simp add: network_denied_def network_ok_def split: option.splits)

lemma outside_hours_iff: "outside_hours c now = (\<not> hours_ok c now)"
  by (simp add: outside_hours_def hours_ok_def window_contains_iff split: option.splits)

lemma tags_denied_iff:
  "(list_all (\<lambda>c. tag_matches c (dev_tags (in_device i))) (device_tag_conditions (conditions (in_app i)))
    \<and> (case in_identity i of None \<Rightarrow> True
       | Some u \<Rightarrow> list_all (\<lambda>c. tag_matches c (usr_tags u)) (user_tag_conditions (conditions (in_app i)))))
   = tags_ok i"
  by (simp add: tags_ok_def list_all_iff split: option.splits)

lemma not_entitled_iff:
  "(required_groups a \<noteq> {} \<and> \<not> (\<exists>g\<in>required_groups a. g \<in> usr_groups u)) = (\<not> entitled a u)"
  by (auto simp: entitled_def)

lemma mfa_fresh_iff:
  "mfa_fresh u now (case mfa_max_age_override_ms a of None \<Rightarrow> mfa_max_age_ms policy | Some m \<Rightarrow> m)
   = mfa_current policy a u now"
  by (simp add: mfa_fresh_def age_within mfa_current_def mfa_budget_def)

lemma posture_fresh_iff:
  "posture_fresh d now (device_posture_max_age_ms policy) = posture_current policy d now"
  by (simp add: posture_fresh_def age_within posture_current_def)

lemma if_neg: "(if \<not> b then x else y) = (if b then y else x)"
  by simp

lemma case_option_if:
  "(case (if b then x else y) of None \<Rightarrow> z | Some d \<Rightarrow> d)
   = (if b then case x of None \<Rightarrow> z | Some d \<Rightarrow> d else case y of None \<Rightarrow> z | Some d \<Rightarrow> d)"
  by simp

lemmas gate_iffs = tenant_denied_iff country_denied_iff network_denied_iff outside_hours_iff
  tags_denied_iff not_entitled_iff mfa_fresh_iff posture_fresh_iff satisfied_by_iff

lemma evaluate_policy_gates: "evaluate_policy policy i = first_failure (gates policy i)"
  unfolding evaluate_policy_def gates_def Let_def gate_iffs first_failure.simps if_neg
  by (cases "in_identity i") (simp_all add: if_neg case_option_if split del: if_split cong: if_cong)

text \<open>
  Claim C18. The evaluator is exactly its documented list of gates: it denies with the reason and the
  posture outcome of the first gate that fails (tenant, country, network, hours, tags, groups, MFA
  age, posture age, posture, presence of a subject) and allows when all of them hold. The freshness
  gates are the inequalities over unbounded integers, so no clock value wraps around.
\<close>

theorem evaluate_policy_first_failing_gate:
  "evaluate_policy policy i = first_failure (gates policy i)"
  by (rule evaluate_policy_gates)

lemma first_failure_allow: "allow (first_failure gs) \<longleftrightarrow> (\<forall>g\<in>set gs. fst g)"
  by (induction gs) (auto simp: decision_allow_def decision_deny_def split: if_splits)

lemma evaluate_policy_allow_iff:
  "allow (evaluate_policy policy i) \<longleftrightarrow> (\<forall>g\<in>set (gates policy i). fst g)"
  by (simp add: evaluate_policy_gates first_failure_allow)

lemma evaluate_policy_reason:
  "allow d \<longleftrightarrow> reason d = Allow" if "d = evaluate_policy policy i"
proof -
  have "allow (first_failure gs) \<longleftrightarrow> reason (first_failure gs) = Allow"
    if "\<And>g. g \<in> set gs \<Longrightarrow> fst (snd g) \<noteq> Allow" for gs
    using that by (induction gs) (fastforce simp: decision_allow_def decision_deny_def split: if_splits)+
  moreover have "fst (snd g) \<noteq> Allow" if "g \<in> set (gates policy i)" for g
    using that by (auto simp: gates_def)
  ultimately show ?thesis using that by (simp add: evaluate_policy_gates)
qed

section \<open>Strictness of requirements\<close>

definition cap_tighter :: "u32 option \<Rightarrow> u32 option \<Rightarrow> bool" where
  "cap_tighter a b \<longleftrightarrow> (\<forall>y. b = Some y \<longrightarrow> (\<exists>x. a = Some x \<and> x \<le> y))"

text \<open>\<open>r\<close> is at least as strict as \<open>s\<close> on every axis.\<close>

definition dominates :: "posture_requirement \<Rightarrow> posture_requirement \<Rightarrow> bool" where
  "dominates r s \<longleftrightarrow>
     min_score s \<le> min_score r \<and> (require_edr s \<longrightarrow> require_edr r)
     \<and> cap_tighter (min_patch_days r) (min_patch_days s)
     \<and> cap_tighter (max_av_definition_age_hours r) (max_av_definition_age_hours s)"

lemma cap_tighter_key: "cap_tighter a b \<longleftrightarrow> cap_key b \<le> cap_key a"
proof (cases b)
  case None
  then show ?thesis by (cases a) (simp_all add: cap_tighter_def)
next
  case (Some y)
  have "x \<le> y \<longleftrightarrow> - 1 - y \<le> - 1 - x" for x :: u32
  proof -
    have "unat (- 1 - z :: u32) = 2 ^ 32 - 1 - unat z" for z :: u32
      using unat_u32_less [of z] by (subst unat_sub) (simp_all add: unat_max_word word_le_nat_alt)
    then show ?thesis
      using unat_u32_less [of x] unat_u32_less [of y] by (auto simp: word_le_nat_alt)
  qed
  then show ?thesis using Some by (cases a) (simp_all add: cap_tighter_def)
qed

lemma requirement_le_iff: "(s :: posture_requirement) \<le> r \<longleftrightarrow> strictness_key s \<le> strictness_key r"
  by (auto simp: less_eq_posture_requirement_ext_def)

lemma dominates_le: "dominates r s \<Longrightarrow> s \<le> r"
  by (auto simp: dominates_def requirement_le_iff strictness_key_def cap_tighter_key)

lemma dominates_meets: "dominates r s \<Longrightarrow> posture_meets r p \<Longrightarrow> posture_meets s p"
  unfolding dominates_def posture_meets_def cap_tighter_def word_le_nat_alt
  by (meson order_trans)

text \<open>\<open>q\<close> is at least as good a posture as \<open>p\<close>, and attested no earlier.\<close>

definition posture_improves :: "device_posture \<Rightarrow> device_posture \<Rightarrow> bool" where
  "posture_improves p q \<longleftrightarrow>
     (disk_encrypted p \<longrightarrow> disk_encrypted q) \<and> (os_patched p \<longrightarrow> os_patched q)
     \<and> (antimalware_running p \<longrightarrow> antimalware_running q) \<and> (firewall_enabled p \<longrightarrow> firewall_enabled q)
     \<and> (screen_lock_configured p \<longrightarrow> screen_lock_configured q) \<and> (edr_healthy p \<longrightarrow> edr_healthy q)
     \<and> os_patch_days_since q \<le> os_patch_days_since p
     \<and> (antivirus_enabled p \<longrightarrow> antivirus_enabled q)
     \<and> antivirus_definitions_age_hours q \<le> antivirus_definitions_age_hours p
     \<and> attested_at_ms p \<le> attested_at_ms q"

lemma posture_points_mono: "posture_improves p q \<Longrightarrow> posture_points p \<le> posture_points q"
  unfolding posture_improves_def posture_points_def
  by (intro add_mono mult_left_mono) simp_all

lemma posture_improves_meets: "posture_improves p q \<Longrightarrow> posture_meets r p \<Longrightarrow> posture_meets r q"
  unfolding posture_meets_def using posture_points_mono [of p q]
  by (auto simp: posture_improves_def intro: order_trans)

text \<open>
  Access is monotone in strictness: the order of \<open>PostureRequirement\<close> extends dominance on
  every axis, and a request that is allowed stays allowed when the application's requirement is
  replaced by a dominated one and the device's posture by one that is at least as good.
\<close>

theorem access_monotone_in_posture:
  assumes allowed: "allow (evaluate_policy policy i)"
    and dom: "dominates (app_posture_requirement (in_app i)) r"
    and better: "posture_improves (dev_posture (in_device i)) q"
  shows "r \<le> app_posture_requirement (in_app i)
    \<and> allow (evaluate_policy policy
        (i\<lparr>in_app := (in_app i)\<lparr>app_posture_requirement := r\<rparr>, in_device := (in_device i)\<lparr>dev_posture := q\<rparr>\<rparr>))"
proof -
  have "posture_meets (app_posture_requirement (in_app i)) (dev_posture (in_device i))"
    using allowed by (simp add: evaluate_policy_allow_iff gates_def)
  then have "posture_meets r q"
    using dominates_meets [OF dom] posture_improves_meets [OF better] by blast
  moreover have "unat (attested_at_ms (dev_posture (in_device i))) \<le> unat (attested_at_ms q)"
    using better by (simp add: posture_improves_def word_le_nat_alt)
  ultimately show ?thesis
    using allowed dominates_le [OF dom]
    by (auto simp: evaluate_policy_allow_iff gates_def tenant_ok_def tags_ok_def entitled_def
        mfa_current_def mfa_budget_def posture_current_def)
qed

text \<open>A concrete request: a finance application, a managed laptop, a member of the group.\<close>

definition ledger_app :: app where
  "ledger_app = (app_new ''ledger'' ''Ledger'')
     \<lparr>required_groups := {''finance''}, app_posture_requirement := with_require_edr requirement_strict True\<rparr>"

definition laptop :: device_trust where
  "laptop = \<lparr>dev_device_id = ''laptop-1'', dev_tenant_id = ''acme'', dev_posture = pristine 1000,
             dev_tags = Map.empty\<rparr>"

definition alice :: user_identity where
  "alice = \<lparr>usr_user_id = ''alice'', usr_tenant_id = ''acme'', usr_groups = {''finance'', ''staff''},
            usr_mfa_at_ms = 1500, usr_tags = Map.empty\<rparr>"

definition acme_policy :: ztna_policy where
  "acme_policy = ztna_policy_default\<lparr>pol_tenant_id := ''acme''\<rparr>"

definition ledger_inputs :: evaluation_inputs where
  "ledger_inputs = \<lparr>in_app = ledger_app, in_device = laptop, in_identity = Some alice, in_now_ms = 2000,
                    in_source_country = None, in_network_type = Corporate\<rparr>"

lemmas demo_defs = ledger_app_def laptop_def alice_def acme_policy_def ledger_inputs_def app_new_def
  with_require_edr_def requirement_strict_def requirement_basic_def requirement_none_def
  posture_requirement_new_def pristine_def ztna_policy_default_def access_conditions_default_def

lemma ledger_gates: "\<forall>g\<in>set (gates acme_policy ledger_inputs). fst g"
  by (simp add: gates_def demo_defs tenant_ok_def country_ok_def network_ok_def hours_ok_def tags_ok_def
      entitled_def mfa_current_def mfa_budget_def posture_current_def posture_meets_def posture_points_def)

theorem access_monotone_in_posture_witness:
  "requirement_basic \<le> app_posture_requirement ledger_app
   \<and> allow (evaluate_policy acme_policy
       (ledger_inputs\<lparr>in_app := ledger_app\<lparr>app_posture_requirement := requirement_basic\<rparr>,
                      in_device := laptop\<lparr>dev_posture := pristine 1800\<rparr>\<rparr>))"
proof -
  have i: "in_app ledger_inputs = ledger_app" "in_device ledger_inputs = laptop"
    by (simp_all add: ledger_inputs_def)
  have "allow (evaluate_policy acme_policy ledger_inputs)"
    by (simp add: evaluate_policy_allow_iff ledger_gates)
  moreover have "dominates (app_posture_requirement (in_app ledger_inputs)) requirement_basic"
    by (simp add: i dominates_def demo_defs cap_tighter_def)
  moreover have "posture_improves (dev_posture (in_device ledger_inputs)) (pristine 1800)"
    by (simp add: i posture_improves_def demo_defs)
  ultimately show ?thesis
    using access_monotone_in_posture [of acme_policy ledger_inputs requirement_basic "pristine 1800"]
    by (simp only: i)
qed

section \<open>Which requirements can be met\<close>

text \<open>
  A requirement can be met at all exactly when its score is at most 100; the constructor clamps to
  that range.
\<close>

lemma requirement_satisfiable_iff: "(\<exists>p. satisfied_by r p) \<longleftrightarrow> min_score r \<le> 100"
proof
  assume "\<exists>p. satisfied_by r p"
  then obtain p where "unat (min_score r) \<le> posture_points p"
    by (auto simp: satisfied_by_iff posture_meets_def)
  moreover have "posture_points p \<le> 100" by (simp add: posture_points_def)
  ultimately show "min_score r \<le> 100" by (simp add: word_le_nat_alt)
next
  assume "min_score r \<le> 100"
  then have "satisfied_by r (pristine 0)"
    by (simp add: satisfied_by_iff posture_meets_def posture_points_def pristine_def word_le_nat_alt)
  then show "\<exists>p. satisfied_by r p" ..
qed

lemma posture_requirement_new_satisfiable: "\<exists>p. satisfied_by (posture_requirement_new n) p"
  by (simp add: requirement_satisfiable_iff posture_requirement_new_def not_less)

lemma requirement_above_100_denies_all:
  "\<not> satisfied_by (requirement_none\<lparr>min_score := 101\<rparr>) p"
  using requirement_satisfiable_iff [of "requirement_none\<lparr>min_score := 101\<rparr>"] by simp

end
