(* ===== verification/Ztna_Service.thy ===== *)
theory Ztna_Service
  imports Ztna_Policy CAS_Loop
begin

text \<open>
  The orchestrator of \<open>sng-ztna\<close> (\<open>service.rs\<close>, \<open>stats.rs\<close>, the providers of \<open>app.rs\<close>, \<open>device.rs\<close>,
  \<open>identity.rs\<close> and \<open>policy.rs\<close>): provider tables, the policy holder, the counters, and the evaluation of
  one access request with its telemetry. The telemetry channel is tokio's bounded sender: its state
  is a type parameter and \<open>try_send\<close> a parameter of the operations, \<^const>\<open>None\<close> being an error.
\<close>

section \<open>In-memory providers\<close>

definition index_by :: "('v \<Rightarrow> string) \<Rightarrow> 'v list \<Rightarrow> (string \<rightharpoonup> 'v)" where
  "index_by key vs = fold (\<lambda>v m. m(key v \<mapsto> v)) vs Map.empty"

type_synonym app_catalog = "string \<rightharpoonup> app"
type_synonym device_table = "string \<rightharpoonup> device_trust"
type_synonym identity_table = "string \<rightharpoonup> user_identity"

definition app_catalog_new :: "app list \<Rightarrow> app_catalog" where
  "app_catalog_new apps = index_by app_app_id apps"

definition app_catalog_replace :: "app list \<Rightarrow> app_catalog \<Rightarrow> app_catalog" where
  "app_catalog_replace apps cat = index_by app_app_id apps"

definition app_catalog_len :: "app_catalog \<Rightarrow> nat" where
  "app_catalog_len cat = card (dom cat)"

definition app_catalog_is_empty :: "app_catalog \<Rightarrow> bool" where
  "app_catalog_is_empty cat \<longleftrightarrow> dom cat = {}"

definition app_catalog_get :: "app_catalog \<Rightarrow> string \<Rightarrow> app option" where
  "app_catalog_get cat k = cat k"

definition device_table_new :: "device_trust list \<Rightarrow> device_table" where
  "device_table_new ts = index_by dev_device_id ts"

definition device_record :: "device_trust \<Rightarrow> device_table \<Rightarrow> device_table" where
  "device_record t tbl = tbl(dev_device_id t \<mapsto> t)"

definition device_forget :: "string \<Rightarrow> device_table \<Rightarrow> device_table" where
  "device_forget k tbl = tbl(k := None)"

definition device_replace_all :: "device_trust list \<Rightarrow> device_table \<Rightarrow> device_table" where
  "device_replace_all ts tbl = index_by dev_device_id ts"

definition device_get :: "device_table \<Rightarrow> string \<Rightarrow> device_trust option" where
  "device_get tbl k = tbl k"

definition identity_table_new :: "user_identity list \<Rightarrow> identity_table" where
  "identity_table_new us = index_by usr_user_id us"

definition identity_replace :: "user_identity list \<Rightarrow> (identity_table, bool) cell_op" where
  "identity_replace us = Store (index_by usr_user_id us) False"

definition identity_upsert :: "user_identity \<Rightarrow> (identity_table, bool) cell_op" where
  "identity_upsert u = Rmw (\<lambda>tbl. Cas (tbl(usr_user_id u \<mapsto> u)) False)"

definition identity_remove :: "string \<Rightarrow> (identity_table, bool) cell_op" where
  "identity_remove k = Rmw (\<lambda>tbl. Cas (tbl(k := None)) (tbl k \<noteq> None))"

definition identity_get :: "identity_table \<Rightarrow> string \<Rightarrow> user_identity option" where
  "identity_get tbl k = tbl k"

record revocation_list =
  rev_devices :: "string set"
  rev_users :: "string set"

definition replace_devices :: "string set \<Rightarrow> revocation_list \<Rightarrow> revocation_list" where
  "replace_devices ds r = r\<lparr>rev_devices := ds\<rparr>"

definition replace_users :: "string set \<Rightarrow> revocation_list \<Rightarrow> revocation_list" where
  "replace_users us r = r\<lparr>rev_users := us\<rparr>"

definition is_revoked :: "revocation_list \<Rightarrow> string \<Rightarrow> bool" where
  "is_revoked r d \<longleftrightarrow> d \<in> rev_devices r"

definition is_user_revoked :: "revocation_list \<Rightarrow> string \<Rightarrow> bool" where
  "is_user_revoked r u \<longleftrightarrow> u \<in> rev_users r"

section \<open>The policy holder\<close>

definition policy_holder_try_new :: "ztna_policy \<Rightarrow> ztna_error + ztna_policy" where
  "policy_holder_try_new p = and_then (ztna_policy_validate p) (\<lambda>_. Inr p)"

definition policy_try_replace :: "ztna_policy \<Rightarrow> ztna_policy \<Rightarrow> (ztna_error + unit) \<times> ztna_policy" where
  "policy_try_replace p active =
     (case ztna_policy_validate p of Inl e \<Rightarrow> (Inl e, active) | Inr _ \<Rightarrow> (Inr (), p))"

section \<open>Counters\<close>

record ztna_stats =
  requests_evaluated :: u64
  decision_allows :: u64
  deny_unknown_app :: u64
  deny_device_not_enrolled :: u64
  deny_device_posture_stale :: u64
  deny_device_posture_insufficient :: u64
  deny_identity_not_found :: u64
  deny_identity_absent :: u64
  deny_mfa_stale :: u64
  deny_not_entitled :: u64
  deny_tenant_mismatch :: u64
  deny_revoked :: u64
  deny_geo_blocked :: u64
  deny_network_type_blocked :: u64
  deny_outside_hours :: u64
  deny_tag_mismatch :: u64
  bundle_loads :: u64
  bundle_load_failures :: u64
  telemetry_drops :: u64
  provider_failures :: u64

definition ztna_stats_default :: ztna_stats where
  "ztna_stats_default =
     \<lparr>requests_evaluated = 0, decision_allows = 0, deny_unknown_app = 0, deny_device_not_enrolled = 0,
      deny_device_posture_stale = 0, deny_device_posture_insufficient = 0, deny_identity_not_found = 0,
      deny_identity_absent = 0, deny_mfa_stale = 0, deny_not_entitled = 0, deny_tenant_mismatch = 0,
      deny_revoked = 0, deny_geo_blocked = 0, deny_network_type_blocked = 0, deny_outside_hours = 0,
      deny_tag_mismatch = 0, bundle_loads = 0, bundle_load_failures = 0, telemetry_drops = 0,
      provider_failures = 0\<rparr>"

definition record_decision :: "ztna_reason \<Rightarrow> ztna_stats \<Rightarrow> ztna_stats" where
  "record_decision r s0 =
     (let s = s0\<lparr>requests_evaluated := requests_evaluated s0 + 1\<rparr>
      in case r of
           Allow \<Rightarrow> s\<lparr>decision_allows := decision_allows s + 1\<rparr>
         | UnknownApp \<Rightarrow> s\<lparr>deny_unknown_app := deny_unknown_app s + 1\<rparr>
         | DeviceNotEnrolled \<Rightarrow> s\<lparr>deny_device_not_enrolled := deny_device_not_enrolled s + 1\<rparr>
         | DevicePostureStale \<Rightarrow> s\<lparr>deny_device_posture_stale := deny_device_posture_stale s + 1\<rparr>
         | DevicePostureInsufficient \<Rightarrow>
             s\<lparr>deny_device_posture_insufficient := deny_device_posture_insufficient s + 1\<rparr>
         | IdentityNotFound \<Rightarrow> s\<lparr>deny_identity_not_found := deny_identity_not_found s + 1\<rparr>
         | IdentityAbsent \<Rightarrow> s\<lparr>deny_identity_absent := deny_identity_absent s + 1\<rparr>
         | MfaStale \<Rightarrow> s\<lparr>deny_mfa_stale := deny_mfa_stale s + 1\<rparr>
         | NotEntitled \<Rightarrow> s\<lparr>deny_not_entitled := deny_not_entitled s + 1\<rparr>
         | TenantMismatch \<Rightarrow> s\<lparr>deny_tenant_mismatch := deny_tenant_mismatch s + 1\<rparr>
         | Revoked \<Rightarrow> s\<lparr>deny_revoked := deny_revoked s + 1\<rparr>
         | GeoBlocked \<Rightarrow> s\<lparr>deny_geo_blocked := deny_geo_blocked s + 1\<rparr>
         | NetworkTypeBlocked \<Rightarrow> s\<lparr>deny_network_type_blocked := deny_network_type_blocked s + 1\<rparr>
         | OutsideAllowedHours \<Rightarrow> s\<lparr>deny_outside_hours := deny_outside_hours s + 1\<rparr>
         | TagMismatch \<Rightarrow> s\<lparr>deny_tag_mismatch := deny_tag_mismatch s + 1\<rparr>)"

definition record_bundle_load :: "ztna_stats \<Rightarrow> ztna_stats" where
  "record_bundle_load s = s\<lparr>bundle_loads := bundle_loads s + 1\<rparr>"

definition record_bundle_load_failure :: "ztna_stats \<Rightarrow> ztna_stats" where
  "record_bundle_load_failure s = s\<lparr>bundle_load_failures := bundle_load_failures s + 1\<rparr>"

definition record_telemetry_drop :: "ztna_stats \<Rightarrow> ztna_stats" where
  "record_telemetry_drop s = s\<lparr>telemetry_drops := telemetry_drops s + 1\<rparr>"

definition record_provider_failure :: "ztna_stats \<Rightarrow> ztna_stats" where
  "record_provider_failure s = s\<lparr>provider_failures := provider_failures s + 1\<rparr>"

section \<open>The service\<close>

record ztna_service_config =
  max_sessions :: u64
  subjectless_degraded_eval :: bool

definition ztna_service_config_default :: ztna_service_config where
  "ztna_service_config_default = \<lparr>max_sessions = 131072, subjectless_degraded_eval = False\<rparr>"

text \<open>The providers are trait objects: the service holds their lookup functions.\<close>

record 'c ztna_service =
  svc_cfg :: ztna_service_config
  svc_policy :: ztna_policy
  svc_apps :: "string \<Rightarrow> app option"
  svc_devices :: "string \<Rightarrow> device_trust option"
  svc_identities :: "string \<Rightarrow> user_identity option"
  svc_is_revoked :: "string \<Rightarrow> bool"
  svc_is_user_revoked :: "string \<Rightarrow> bool"
  svc_stats :: ztna_stats
  svc_telemetry :: 'c

definition service_builder_new :: "'c \<Rightarrow> 'c ztna_service" where
  "service_builder_new tel =
     \<lparr>svc_cfg = ztna_service_config_default, svc_policy = ztna_policy_default,
      svc_apps = app_catalog_get Map.empty, svc_devices = device_get Map.empty,
      svc_identities = identity_get Map.empty,
      svc_is_revoked = is_revoked \<lparr>rev_devices = {}, rev_users = {}\<rparr>,
      svc_is_user_revoked = is_user_revoked \<lparr>rev_devices = {}, rev_users = {}\<rparr>,
      svc_stats = ztna_stats_default, svc_telemetry = tel\<rparr>"

record ztna_event =
  ev_device_id :: string
  ev_app_id :: string
  ev_posture_result :: string
  ev_decision :: string
  ev_reason :: string
  ev_posture_detail :: string
  ev_identity_verified :: bool

definition build_ztna_event :: "string \<Rightarrow> string \<Rightarrow> ztna_decision \<Rightarrow> bool \<Rightarrow> ztna_event" where
  "build_ztna_event dev app d verified =
     \<lparr>ev_device_id = dev, ev_app_id = app,
      ev_posture_result = posture_result_as_str (posture_outcome d),
      ev_decision = (if allow d then ''allow'' else ''deny''),
      ev_reason = reason_as_str (reason d), ev_posture_detail = [], ev_identity_verified = verified\<rparr>"

datatype wire_verdict = VerdictAllow | VerdictDeny | VerdictInspect | VerdictAlert | VerdictLog

definition decision_to_verdict :: "ztna_decision \<Rightarrow> wire_verdict" where
  "decision_to_verdict d = (if allow d then VerdictAllow else VerdictDeny)"

record eval_outcome =
  out_decision :: ztna_decision
  identity_verified :: bool

datatype eval_report = Emit | Quiet

type_synonym 'c ztna_send = "'c \<Rightarrow> ztna_event \<Rightarrow> 'c option"

definition report_decision ::
  "'c ztna_send \<Rightarrow> eval_report \<Rightarrow> string \<Rightarrow> string \<Rightarrow> ztna_decision \<Rightarrow> bool \<Rightarrow> 'c ztna_service \<Rightarrow> 'c ztna_service" where
  "report_decision try_send report dev app d verified svc =
     (if report \<noteq> Emit then svc
      else let svc1 = svc\<lparr>svc_stats := record_decision (reason d) (svc_stats svc)\<rparr>;
               event = build_ztna_event dev app d verified
           in case try_send (svc_telemetry svc1) event of
                Some c \<Rightarrow> svc1\<lparr>svc_telemetry := c\<rparr>
              | None \<Rightarrow> svc1\<lparr>svc_stats := record_telemetry_drop (svc_stats svc1)\<rparr>)"

definition emit_deny ::
  "'c ztna_send \<Rightarrow> eval_report \<Rightarrow> string \<Rightarrow> string \<Rightarrow> ztna_reason \<Rightarrow> posture_result \<Rightarrow> bool
   \<Rightarrow> 'c ztna_service \<Rightarrow> 'c ztna_service" where
  "emit_deny try_send report dev app r p verified svc =
     report_decision try_send report dev app (decision_deny r p) verified svc"

definition evaluate_reported ::
  "'c ztna_send \<Rightarrow> access_request \<Rightarrow> eval_report \<Rightarrow> 'c ztna_service
   \<Rightarrow> (ztna_error + eval_outcome) \<times> 'c ztna_service" where
  "evaluate_reported try_send req report svc =
     (if svc_is_revoked svc (req_device_id req) \<or> svc_is_user_revoked svc (req_user_id req)
      then let d = decision_deny Revoked PostureNotEvaluated
           in (Inr \<lparr>out_decision = d, identity_verified = False\<rparr>,
               report_decision try_send report (req_device_id req) (req_app_id req) d False svc)
      else case svc_apps svc (req_app_id req) of
        None \<Rightarrow> (Inl (ErrUnknownApp (req_app_id req)),
                 emit_deny try_send report (req_device_id req) (req_app_id req) UnknownApp
                   PostureNotEvaluated False svc)
      | Some app \<Rightarrow>
        (case svc_devices svc (req_device_id req) of
           None \<Rightarrow> (Inl (ErrDeviceNotEnrolled (req_device_id req)),
                    emit_deny try_send report (req_device_id req) (req_app_id req) DeviceNotEnrolled
                      PostureNotEvaluated False svc)
         | Some device \<Rightarrow>
           let identity = svc_identities svc (req_user_id req)
           in if identity = None \<and> \<not> subjectless_degraded_eval (svc_cfg svc)
              then (Inl (ErrIdentityNotFound (req_user_id req)),
                    emit_deny try_send report (req_device_id req) (req_app_id req) IdentityNotFound
                      PostureNotEvaluated False svc)
              else let d = evaluate_policy (svc_policy svc)
                         \<lparr>in_app = app, in_device = device, in_identity = identity,
                          in_now_ms = req_now_ms req, in_source_country = req_source_country req,
                          in_network_type =
                            (case req_network_type req of Some nt \<Rightarrow> nt | None \<Rightarrow> Unknown)\<rparr>
                   in (Inr \<lparr>out_decision = d, identity_verified = (identity \<noteq> None)\<rparr>,
                       report_decision try_send report (req_device_id req) (req_app_id req) d
                         (identity \<noteq> None) svc)))"

definition ztna_evaluate ::
  "'c ztna_send \<Rightarrow> access_request \<Rightarrow> 'c ztna_service \<Rightarrow> (ztna_error + ztna_decision) \<times> 'c ztna_service" where
  "ztna_evaluate try_send req svc =
     (let (r, svc') = evaluate_reported try_send req Emit svc in (map_sum id out_decision r, svc'))"

definition ztna_evaluate_detailed ::
  "'c ztna_send \<Rightarrow> access_request \<Rightarrow> 'c ztna_service \<Rightarrow> (ztna_error + eval_outcome) \<times> 'c ztna_service" where
  "ztna_evaluate_detailed try_send req svc = evaluate_reported try_send req Emit svc"

definition evaluate_for_reeval ::
  "'c ztna_send \<Rightarrow> access_request \<Rightarrow> 'c ztna_service \<Rightarrow> (ztna_error + ztna_decision) \<times> 'c ztna_service" where
  "evaluate_for_reeval try_send req svc =
     (let (r, svc') = evaluate_reported try_send req Quiet svc in (map_sum id out_decision r, svc'))"

definition evaluate_for_reeval_detailed ::
  "'c ztna_send \<Rightarrow> access_request \<Rightarrow> 'c ztna_service \<Rightarrow> (ztna_error + eval_outcome) \<times> 'c ztna_service" where
  "evaluate_for_reeval_detailed try_send req svc = evaluate_reported try_send req Quiet svc"

definition reload_policy :: "ztna_policy \<Rightarrow> 'c ztna_service \<Rightarrow> (ztna_error + unit) \<times> 'c ztna_service" where
  "reload_policy p svc =
     (case policy_try_replace p (svc_policy svc) of
        (Inr _, active) \<Rightarrow>
          (Inr (), svc\<lparr>svc_policy := active, svc_stats := record_bundle_load (svc_stats svc)\<rparr>)
      | (Inl e, active) \<Rightarrow>
          (Inl e, svc\<lparr>svc_policy := active, svc_stats := record_bundle_load_failure (svc_stats svc)\<rparr>))"

definition service_record_bundle_load_failure :: "'c ztna_service \<Rightarrow> 'c ztna_service" where
  "service_record_bundle_load_failure svc =
     svc\<lparr>svc_stats := record_bundle_load_failure (svc_stats svc)\<rparr>"

section \<open>Who is allowed\<close>

definition request_inputs ::
  "access_request \<Rightarrow> app \<Rightarrow> device_trust \<Rightarrow> user_identity option \<Rightarrow> evaluation_inputs" where
  "request_inputs req a d u =
     \<lparr>in_app = a, in_device = d, in_identity = u, in_now_ms = req_now_ms req,
      in_source_country = req_source_country req,
      in_network_type = (case req_network_type req of Some nt \<Rightarrow> nt | None \<Rightarrow> Unknown)\<rparr>"

text \<open>A request is authorised when nobody is revoked, every lookup succeeds and every gate holds.\<close>

definition authorised :: "'c ztna_service \<Rightarrow> access_request \<Rightarrow> bool" where
  "authorised svc req \<longleftrightarrow>
     \<not> svc_is_revoked svc (req_device_id req) \<and> \<not> svc_is_user_revoked svc (req_user_id req)
     \<and> (\<exists>a d u. svc_apps svc (req_app_id req) = Some a \<and> svc_devices svc (req_device_id req) = Some d
          \<and> svc_identities svc (req_user_id req) = Some u
          \<and> (\<forall>g\<in>set (gates (svc_policy svc) (request_inputs req a d (Some u))). fst g))"

definition verdict_allows :: "ztna_error + eval_outcome \<Rightarrow> bool" where
  "verdict_allows r = (case r of Inl _ \<Rightarrow> False | Inr out \<Rightarrow> allow (out_decision out))"

definition verdict_reason :: "ztna_error + eval_outcome \<Rightarrow> ztna_reason" where
  "verdict_reason r = (case r of Inl e \<Rightarrow> as_decision_reason e | Inr out \<Rightarrow> reason (out_decision out))"

lemma no_subject_denied: "\<not> allow (evaluate_policy p (request_inputs req a d None))"
  by (simp add: evaluate_policy_allow_iff gates_def request_inputs_def)

text \<open>The verdict alone, and the decision and subject flag that go on the wire with it.\<close>

definition verdict :: "'c ztna_service \<Rightarrow> access_request \<Rightarrow> ztna_error + eval_outcome" where
  "verdict svc req =
     (if svc_is_revoked svc (req_device_id req) \<or> svc_is_user_revoked svc (req_user_id req)
      then Inr \<lparr>out_decision = decision_deny Revoked PostureNotEvaluated, identity_verified = False\<rparr>
      else case svc_apps svc (req_app_id req) of
        None \<Rightarrow> Inl (ErrUnknownApp (req_app_id req))
      | Some a \<Rightarrow>
        (case svc_devices svc (req_device_id req) of
           None \<Rightarrow> Inl (ErrDeviceNotEnrolled (req_device_id req))
         | Some d \<Rightarrow>
           (case svc_identities svc (req_user_id req) of
              None \<Rightarrow>
                if subjectless_degraded_eval (svc_cfg svc)
                then Inr \<lparr>out_decision = evaluate_policy (svc_policy svc) (request_inputs req a d None),
                          identity_verified = False\<rparr>
                else Inl (ErrIdentityNotFound (req_user_id req))
            | Some u \<Rightarrow>
                Inr \<lparr>out_decision = evaluate_policy (svc_policy svc) (request_inputs req a d (Some u)),
                     identity_verified = True\<rparr>)))"

definition wire_decision :: "ztna_error + eval_outcome \<Rightarrow> ztna_decision" where
  "wire_decision r =
     (case r of Inl e \<Rightarrow> decision_deny (as_decision_reason e) PostureNotEvaluated | Inr out \<Rightarrow> out_decision out)"

definition wire_verified :: "ztna_error + eval_outcome \<Rightarrow> bool" where
  "wire_verified r = (case r of Inl _ \<Rightarrow> False | Inr out \<Rightarrow> identity_verified out)"

lemma evaluate_reported_eq:
  "evaluate_reported try_send req report svc =
     (verdict svc req,
      report_decision try_send report (req_device_id req) (req_app_id req)
        (wire_decision (verdict svc req)) (wire_verified (verdict svc req)) svc)"
  unfolding evaluate_reported_def verdict_def request_inputs_def [symmetric] Let_def emit_deny_def
  by (simp add: wire_decision_def wire_verified_def split: option.split)

lemma verdict_allows_iff: "verdict_allows (verdict svc req) \<longleftrightarrow> authorised svc req"
  using no_subject_denied [of "svc_policy svc" req]
  unfolding verdict_def authorised_def verdict_allows_def evaluate_policy_allow_iff [symmetric]
  by (simp add: decision_deny_def split: option.split)

lemma verdict_reason_allow: "verdict_reason (verdict svc req) = Allow \<longleftrightarrow> authorised svc req"
  unfolding verdict_allows_iff [symmetric] verdict_def verdict_allows_def verdict_reason_def
  by (simp add: decision_deny_def evaluate_policy_reason [OF refl] split: option.split)

lemma wire_decision_reason: "reason (wire_decision r) = verdict_reason r"
  by (simp add: wire_decision_def verdict_reason_def decision_deny_def split: sum.split)

lemma wire_decision_allow: "allow (wire_decision r) = verdict_allows r"
  by (simp add: wire_decision_def verdict_allows_def decision_deny_def split: sum.split)

text \<open>
  Claim C4. Access is denied by default: an evaluation allows a request exactly when neither the
  device nor the user is revoked, the application, the device and the user are all known, and every
  gate of the policy holds for them; a missing subject is never an allow, also in degraded mode. The
  silent re-evaluation decides alike, and the reported reason is \<open>Allow\<close> exactly then.
\<close>

theorem evaluate_denies_by_default:
  "(verdict_allows (fst (ztna_evaluate_detailed try_send req svc)) \<longleftrightarrow> authorised svc req)
   \<and> fst (evaluate_for_reeval_detailed try_send req svc) = fst (ztna_evaluate_detailed try_send req svc)
   \<and> (verdict_reason (fst (ztna_evaluate_detailed try_send req svc)) = Allow \<longleftrightarrow> authorised svc req)"
  by (simp add: ztna_evaluate_detailed_def evaluate_for_reeval_detailed_def evaluate_reported_eq
      verdict_allows_iff verdict_reason_allow)

section \<open>Every request is accounted for\<close>

primrec counter_of :: "ztna_reason \<Rightarrow> ztna_stats \<Rightarrow> u64" where
  "counter_of Allow s = decision_allows s"
| "counter_of UnknownApp s = deny_unknown_app s"
| "counter_of DeviceNotEnrolled s = deny_device_not_enrolled s"
| "counter_of DevicePostureStale s = deny_device_posture_stale s"
| "counter_of DevicePostureInsufficient s = deny_device_posture_insufficient s"
| "counter_of IdentityNotFound s = deny_identity_not_found s"
| "counter_of IdentityAbsent s = deny_identity_absent s"
| "counter_of MfaStale s = deny_mfa_stale s"
| "counter_of NotEntitled s = deny_not_entitled s"
| "counter_of TenantMismatch s = deny_tenant_mismatch s"
| "counter_of Revoked s = deny_revoked s"
| "counter_of GeoBlocked s = deny_geo_blocked s"
| "counter_of NetworkTypeBlocked s = deny_network_type_blocked s"
| "counter_of OutsideAllowedHours s = deny_outside_hours s"
| "counter_of TagMismatch s = deny_tag_mismatch s"

definition all_reasons :: "ztna_reason list" where
  "all_reasons = [Allow, UnknownApp, DeviceNotEnrolled, DevicePostureStale, DevicePostureInsufficient,
     IdentityNotFound, IdentityAbsent, MfaStale, NotEntitled, TenantMismatch, Revoked, GeoBlocked,
     NetworkTypeBlocked, OutsideAllowedHours, TagMismatch]"

definition stats_balanced :: "ztna_stats \<Rightarrow> bool" where
  "stats_balanced s \<longleftrightarrow> requests_evaluated s = sum_list (map (\<lambda>r. counter_of r s) all_reasons)"

lemma counter_of_record_decision:
  "counter_of q (record_decision r s) = counter_of q s + (if q = r then 1 else 0)"
  by (cases r; cases q) (simp_all add: record_decision_def)

lemma record_decision_others:
  "requests_evaluated (record_decision r s) = requests_evaluated s + 1"
  "telemetry_drops (record_decision r s) = telemetry_drops s"
  by (cases r; simp add: record_decision_def)+

lemma counter_of_telemetry_drop [simp]:
  "counter_of q (record_telemetry_drop s) = counter_of q s"
  "requests_evaluated (record_telemetry_drop s) = requests_evaluated s"
  "telemetry_drops (record_telemetry_drop s) = telemetry_drops s + 1"
  by (cases q; simp add: record_telemetry_drop_def)+

lemma counter_of_bundle [simp]:
  "counter_of q (record_bundle_load s) = counter_of q s"
  "counter_of q (record_bundle_load_failure s) = counter_of q s"
  "requests_evaluated (record_bundle_load s) = requests_evaluated s"
  "requests_evaluated (record_bundle_load_failure s) = requests_evaluated s"
  by (cases q; simp add: record_bundle_load_def record_bundle_load_failure_def)+

lemma stats_balanced_decision: "stats_balanced s \<Longrightarrow> stats_balanced (record_decision r s)"
  by (cases r) (simp_all add: stats_balanced_def counter_of_record_decision record_decision_others all_reasons_def)

lemma stats_balanced_other [simp]:
  "stats_balanced (record_telemetry_drop s) = stats_balanced s"
  "stats_balanced (record_bundle_load s) = stats_balanced s"
  "stats_balanced (record_bundle_load_failure s) = stats_balanced s"
  by (simp_all add: stats_balanced_def)

text \<open>What one reported evaluation does to the counters and to the channel.\<close>

definition accounted ::
  "'c ztna_send \<Rightarrow> ztna_reason \<Rightarrow> ztna_event \<Rightarrow> 'c ztna_service \<Rightarrow> 'c ztna_service \<Rightarrow> bool" where
  "accounted try_send r ev svc svc' \<longleftrightarrow>
     (\<forall>q. counter_of q (svc_stats svc') = counter_of q (svc_stats svc) + (if q = r then 1 else 0))
     \<and> requests_evaluated (svc_stats svc') = requests_evaluated (svc_stats svc) + 1
     \<and> (case try_send (svc_telemetry svc) ev of
          Some c \<Rightarrow> svc_telemetry svc' = c \<and> telemetry_drops (svc_stats svc') = telemetry_drops (svc_stats svc)
        | None \<Rightarrow> svc_telemetry svc' = svc_telemetry svc
                  \<and> telemetry_drops (svc_stats svc') = telemetry_drops (svc_stats svc) + 1)
     \<and> svc' = svc\<lparr>svc_stats := svc_stats svc', svc_telemetry := svc_telemetry svc'\<rparr>"

lemma report_decision_accounted:
  "accounted try_send (reason d) (build_ztna_event dev app d v) svc (report_decision try_send Emit dev app d v svc)"
  by (simp add: accounted_def report_decision_def Let_def counter_of_record_decision record_decision_others
      split: option.splits)

lemma report_decision_quiet: "report_decision try_send Quiet dev app d v svc = svc"
  by (simp add: report_decision_def)

text \<open>
  Every access evaluation is accounted for exactly once, errors included: the counter of
  its reason and the request total go up by one and no other decision counter moves; one event that
  carries the device, the application, the outcome and that reason is offered to the channel, and a
  refused offer is counted as a drop. The silent re-evaluation changes nothing at all.
\<close>

theorem evaluation_accounted_once:
  "(\<exists>ev. accounted try_send (verdict_reason (fst (ztna_evaluate_detailed try_send req svc))) ev svc
            (snd (ztna_evaluate_detailed try_send req svc))
      \<and> ev_device_id ev = req_device_id req \<and> ev_app_id ev = req_app_id req
      \<and> ev_reason ev = reason_as_str (verdict_reason (fst (ztna_evaluate_detailed try_send req svc)))
      \<and> ev_decision ev = (if authorised svc req then ''allow'' else ''deny''))
   \<and> snd (evaluate_for_reeval_detailed try_send req svc) = svc"
proof -
  let ?r = "verdict svc req"
  let ?ev = "build_ztna_event (req_device_id req) (req_app_id req) (wire_decision ?r) (wire_verified ?r)"
  have "accounted try_send (verdict_reason ?r) ?ev svc (snd (evaluate_reported try_send req Emit svc))"
    using report_decision_accounted [of try_send "wire_decision ?r"]
    by (simp add: evaluate_reported_eq wire_decision_reason)
  moreover have "ev_reason ?ev = reason_as_str (verdict_reason ?r)"
    "ev_decision ?ev = (if authorised svc req then ''allow'' else ''deny'')"
    "ev_device_id ?ev = req_device_id req" "ev_app_id ?ev = req_app_id req"
    by (simp_all add: build_ztna_event_def wire_decision_reason wire_decision_allow verdict_allows_iff)
  ultimately show ?thesis
    by (auto simp: ztna_evaluate_detailed_def evaluate_for_reeval_detailed_def evaluate_reported_eq
        report_decision_quiet)
qed

section \<open>The service over time\<close>

text \<open>
  A step of the running service: an evaluation of either kind, a policy reload, a failed decode, or
  a change behind a trait object by its owner (the catalog, the device and identity tables, the
  revocation lists, the consumer of the channel).
\<close>

inductive ztna_step :: "'c ztna_send \<Rightarrow> 'c ztna_service \<Rightarrow> 'c ztna_service \<Rightarrow> bool" for try_send where
  eval: "ztna_step try_send svc (snd (evaluate_reported try_send req report svc))"
| reload: "ztna_step try_send svc (snd (reload_policy p svc))"
| decode_failure: "ztna_step try_send svc (service_record_bundle_load_failure svc)"
| providers: "ztna_step try_send svc
    (svc\<lparr>svc_apps := apps, svc_devices := devs, svc_identities := ids, svc_is_revoked := rd,
         svc_is_user_revoked := ru, svc_telemetry := tel\<rparr>)"

definition ztna_policy_valid :: "ztna_policy \<Rightarrow> bool" where
  "ztna_policy_valid p \<longleftrightarrow> 0 < mfa_max_age_ms p \<and> 0 < device_posture_max_age_ms p \<and> 0 < reeval_interval_ms p"

lemma validate_iff: "ztna_policy_validate p = Inr () \<longleftrightarrow> ztna_policy_valid p"
  by (simp add: ztna_policy_validate_def ztna_policy_valid_def word_neq_0_conv)

lemma validate_cases:
  "(ztna_policy_validate p = Inr () \<and> ztna_policy_valid p)
   \<or> (\<exists>m. ztna_policy_validate p = Inl (ErrInvalidPolicy m) \<and> \<not> ztna_policy_valid p)"
  by (auto simp: ztna_policy_validate_def ztna_policy_valid_def word_neq_0_conv)

definition service_inv :: "'c ztna_service \<Rightarrow> bool" where
  "service_inv svc \<longleftrightarrow> stats_balanced (svc_stats svc) \<and> ztna_policy_valid (svc_policy svc)"

lemma service_inv_report: "service_inv svc \<Longrightarrow> service_inv (report_decision try_send rep dev app d v svc)"
  by (simp add: service_inv_def report_decision_def Let_def stats_balanced_decision split: option.split)

lemma reload_policy_cases:
  "snd (reload_policy p svc) =
     (if ztna_policy_valid p
      then svc\<lparr>svc_policy := p, svc_stats := record_bundle_load (svc_stats svc)\<rparr>
      else svc\<lparr>svc_stats := record_bundle_load_failure (svc_stats svc)\<rparr>)"
  using validate_cases [of p] by (auto simp: reload_policy_def policy_try_replace_def)

lemma service_inv_step: "ztna_step try_send svc svc' \<Longrightarrow> service_inv svc \<Longrightarrow> service_inv svc'"
  by (induction rule: ztna_step.induct)
    (simp_all add: evaluate_reported_eq service_inv_report reload_policy_cases
      service_record_bundle_load_failure_def, simp_all add: service_inv_def)

lemma service_inv_builder: "service_inv (service_builder_new tel)"
  by (simp add: service_inv_def service_builder_new_def stats_balanced_def ztna_stats_default_def
      all_reasons_def ztna_policy_valid_def ztna_policy_default_def)

text \<open>
  In every reachable state of a service built with the defaults, whatever the owners of the
  providers do, the active policy has non-zero freshness budgets and a non-zero sweep interval, the
  request total is the sum of the decision counters (all of them modulo \<open>2 ^ 64\<close>), and a reload installs
  its candidate exactly when the candidate is valid and otherwise keeps the active policy.
\<close>

theorem reachable_ztna_service:
  assumes "(ztna_step try_send)\<^sup>*\<^sup>* (service_builder_new tel) svc"
  shows "ztna_policy_valid (svc_policy svc) \<and> stats_balanced (svc_stats svc)
    \<and> svc_policy (snd (reload_policy p svc)) = (if ztna_policy_valid p then p else svc_policy svc)
    \<and> (fst (reload_policy p svc) = Inr () \<longleftrightarrow> ztna_policy_valid p)"
proof -
  have "service_inv svc"
    using assms by (induction rule: rtranclp_induct) (auto intro: service_inv_builder service_inv_step)
  moreover have "fst (reload_policy p svc) = Inr () \<longleftrightarrow> ztna_policy_valid p"
    using validate_cases [of p] by (auto simp: reload_policy_def policy_try_replace_def)
  ultimately show ?thesis by (simp add: service_inv_def reload_policy_cases)
qed

definition full_channel :: "unit ztna_send" where
  "full_channel c ev = None"

theorem reachable_ztna_service_witness:
  "ztna_policy_valid (svc_policy (snd (evaluate_reported full_channel (access_request_new ''a'' ''d'' ''u'' 5) Emit
     (service_builder_new ()))))"
proof -
  let ?s0 = "service_builder_new ()"
  let ?s1 = "snd (evaluate_reported full_channel (access_request_new ''a'' ''d'' ''u'' 5) Emit ?s0)"
  have "ztna_step full_channel ?s0 ?s1" by (rule ztna_step.eval)
  then have "(ztna_step full_channel)\<^sup>*\<^sup>* ?s0 ?s1" by (rule r_into_rtranclp)
  then show ?thesis using reachable_ztna_service [of full_channel "()" ?s1] by blast
qed

section \<open>Concurrent updates of the identity table\<close>

datatype identity_call = Upsert user_identity | Remove string | Replace "user_identity list"

primrec identity_op :: "identity_call \<Rightarrow> (identity_table, bool) cell_op" where
  "identity_op (Upsert u) = identity_upsert u"
| "identity_op (Remove k) = identity_remove k"
| "identity_op (Replace us) = identity_replace us"

text \<open>Calls that leave the entry \<open>k\<close> at \<open>u\<close> when it is there.\<close>

definition leaves_entry :: "string \<Rightarrow> user_identity \<Rightarrow> identity_call \<Rightarrow> bool" where
  "leaves_entry k u c =
     (case c of Upsert v \<Rightarrow> usr_user_id v = k \<longrightarrow> v = u | Remove j \<Rightarrow> j \<noteq> k | Replace us \<Rightarrow> False)"

definition keeps_entry :: "string \<Rightarrow> user_identity \<Rightarrow> identity_table \<Rightarrow> identity_table \<Rightarrow> bool" where
  "keeps_entry k u m m' \<longleftrightarrow> (m k = Some u \<longrightarrow> m' k = Some u)"

lemma leaves_entry_grows:
  assumes "\<And>t. leaves_entry k u (calls t)"
  shows "growing_cell (keeps_entry k u) (\<lambda>t. identity_op (calls t))"
proof
  fix v t
  show "keeps_entry k u v (snd (apply_op (identity_op (calls t)) v))"
    using assms [of t]
    by (cases "calls t")
      (auto simp: keeps_entry_def leaves_entry_def identity_upsert_def identity_remove_def)
qed (auto simp: keeps_entry_def)

text \<open>
  Claim C28. Concurrent producers of the identity table lose no update: under every interleaving of
  \<open>upsert\<close>, \<open>remove\<close> and \<open>replace\<close> calls the table is that of a sequential order of the finished calls, in
  which every \<open>remove\<close> returned whether the subject was there; a subject whose \<open>upsert\<close> has finished is
  in the table when no other call concerns it; and every call can finish.
\<close>

theorem identity_updates_linearizable:
  assumes run: "cas_step\<^sup>*\<^sup>* (cell_init tbl (\<lambda>t. identity_op (calls t))) s"
  shows "legal (\<lambda>t. identity_op (calls t)) tbl (history s)
      \<and> cell s = replay (\<lambda>t. identity_op (calls t)) tbl (history s)
      \<and> distinct (map fst (history s))
      \<and> (\<forall>t r. threads s t = Done r \<longleftrightarrow> (t, r) \<in> set (history s))
      \<and> (\<forall>t r u. threads s t = Done r \<and> calls t = Upsert u
            \<and> (\<forall>t'. leaves_entry (usr_user_id u) u (calls t'))
          \<longrightarrow> identity_get (cell s) (usr_user_id u) = Some u)
      \<and> (\<forall>t. \<exists>s' r. cas_step\<^sup>*\<^sup>* s s' \<and> threads s' t = Done r)"
proof -
  let ?ops = "\<lambda>t. identity_op (calls t)"
  have lin: "linearized tbl ?ops s" using run by (rule cas_linearizable)
  have kept: "identity_get (cell s) (usr_user_id u) = Some u"
    if "threads s t = Done r" "calls t = Upsert u" "\<And>t'. leaves_entry (usr_user_id u) u (calls t')"
    for t r u
  proof -
    let ?k = "usr_user_id u"
    have "growing_cell (keeps_entry ?k u) ?ops" using that(3) by (rule leaves_entry_grows)
    then have "keeps_entry ?k u [?k \<mapsto> u] (replay ?ops tbl (history s))"
      by (rule growing_cell.result_bounds_replay [where t = t and r = r])
        (use linearizedD(3,4) [OF lin] that in \<open>simp_all add: keeps_entry_def identity_upsert_def\<close>)
    then show ?thesis using linearizedD(5) [OF lin] by (simp add: keeps_entry_def identity_get_def)
  qed
  have "distinct (map fst (history s))" using lin by (simp add: linearized_def)
  then show ?thesis
    using linearizedD(4,5) [OF lin] linearized_Done_iff [OF lin] kept solo_completes [OF lin] by blast
qed

theorem identity_updates_linearizable_witness:
  "identity_get (cell (finish 0 [''alice'' \<mapsto> alice] False
      (set_thread 0 (Loaded (\<lambda>tbl. Cas (tbl(''alice'' \<mapsto> alice)) False) Map.empty)
        (cell_init Map.empty (\<lambda>t. identity_op (if t = 0 then Upsert alice else Remove ''bob'')))))) ''alice''
    = Some alice"
proof -
  let ?calls = "\<lambda>t::nat. if t = 0 then Upsert alice else Remove ''bob''"
  let ?s0 = "cell_init Map.empty (\<lambda>t. identity_op (?calls t))"
  let ?f = "\<lambda>tbl. Cas (tbl(''alice'' \<mapsto> alice)) False"
  let ?s1 = "set_thread 0 (Loaded ?f Map.empty) ?s0"
  let ?s2 = "finish 0 [''alice'' \<mapsto> alice] False ?s1"
  have id: "usr_user_id alice = ''alice''" by (simp add: alice_def)
  have "cas_step ?s0 ?s1"
    using cas_step.load [of ?s0 0 ?f "[''alice'' \<mapsto> alice]" False]
    by (simp add: cell_init_def identity_upsert_def id)
  moreover have "cas_step ?s1 ?s2"
    by (rule cas_step.cas_ok [where f = ?f and v = Map.empty]) (simp_all add: set_thread_def cell_init_def)
  ultimately have "cas_step\<^sup>*\<^sup>* ?s0 ?s2" by simp
  moreover have "threads ?s2 0 = Done False" by (simp add: finish_def set_thread_def)
  moreover have "\<forall>t'. leaves_entry (usr_user_id alice) alice (?calls t')"
    by (simp add: leaves_entry_def id)
  ultimately show ?thesis
    using identity_updates_linearizable [of Map.empty ?calls ?s2] by (metis id)
qed

end
