(* ===== verification/Ztna_Session.thy ===== *)
theory Ztna_Session
  imports Ztna_Service "HOL-Library.List_Lexorder" "HOL-Library.Char_ord"
begin

unbundle bit_operations_syntax

text \<open>
  The store of active sessions of \<open>sng-ztna\<close> (\<open>session.rs\<close>): shards, each a map of grants with a
  device index, and the tracker that routes a session to its shard. The standard library's hasher
  is unspecified, so the hash of a session id is a parameter; so is the order in which a hash table
  enumerates its keys. An operation gives \<^const>\<open>None\<close> where the source would panic. The refinement to one
  flat map is proved at the end; the contract of that map is the locale \<open>grant_store\<close>.
\<close>

section \<open>Grants\<close>

record access_grant =
  gr_session_id :: string
  gr_tenant_id :: string
  gr_request :: access_request
  granted_at_ms :: u64
  last_eval_ms :: u64
  last_reason :: ztna_reason

definition access_grant_new :: "string \<Rightarrow> string \<Rightarrow> access_request \<Rightarrow> u64 \<Rightarrow> access_grant" where
  "access_grant_new sid tenant req at =
     \<lparr>gr_session_id = sid, gr_tenant_id = tenant, gr_request = req, granted_at_ms = at,
      last_eval_ms = at, last_reason = Allow\<rparr>"

definition gr_device_id :: "access_grant \<Rightarrow> string" where
  "gr_device_id g = req_device_id (gr_request g)"

definition gr_user_id :: "access_grant \<Rightarrow> string" where
  "gr_user_id g = req_user_id (gr_request g)"

definition gr_app_id :: "access_grant \<Rightarrow> string" where
  "gr_app_id g = req_app_id (gr_request g)"

definition reeval_request :: "access_grant \<Rightarrow> u64 \<Rightarrow> access_request" where
  "reeval_request g now = (gr_request g)\<lparr>req_now_ms := now\<rparr>"

section \<open>One shard\<close>

record shard =
  grants :: "string \<rightharpoonup> access_grant"
  by_device :: "string \<rightharpoonup> string set"

definition shard_default :: shard where
  "shard_default = \<lparr>grants = Map.empty, by_device = Map.empty\<rparr>"

datatype guarded_removal = Removed access_grant | Superseded | Absent

definition deindex :: "string \<Rightarrow> string \<Rightarrow> shard \<Rightarrow> shard" where
  "deindex dev sid s =
     (case by_device s dev of
        Some S \<Rightarrow>
          let S' = S - {sid}
          in s\<lparr>by_device := (if S' = {} then (by_device s)(dev := None) else (by_device s)(dev \<mapsto> S'))\<rparr>
      | None \<Rightarrow> s)"

definition shard_insert :: "access_grant \<Rightarrow> shard \<Rightarrow> shard" where
  "shard_insert g s =
     (let sid = gr_session_id g; dev = gr_device_id g; prev = grants s sid;
          s1 = s\<lparr>grants := (grants s)(sid \<mapsto> g)\<rparr>;
          s2 = (case prev of
                  Some p \<Rightarrow> if gr_device_id p \<noteq> dev then deindex (gr_device_id p) sid s1 else s1
                | None \<Rightarrow> s1);
          S = (case by_device s2 dev of Some S \<Rightarrow> S | None \<Rightarrow> {})
      in s2\<lparr>by_device := (by_device s2)(dev \<mapsto> insert sid S)\<rparr>)"

definition shard_remove :: "string \<Rightarrow> shard \<Rightarrow> access_grant option \<times> shard" where
  "shard_remove sid s =
     (case grants s sid of
        None \<Rightarrow> (None, s)
      | Some g \<Rightarrow> (Some g, deindex (gr_device_id g) sid (s\<lparr>grants := (grants s)(sid := None)\<rparr>)))"

definition shard_remove_if_unchanged :: "string \<Rightarrow> u64 \<Rightarrow> shard \<Rightarrow> guarded_removal \<times> shard" where
  "shard_remove_if_unchanged sid expected s =
     (case grants s sid of
        None \<Rightarrow> (Absent, s)
      | Some current \<Rightarrow>
          if granted_at_ms current \<noteq> expected then (Superseded, s)
          else (case shard_remove sid s of
                  (Some g, s') \<Rightarrow> (Removed g, s')
                | (None, s') \<Rightarrow> (Absent, s')))"

section \<open>The tracker\<close>

record session_tracker =
  shards :: "shard list"
  tracker_mask :: u64

definition default_shards :: u64 where
  "default_shards = 64"

function pow2_at_least :: "nat \<Rightarrow> nat \<Rightarrow> nat" where
  "pow2_at_least p n = (if n \<le> p \<or> p = 0 then p else pow2_at_least (2 * p) n)"
  by pat_completeness auto

termination
  by (relation "measure (\<lambda>(p, n). n - p)") auto

declare pow2_at_least.simps [simp del]

definition next_power_of_two :: "u64 \<Rightarrow> u64 option" where
  "next_power_of_two n =
     (let p = pow2_at_least 1 (unat n) in if p < 2 ^ 64 then Some (of_nat p) else None)"

definition with_shards :: "u64 \<Rightarrow> session_tracker option" where
  "with_shards requested =
     map_option (\<lambda>count. \<lparr>shards = replicate (unat count) shard_default, tracker_mask = count - 1\<rparr>)
       (next_power_of_two (max requested 1))"

definition tracker_new :: "session_tracker option" where
  "tracker_new = with_shards default_shards"

definition shard_count :: "session_tracker \<Rightarrow> nat" where
  "shard_count t = length (shards t)"

definition shard_index :: "(string \<Rightarrow> u64) \<Rightarrow> session_tracker \<Rightarrow> string \<Rightarrow> nat" where
  "shard_index hash t sid = unat (hash sid AND tracker_mask t)"

text \<open>Lock the shard of \<open>sid\<close> and run \<open>f\<close> on it; indexing out of range panics.\<close>

definition with_shard ::
  "(string \<Rightarrow> u64) \<Rightarrow> session_tracker \<Rightarrow> string \<Rightarrow> (shard \<Rightarrow> 'a \<times> shard) \<Rightarrow> ('a \<times> session_tracker) option" where
  "with_shard hash t sid f =
     (let idx = shard_index hash t sid
      in if idx < length (shards t)
         then let (r, s') = f (shards t ! idx) in Some (r, t\<lparr>shards := (shards t)[idx := s']\<rparr>)
         else None)"

definition tracker_record ::
  "(string \<Rightarrow> u64) \<Rightarrow> access_grant \<Rightarrow> session_tracker \<Rightarrow> (unit \<times> session_tracker) option" where
  "tracker_record hash g t = with_shard hash t (gr_session_id g) (\<lambda>s. ((), shard_insert g s))"

definition tracker_remove ::
  "(string \<Rightarrow> u64) \<Rightarrow> string \<Rightarrow> session_tracker \<Rightarrow> (access_grant option \<times> session_tracker) option" where
  "tracker_remove hash sid t = with_shard hash t sid (shard_remove sid)"

definition remove_if_unchanged ::
  "(string \<Rightarrow> u64) \<Rightarrow> string \<Rightarrow> u64 \<Rightarrow> session_tracker \<Rightarrow> (guarded_removal \<times> session_tracker) option" where
  "remove_if_unchanged hash sid expected t =
     with_shard hash t sid (shard_remove_if_unchanged sid expected)"

definition tracker_get ::
  "(string \<Rightarrow> u64) \<Rightarrow> string \<Rightarrow> session_tracker \<Rightarrow> (access_grant option \<times> session_tracker) option" where
  "tracker_get hash sid t = with_shard hash t sid (\<lambda>s. (grants s sid, s))"

definition tracker_contains ::
  "(string \<Rightarrow> u64) \<Rightarrow> string \<Rightarrow> session_tracker \<Rightarrow> (bool \<times> session_tracker) option" where
  "tracker_contains hash sid t = with_shard hash t sid (\<lambda>s. (grants s sid \<noteq> None, s))"

definition tracker_len :: "session_tracker \<Rightarrow> nat" where
  "tracker_len t = sum_list (map (\<lambda>s. card (dom (grants s))) (shards t))"

definition tracker_is_empty :: "session_tracker \<Rightarrow> bool" where
  "tracker_is_empty t = list_all (\<lambda>s. dom (grants s) = {}) (shards t)"

definition tenant_session_count :: "string \<Rightarrow> session_tracker \<Rightarrow> nat" where
  "tenant_session_count tenant t =
     sum_list (map (\<lambda>s. card {sid. \<exists>g. grants s sid = Some g \<and> gr_tenant_id g = tenant}) (shards t))"

definition shard_mark :: "string \<Rightarrow> u64 \<Rightarrow> ztna_reason \<Rightarrow> shard \<Rightarrow> bool \<times> shard" where
  "shard_mark sid now r s =
     (case grants s sid of
        Some g \<Rightarrow> (True, s\<lparr>grants := (grants s)(sid \<mapsto> g\<lparr>last_eval_ms := now, last_reason := r\<rparr>)\<rparr>)
      | None \<Rightarrow> (False, s))"

definition mark_evaluated ::
  "(string \<Rightarrow> u64) \<Rightarrow> string \<Rightarrow> u64 \<Rightarrow> ztna_reason \<Rightarrow> session_tracker \<Rightarrow> (bool \<times> session_tracker) option" where
  "mark_evaluated hash sid now r t = with_shard hash t sid (shard_mark sid now r)"

definition shard_grants :: "(string set \<Rightarrow> string list) \<Rightarrow> session_tracker \<Rightarrow> nat \<Rightarrow> access_grant list" where
  "shard_grants enum t idx =
     (if idx < length (shards t)
      then let s = shards t ! idx in List.map_filter (grants s) (enum (dom (grants s)))
      else [])"

definition sessions_for_device ::
  "(string set \<Rightarrow> string list) \<Rightarrow> session_tracker \<Rightarrow> string \<Rightarrow> access_grant list" where
  "sessions_for_device enum t dev =
     concat (map (\<lambda>s. case by_device s dev of
                        None \<Rightarrow> []
                      | Some sids \<Rightarrow> List.map_filter (grants s) (enum sids)) (shards t))"

section \<open>The device index stays in lockstep\<close>

definition device_sessions :: "(string \<rightharpoonup> access_grant) \<Rightarrow> string \<Rightarrow> string set" where
  "device_sessions m dev = {sid. \<exists>g. m sid = Some g \<and> gr_device_id g = dev}"

definition index_of :: "(string \<rightharpoonup> access_grant) \<Rightarrow> string \<rightharpoonup> string set" where
  "index_of m dev = (if device_sessions m dev = {} then None else Some (device_sessions m dev))"

definition shard_inv :: "shard \<Rightarrow> bool" where
  "shard_inv s \<longleftrightarrow>
     finite (dom (grants s)) \<and> (\<forall>sid g. grants s sid = Some g \<longrightarrow> gr_session_id g = sid)
     \<and> by_device s = index_of (grants s)"

lemma shard_invD:
  assumes "shard_inv s"
  shows "finite (dom (grants s))" "grants s sid = Some g \<Longrightarrow> gr_session_id g = sid"
    "by_device s = index_of (grants s)"
  using assms by (auto simp: shard_inv_def)

lemma shard_inv_default: "shard_inv shard_default"
  by (auto simp: shard_inv_def shard_default_def index_of_def device_sessions_def)

lemma grants_deindex [simp]: "grants (deindex dev sid s) = grants s"
  by (simp add: deindex_def Let_def split: option.split)

lemma deindex_index:
  assumes "m sid = Some g" "gr_device_id g = dev" "by_device s = index_of m"
  shows "by_device (deindex dev sid s) = index_of (m(sid := None))"
proof
  fix d
  have here: "sid \<in> device_sessions m dev" using assms(1,2) by (auto simp: device_sessions_def)
  then have idx: "by_device s dev = Some (device_sessions m dev)" using assms(3) by (auto simp: index_of_def)
  have upd: "device_sessions (m(sid := None)) x = device_sessions m x - {sid}" for x
    by (auto simp: device_sessions_def)
  have other: "sid \<notin> device_sessions m d" if "d \<noteq> dev"
    using that assms(1,2) by (auto simp: device_sessions_def)
  show "by_device (deindex dev sid s) d = index_of (m(sid := None)) d"
    using idx other assms(3) by (cases "d = dev") (simp_all add: deindex_def Let_def index_of_def upd)
qed

lemma index_insert:
  assumes "m sid = None \<or> (\<exists>p. m sid = Some p \<and> gr_device_id p = gr_device_id g)"
  shows "(index_of m)(gr_device_id g \<mapsto>
           insert sid (case index_of m (gr_device_id g) of Some S \<Rightarrow> S | None \<Rightarrow> {}))
         = index_of (m(sid \<mapsto> g))"
proof
  fix d
  have "device_sessions (m(sid \<mapsto> g)) d =
      (if d = gr_device_id g then insert sid (device_sessions m d) else device_sessions m d)"
    using assms by (auto simp: device_sessions_def)
  then show "((index_of m)(gr_device_id g \<mapsto>
           insert sid (case index_of m (gr_device_id g) of Some S \<Rightarrow> S | None \<Rightarrow> {}))) d
         = index_of (m(sid \<mapsto> g)) d"
    by (simp add: index_of_def)
qed

lemma shard_insert_refines:
  assumes "shard_inv s"
  shows "shard_inv (shard_insert g s)" "grants (shard_insert g s) = (grants s)(gr_session_id g \<mapsto> g)"
proof -
  let ?sid = "gr_session_id g" and ?dev = "gr_device_id g" and ?m = "grants s"
  let ?s1 = "s\<lparr>grants := ?m(?sid \<mapsto> g)\<rparr>"
  define s2 where "s2 = (case ?m ?sid of
      Some p \<Rightarrow> if gr_device_id p \<noteq> ?dev then deindex (gr_device_id p) ?sid ?s1 else ?s1 | None \<Rightarrow> ?s1)"
  have ins: "shard_insert g s = s2\<lparr>by_device := (by_device s2)(?dev \<mapsto>
      insert ?sid (case by_device s2 ?dev of Some S \<Rightarrow> S | None \<Rightarrow> {}))\<rparr>"
    by (simp add: shard_insert_def s2_def Let_def)
  have g2: "grants s2 = ?m(?sid \<mapsto> g)" by (simp add: s2_def split: option.split)
  show gr: "grants (shard_insert g s) = ?m(?sid \<mapsto> g)" by (simp add: ins g2)
  have s1: "by_device ?s1 = index_of ?m" using shard_invD(3) [OF assms] by simp
  obtain m' where m': "by_device s2 = index_of m'" "m'(?sid \<mapsto> g) = ?m(?sid \<mapsto> g)"
    "m' ?sid = None \<or> (\<exists>p. m' ?sid = Some p \<and> gr_device_id p = ?dev)"
  proof (cases "?m ?sid")
    case None
    then show ?thesis using that [of ?m] s1 by (simp add: s2_def)
  next
    case (Some p)
    show ?thesis
    proof (cases "gr_device_id p = ?dev")
      case True
      then show ?thesis using that [of ?m] s1 Some by (simp add: s2_def)
    next
      case False
      then have "by_device s2 = index_of (?m(?sid := None))"
        using deindex_index [of ?m ?sid p "gr_device_id p" ?s1] Some s1 by (simp add: s2_def)
      then show ?thesis by (rule that) simp_all
    qed
  qed
  have "by_device (shard_insert g s) = index_of (m'(?sid \<mapsto> g))"
    unfolding ins using index_insert [of m' ?sid g] m'(3) by (simp add: m'(1))
  then show "shard_inv (shard_insert g s)"
    using shard_invD [OF assms] by (simp add: shard_inv_def gr m'(2))
qed

lemma shard_inv_removed:
  assumes "shard_inv s" "grants s sid = Some g"
  shows "shard_inv (deindex (gr_device_id g) sid (s\<lparr>grants := (grants s)(sid := None)\<rparr>))"
proof -
  let ?s1 = "s\<lparr>grants := (grants s)(sid := None)\<rparr>"
  have "by_device ?s1 = index_of (grants s)" using shard_invD(3) [OF assms(1)] by simp
  then have "by_device (deindex (gr_device_id g) sid ?s1) = index_of ((grants s)(sid := None))"
    using deindex_index [of "grants s" sid g "gr_device_id g" ?s1] assms(2) by simp
  moreover have "finite (dom (grants s))" "\<And>k h. grants s k = Some h \<Longrightarrow> gr_session_id h = k"
    using shard_invD [OF assms(1)] by blast+
  ultimately show ?thesis by (simp add: shard_inv_def)
qed

lemma shard_remove_refines:
  assumes "shard_inv s"
  shows "shard_inv (snd (shard_remove sid s))" "fst (shard_remove sid s) = grants s sid"
    "grants (snd (shard_remove sid s)) = (grants s)(sid := None)"
  using assms shard_inv_removed [OF assms]
  by (auto simp: shard_remove_def fun_upd_idem split: option.split)

definition guarded_result :: "access_grant option \<Rightarrow> u64 \<Rightarrow> guarded_removal" where
  "guarded_result stored expected =
     (case stored of None \<Rightarrow> Absent
      | Some g \<Rightarrow> if granted_at_ms g = expected then Removed g else Superseded)"

definition guarded_rest :: "access_grant option \<Rightarrow> u64 \<Rightarrow> access_grant option" where
  "guarded_rest stored expected =
     (case stored of None \<Rightarrow> None | Some g \<Rightarrow> if granted_at_ms g = expected then None else Some g)"

lemma shard_guarded_refines:
  assumes "shard_inv s"
  shows "shard_inv (snd (shard_remove_if_unchanged sid e s))"
    "fst (shard_remove_if_unchanged sid e s) = guarded_result (grants s sid) e"
    "grants (snd (shard_remove_if_unchanged sid e s)) = (grants s)(sid := guarded_rest (grants s sid) e)"
  using assms shard_inv_removed [OF assms]
  by (auto simp: shard_remove_if_unchanged_def shard_remove_def guarded_result_def guarded_rest_def
      fun_upd_idem split: option.split)

lemma shard_mark_refines:
  assumes "shard_inv s"
  shows "shard_inv (snd (shard_mark sid now r s))" "fst (shard_mark sid now r s) \<longleftrightarrow> grants s sid \<noteq> None"
    "grants (snd (shard_mark sid now r s))
       = (grants s)(sid := map_option (\<lambda>g. g\<lparr>last_eval_ms := now, last_reason := r\<rparr>) (grants s sid))"
proof -
  show gr: "grants (snd (shard_mark sid now r s))
       = (grants s)(sid := map_option (\<lambda>g. g\<lparr>last_eval_ms := now, last_reason := r\<rparr>) (grants s sid))"
    by (auto simp: shard_mark_def fun_upd_idem split: option.split)
  show "fst (shard_mark sid now r s) \<longleftrightarrow> grants s sid \<noteq> None"
    by (simp add: shard_mark_def split: option.split)
  have "device_sessions (grants (snd (shard_mark sid now r s))) = device_sessions (grants s)"
    unfolding gr by (rule ext) (auto simp: device_sessions_def gr_device_id_def)
  then have "index_of (grants (snd (shard_mark sid now r s))) = index_of (grants s)"
    by (simp add: index_of_def fun_eq_iff)
  moreover have "by_device (snd (shard_mark sid now r s)) = by_device s"
    by (simp add: shard_mark_def split: option.split)
  moreover have "dom (grants (snd (shard_mark sid now r s))) = dom (grants s)"
    unfolding gr by (auto split: if_splits)
  moreover have "gr_session_id g = k" if "grants (snd (shard_mark sid now r s)) k = Some g" for k g
    using that shard_invD(2) [OF assms] unfolding gr by (auto split: if_splits)
  ultimately show "shard_inv (snd (shard_mark sid now r s))"
    using shard_invD [OF assms] by (simp add: shard_inv_def)
qed

section \<open>The tracker as one map\<close>

definition tracker_inv :: "(string \<Rightarrow> u64) \<Rightarrow> session_tracker \<Rightarrow> bool" where
  "tracker_inv hash t \<longleftrightarrow>
     unat (tracker_mask t) < length (shards t)
     \<and> (\<forall>i < length (shards t). shard_inv (shards t ! i)
          \<and> (\<forall>sid. grants (shards t ! i) sid \<noteq> None \<longrightarrow> shard_index hash t sid = i))"

definition sessions :: "(string \<Rightarrow> u64) \<Rightarrow> session_tracker \<Rightarrow> (string \<rightharpoonup> access_grant)" where
  "sessions hash t sid = grants (shards t ! shard_index hash t sid) sid"

lemma shard_index_less: "tracker_inv hash t \<Longrightarrow> shard_index hash t sid < length (shards t)"
proof -
  assume "tracker_inv hash t"
  moreover have "unat (hash sid AND tracker_mask t) \<le> unat (tracker_mask t)"
    by (simp add: word_and_le1 flip: word_le_nat_alt)
  ultimately show ?thesis by (simp add: tracker_inv_def shard_index_def)
qed

lemma tracker_invD:
  assumes "tracker_inv hash t" "i < length (shards t)"
  shows "shard_inv (shards t ! i)" "grants (shards t ! i) sid = Some g \<Longrightarrow> shard_index hash t sid = i"
  using assms by (auto simp: tracker_inv_def)

lemma tracker_invI:
  assumes "unat (tracker_mask t) < length (shards t)"
    "\<And>i. i < length (shards t) \<Longrightarrow> shard_inv (shards t ! i)"
    "\<And>i sid g. i < length (shards t) \<Longrightarrow> grants (shards t ! i) sid = Some g \<Longrightarrow> shard_index hash t sid = i"
  shows "tracker_inv hash t"
  using assms unfolding tracker_inv_def by blast

lemma shard_grants_iff:
  assumes "tracker_inv hash t" "i < length (shards t)"
  shows "grants (shards t ! i) sid = Some g \<longleftrightarrow> sessions hash t sid = Some g \<and> shard_index hash t sid = i"
  using tracker_invD(2) [OF assms] by (auto simp: sessions_def)

lemma shard_index_shards [simp]: "shard_index hash (t\<lparr>shards := xs\<rparr>) = shard_index hash t"
  by (rule ext) (simp add: shard_index_def)

lemma with_shard_refines:
  assumes inv: "tracker_inv hash t"
    and f: "\<And>s. shard_inv s \<Longrightarrow> shard_inv (snd (f s))"
    "\<And>s. shard_inv s \<Longrightarrow> grants (snd (f s)) = (grants s)(sid := u (grants s sid))"
    "\<And>s. shard_inv s \<Longrightarrow> fst (f s) = r (grants s sid)"
  shows "\<exists>t'. with_shard hash t sid f = Some (r (sessions hash t sid), t')
    \<and> tracker_inv hash t' \<and> sessions hash t' = (sessions hash t)(sid := u (sessions hash t sid))"
proof -
  let ?i = "shard_index hash t sid"
  let ?s = "shards t ! ?i"
  let ?t' = "t\<lparr>shards := (shards t)[?i := snd (f ?s)]\<rparr>"
  have i: "?i < length (shards t)" using inv by (rule shard_index_less)
  have s: "shard_inv ?s" using inv i by (rule tracker_invD)
  have "with_shard hash t sid f = Some (r (sessions hash t sid), ?t')"
    using i f(3) [OF s] by (simp add: with_shard_def Let_def split_beta sessions_def)
  moreover have "tracker_inv hash ?t'"
  proof (rule tracker_invI)
    show "unat (tracker_mask ?t') < length (shards ?t')" using inv by (simp add: tracker_inv_def)
  next
    fix j assume "j < length (shards ?t')"
    then show "shard_inv (shards ?t' ! j)"
      using i f(1) [OF s] tracker_invD(1) [OF inv, of j] by (cases "j = ?i") simp_all
  next
    fix j k g assume j: "j < length (shards ?t')" and g: "grants (shards ?t' ! j) k = Some g"
    show "shard_index hash ?t' k = j"
    proof (cases "j = ?i \<and> k = sid")
      case False
      then have "grants (shards t ! j) k = Some g"
        using j g i f(2) [OF s] by (cases "j = ?i") simp_all
      then show ?thesis using tracker_invD(2) [OF inv, of j k g] j by simp
    qed simp
  qed
  moreover have "sessions hash ?t' k = ((sessions hash t)(sid := u (sessions hash t sid))) k" for k
  proof (cases "shard_index hash t k = ?i")
    case True
    then show ?thesis using i f(2) [OF s] by (simp add: sessions_def fun_upd_def)
  next
    case False
    then show ?thesis by (auto simp: sessions_def)
  qed
  ultimately show ?thesis by blast
qed

lemma tracker_record_refines:
  assumes "tracker_inv hash t"
  shows "\<exists>t'. tracker_record hash g t = Some ((), t') \<and> tracker_inv hash t'
    \<and> sessions hash t' = (sessions hash t)(gr_session_id g \<mapsto> g)"
  unfolding tracker_record_def
  using with_shard_refines [OF assms, where f = "\<lambda>s. ((), shard_insert g s)" and u = "\<lambda>_. Some g"
      and r = "\<lambda>_. ()" and sid = "gr_session_id g"]
  by (simp add: shard_insert_refines)

lemma tracker_remove_refines:
  assumes "tracker_inv hash t"
  shows "\<exists>t'. tracker_remove hash sid t = Some (sessions hash t sid, t') \<and> tracker_inv hash t'
    \<and> sessions hash t' = (sessions hash t)(sid := None)"
  unfolding tracker_remove_def
  using with_shard_refines [OF assms, where f = "shard_remove sid" and u = "\<lambda>_. None" and r = "\<lambda>v. v"]
  by (simp add: shard_remove_refines)

lemma remove_if_unchanged_refines:
  assumes "tracker_inv hash t"
  shows "\<exists>t'. remove_if_unchanged hash sid e t = Some (guarded_result (sessions hash t sid) e, t')
    \<and> tracker_inv hash t' \<and> sessions hash t' = (sessions hash t)(sid := guarded_rest (sessions hash t sid) e)"
  unfolding remove_if_unchanged_def
  using with_shard_refines [OF assms, where f = "shard_remove_if_unchanged sid e"
      and u = "\<lambda>v. guarded_rest v e" and r = "\<lambda>v. guarded_result v e"]
  by (simp add: shard_guarded_refines)

lemma mark_evaluated_refines:
  assumes "tracker_inv hash t"
  shows "\<exists>t'. mark_evaluated hash sid now r t = Some (sessions hash t sid \<noteq> None, t') \<and> tracker_inv hash t'
    \<and> sessions hash t' = (sessions hash t)
        (sid := map_option (\<lambda>g. g\<lparr>last_eval_ms := now, last_reason := r\<rparr>) (sessions hash t sid))"
  unfolding mark_evaluated_def
  using with_shard_refines [OF assms, where f = "shard_mark sid now r" and r = "\<lambda>v. v \<noteq> None"
      and u = "map_option (\<lambda>g. g\<lparr>last_eval_ms := now, last_reason := r\<rparr>)"]
  by (simp add: shard_mark_refines)

lemma tracker_reads_refine:
  assumes "tracker_inv hash t"
  shows "tracker_get hash sid t = Some (sessions hash t sid, t)"
    "tracker_contains hash sid t = Some (sessions hash t sid \<noteq> None, t)"
  using shard_index_less [OF assms]
  by (simp_all add: tracker_get_def tracker_contains_def with_shard_def Let_def sessions_def)

subsection \<open>Enumeration\<close>

text \<open>All that is relied on of a hash table's order: every key once.\<close>

definition device_grants :: "(string set \<Rightarrow> string list) \<Rightarrow> string \<Rightarrow> shard \<Rightarrow> access_grant list" where
  "device_grants enum dev s =
     (case by_device s dev of None \<Rightarrow> [] | Some sids \<Rightarrow> List.map_filter (grants s) (enum sids))"

lemma distinct_concat_indexed:
  assumes "\<And>i. i < n \<Longrightarrow> distinct (map key (F i))" "\<And>i x. i < n \<Longrightarrow> x \<in> set (F i) \<Longrightarrow> idx (key x) = i"
  shows "distinct (map key (concat (map F [0..<n])))"
  using assms
proof (induction n)
  case (Suc n)
  let ?A = "concat (map F [0..<n])"
  have "key x \<noteq> key y" if x: "x \<in> set ?A" and y: "y \<in> set (F n)" for x y
  proof
    obtain i where "i < n" "x \<in> set (F i)" using x by auto
    moreover assume "key x = key y"
    ultimately show False using Suc.prems(2) [of i x] Suc.prems(2) [of n y] y by simp
  qed
  then have "set (map key ?A) \<inter> set (map key (F n)) = {}" unfolding set_map by blast
  moreover have "distinct (map key ?A)" using Suc.prems by (intro Suc.IH) simp_all
  moreover have "distinct (map key (F n))" by (rule Suc.prems(1)) simp
  moreover have "map key (concat (map F [0..<Suc n])) = map key ?A @ map key (F n)" by simp
  ultimately show ?case by (simp only: distinct_append)
qed simp

lemma map_by_index: "map f xs = map (\<lambda>i. f (xs ! i)) [0..<length xs]"
  by (rule nth_equalityI) simp_all

locale hash_order =
  fixes enum :: "string set \<Rightarrow> string list"
  assumes enumerates: "finite K \<Longrightarrow> set (enum K) = K \<and> distinct (enum K)"
begin

lemma map_filter_enum:
  assumes "finite K" "\<And>k. k \<in> K \<Longrightarrow> \<exists>g. m k = Some g \<and> gr_session_id g = k"
  shows "set (List.map_filter m (enum K)) = {g. \<exists>k\<in>K. m k = Some g}"
    "distinct (map gr_session_id (List.map_filter m (enum K)))"
proof -
  have e: "set (enum K) = K" "distinct (enum K)" using enumerates [OF assms(1)] by auto
  then show "set (List.map_filter m (enum K)) = {g. \<exists>k\<in>K. m k = Some g}"
    by (auto simp: List.map_filter_def image_iff) force
  have "map gr_session_id (List.map_filter m ks) = ks" if "set ks \<subseteq> K" for ks
    using that assms(2) by (induction ks) (force simp: List.map_filter_def)+
  then show "distinct (map gr_session_id (List.map_filter m (enum K)))"
    using e by simp
qed

lemma shard_grants_refines:
  assumes inv: "tracker_inv hash t" and i: "i < length (shards t)"
  shows "set (shard_grants enum t i) = {g. sessions hash t (gr_session_id g) = Some g
      \<and> shard_index hash t (gr_session_id g) = i}"
    "distinct (map gr_session_id (shard_grants enum t i))"
proof -
  let ?m = "grants (shards t ! i)"
  have s: "shard_inv (shards t ! i)" using tracker_invD(1) [OF assms] .
  have key: "\<exists>g. ?m k = Some g \<and> gr_session_id g = k" if "k \<in> dom ?m" for k
    using that shard_invD(2) [OF s] by blast
  have "set (shard_grants enum t i) = {g. \<exists>k\<in>dom ?m. ?m k = Some g}
      \<and> distinct (map gr_session_id (shard_grants enum t i))"
    using map_filter_enum [OF shard_invD(1) [OF s] key] i by (simp add: shard_grants_def Let_def)
  moreover have "(\<exists>k\<in>dom ?m. ?m k = Some g) \<longleftrightarrow>
      sessions hash t (gr_session_id g) = Some g \<and> shard_index hash t (gr_session_id g) = i" for g
    using shard_grants_iff [OF assms] shard_invD(2) [OF s] by blast
  ultimately show "set (shard_grants enum t i) = {g. sessions hash t (gr_session_id g) = Some g
      \<and> shard_index hash t (gr_session_id g) = i}"
    "distinct (map gr_session_id (shard_grants enum t i))" by auto
qed

lemma device_grants_refines:
  assumes inv: "tracker_inv hash t" and i: "i < length (shards t)"
  shows "set (device_grants enum dev (shards t ! i)) = {g. sessions hash t (gr_session_id g) = Some g
      \<and> shard_index hash t (gr_session_id g) = i \<and> gr_device_id g = dev}"
    "distinct (map gr_session_id (device_grants enum dev (shards t ! i)))"
proof -
  let ?m = "grants (shards t ! i)"
  let ?K = "device_sessions ?m dev"
  have s: "shard_inv (shards t ! i)" using tracker_invD(1) [OF assms] .
  have "finite ?K"
    by (rule finite_subset [OF _ shard_invD(1) [OF s]]) (auto simp: device_sessions_def)
  moreover have key: "\<exists>g. ?m k = Some g \<and> gr_session_id g = k" if "k \<in> ?K" for k
    using that shard_invD(2) [OF s] by (auto simp: device_sessions_def)
  ultimately have f: "set (List.map_filter ?m (enum ?K)) = {g. \<exists>k\<in>?K. ?m k = Some g}"
    "distinct (map gr_session_id (List.map_filter ?m (enum ?K)))"
    using map_filter_enum [of ?K ?m] by blast+
  have d: "device_grants enum dev (shards t ! i) = (if ?K = {} then [] else List.map_filter ?m (enum ?K))"
    using shard_invD(3) [OF s] by (simp add: device_grants_def index_of_def)
  have "set (device_grants enum dev (shards t ! i)) = {g. \<exists>k\<in>?K. ?m k = Some g}"
    unfolding d using f(1) by (cases "?K = {}") simp_all
  moreover have "(\<exists>k\<in>?K. ?m k = Some g) \<longleftrightarrow> ?m (gr_session_id g) = Some g \<and> gr_device_id g = dev" for g
  proof
    assume "\<exists>k\<in>?K. ?m k = Some g"
    then obtain k where k: "k \<in> ?K" "?m k = Some g" by blast
    have "gr_session_id g = k" by (rule shard_invD(2) [OF s k(2)])
    then show "?m (gr_session_id g) = Some g \<and> gr_device_id g = dev" using k by (simp add: device_sessions_def)
  next
    assume g: "?m (gr_session_id g) = Some g \<and> gr_device_id g = dev"
    then have "gr_session_id g \<in> ?K" by (simp add: device_sessions_def)
    then show "\<exists>k\<in>?K. ?m k = Some g" using g by (intro bexI) simp_all
  qed
  ultimately show "set (device_grants enum dev (shards t ! i)) = {g. sessions hash t (gr_session_id g) = Some g
      \<and> shard_index hash t (gr_session_id g) = i \<and> gr_device_id g = dev}"
    unfolding shard_grants_iff [OF assms] by blast
  show "distinct (map gr_session_id (device_grants enum dev (shards t ! i)))"
    using f(2) by (simp add: d)
qed

lemma sessions_for_device_refines:
  assumes inv: "tracker_inv hash t"
  shows "set (sessions_for_device enum t dev)
      = {g. sessions hash t (gr_session_id g) = Some g \<and> gr_device_id g = dev}"
    "distinct (map gr_session_id (sessions_for_device enum t dev))"
proof -
  have eq: "sessions_for_device enum t dev
      = concat (map (\<lambda>i. device_grants enum dev (shards t ! i)) [0..<length (shards t)])"
    unfolding sessions_for_device_def device_grants_def by (subst map_by_index) (rule refl)
  show "set (sessions_for_device enum t dev)
      = {g. sessions hash t (gr_session_id g) = Some g \<and> gr_device_id g = dev}"
    unfolding eq using device_grants_refines(1) [OF inv] shard_index_less [OF inv] by auto
  show "distinct (map gr_session_id (sessions_for_device enum t dev))"
    unfolding eq
    by (rule distinct_concat_indexed [where idx = "shard_index hash t"])
      (use device_grants_refines [OF inv] in auto)
qed

end

definition sorted_keys :: "string set \<Rightarrow> string list" where
  "sorted_keys K = sorted_list_of_set K"

interpretation sorted_hash: hash_order sorted_keys
  by unfold_locales (simp add: sorted_keys_def)

subsection \<open>Counting\<close>

lemma sum_shards:
  assumes inv: "tracker_inv hash t"
  shows "sum_list (map (\<lambda>s. card {sid. \<exists>g. grants s sid = Some g \<and> P g}) (shards t))
       = card {sid. \<exists>g. sessions hash t sid = Some g \<and> P g}"
proof -
  let ?n = "length (shards t)"
  let ?A = "\<lambda>i. {sid. \<exists>g. grants (shards t ! i) sid = Some g \<and> P g}"
  have fin: "finite (?A i)" if "i < ?n" for i
    by (rule finite_subset [OF _ shard_invD(1) [OF tracker_invD(1) [OF inv that]]]) auto
  have disj: "?A i \<inter> ?A j = {}" if ij: "i < ?n" "j < ?n" "i \<noteq> j" for i j
    unfolding shard_grants_iff [OF inv ij(1)] shard_grants_iff [OF inv ij(2)] using ij(3) by auto
  have "sum_list (map (\<lambda>s. card {sid. \<exists>g. grants s sid = Some g \<and> P g}) (shards t))
      = (\<Sum>i\<in>{0..<?n}. card (?A i))"
    by (simp add: sum_list_sum_nth)
  also have "\<dots> = card (\<Union>i\<in>{0..<?n}. ?A i)"
    by (rule card_UN_disjoint [symmetric]) (use fin disj in auto)
  also have "(\<Union>i\<in>{0..<?n}. ?A i) = {sid. \<exists>g. sessions hash t sid = Some g \<and> P g}"
  proof (rule set_eqI)
    fix sid
    show "sid \<in> (\<Union>i\<in>{0..<?n}. ?A i) \<longleftrightarrow> sid \<in> {sid. \<exists>g. sessions hash t sid = Some g \<and> P g}"
      using shard_index_less [OF inv, of sid] shard_grants_iff [OF inv] by auto
  qed
  finally show ?thesis .
qed

lemma finite_sessions: assumes "tracker_inv hash t" shows "finite (dom (sessions hash t))"
proof -
  have "dom (sessions hash t) \<subseteq> (\<Union>i<length (shards t). dom (grants (shards t ! i)))"
    using shard_index_less [OF assms] by (force simp: sessions_def)
  moreover have "finite (\<Union>i<length (shards t). dom (grants (shards t ! i)))"
    using shard_invD(1) [OF tracker_invD(1) [OF assms]] by auto
  ultimately show ?thesis by (rule finite_subset)
qed

lemma tracker_counts_refine:
  assumes "tracker_inv hash t"
  shows "tracker_len t = card (dom (sessions hash t))"
    "tracker_is_empty t \<longleftrightarrow> sessions hash t = Map.empty"
    "tenant_session_count tenant t = card {sid. \<exists>g. sessions hash t sid = Some g \<and> gr_tenant_id g = tenant}"
proof -
  show len: "tracker_len t = card (dom (sessions hash t))"
    using sum_shards [OF assms, of "\<lambda>_. True"] by (simp add: tracker_len_def dom_def)
  have "dom (grants s) = {} \<longleftrightarrow> card (dom (grants s)) = 0" if "s \<in> set (shards t)" for s
    using that shard_invD(1) [OF tracker_invD(1) [OF assms]] by (metis card_eq_0_iff in_set_conv_nth)
  then have "tracker_is_empty t \<longleftrightarrow> tracker_len t = 0"
    unfolding tracker_is_empty_def tracker_len_def list_all_iff by simp
  then show "tracker_is_empty t \<longleftrightarrow> sessions hash t = Map.empty"
    by (simp add: len finite_sessions [OF assms])
  show "tenant_session_count tenant t = card {sid. \<exists>g. sessions hash t sid = Some g \<and> gr_tenant_id g = tenant}"
    using sum_shards [OF assms] by (simp add: tenant_session_count_def)
qed

subsection \<open>Construction\<close>

lemma pow2_at_least_correct:
  assumes "0 < p" "p = 2 ^ a"
  shows "\<exists>b. pow2_at_least p n = 2 ^ b \<and> n \<le> pow2_at_least p n \<and> a \<le> b
    \<and> (pow2_at_least p n = p \<or> pow2_at_least p n < 2 * n)"
  using assms
proof (induction p n arbitrary: a rule: pow2_at_least.induct)
  case (1 p n)
  show ?case
  proof (cases "n \<le> p \<or> p = 0")
    case True
    then have "pow2_at_least p n = p" by (simp add: pow2_at_least.simps [of p n])
    then show ?thesis using 1(2,3) True by auto
  next
    case False
    then obtain b where "pow2_at_least (2 * p) n = 2 ^ b" "n \<le> pow2_at_least (2 * p) n" "Suc a \<le> b"
      "pow2_at_least (2 * p) n = 2 * p \<or> pow2_at_least (2 * p) n < 2 * n"
      using "1.IH" [OF False, of "Suc a"] 1(2,3) by auto
    then show ?thesis using False by (auto simp: pow2_at_least.simps [of p n])
  qed
qed

lemma with_shards_refines:
  assumes "unat n \<le> 2 ^ 62"
  shows "\<exists>t. with_shards n = Some t \<and> tracker_inv hash t \<and> sessions hash t = Map.empty
    \<and> (\<exists>b. shard_count t = 2 ^ b) \<and> unat n \<le> shard_count t"
proof -
  let ?n = "max n 1"
  define p where "p = pow2_at_least 1 (unat ?n)"
  obtain b where b: "p = 2 ^ b" "unat ?n \<le> p" "p = 1 \<or> p < 2 * unat ?n"
    using pow2_at_least_correct [of 1 0 "unat ?n"] by (metis p_def power_0 zero_less_one)
  have n: "unat ?n \<le> 2 ^ 62" "unat n \<le> unat ?n"
    using assms by (auto simp: max_def word_le_nat_alt)
  then have p: "0 < p" "p < 2 ^ 64" using b(1,3) by auto
  then have u: "unat (of_nat p :: u64) = p" by (simp add: unat_of_nat_less)
  let ?t = "\<lparr>shards = replicate p shard_default, tracker_mask = of_nat p - 1\<rparr>"
  have "(1 :: u64) \<le> of_nat p" using p u by (simp add: word_le_nat_alt)
  then have m: "unat (of_nat p - 1 :: u64) = p - 1" by (simp add: unat_sub u)
  have t: "with_shards n = Some ?t" 
    unfolding with_shards_def next_power_of_two_def p_def [symmetric] Let_def using p by (simp add: u)
  have inv: "tracker_inv hash ?t"
    by (rule tracker_invI) (use p m in \<open>auto simp: shard_inv_default, simp add: shard_default_def\<close>)
  have "sessions hash ?t = Map.empty"
    using shard_index_less [OF inv] by (auto simp: sessions_def shard_default_def)
  then show ?thesis using t inv b n by (auto simp: shard_count_def)
qed

section \<open>The contract of a grant store\<close>

text \<open>
  What the re-evaluation of sessions relies on: a map from session ids to grants whose operations
  never fail. The tracker provides it for every hash function.
\<close>

locale grant_store =
  fixes inv :: "'s \<Rightarrow> bool" and lookup :: "'s \<Rightarrow> string \<rightharpoonup> access_grant"
    and rec :: "access_grant \<Rightarrow> 's \<Rightarrow> (unit \<times> 's) option"
    and rem :: "string \<Rightarrow> 's \<Rightarrow> (access_grant option \<times> 's) option"
    and guarded :: "string \<Rightarrow> u64 \<Rightarrow> 's \<Rightarrow> (guarded_removal \<times> 's) option"
    and mark :: "string \<Rightarrow> u64 \<Rightarrow> ztna_reason \<Rightarrow> 's \<Rightarrow> (bool \<times> 's) option"
  assumes rec_law: "inv t \<Longrightarrow> \<exists>t'. rec g t = Some ((), t') \<and> inv t' \<and> lookup t' = (lookup t)(gr_session_id g \<mapsto> g)"
    and rem_law: "inv t \<Longrightarrow> \<exists>t'. rem sid t = Some (lookup t sid, t') \<and> inv t' \<and> lookup t' = (lookup t)(sid := None)"
    and guarded_law: "inv t \<Longrightarrow> \<exists>t'. guarded sid e t = Some (guarded_result (lookup t sid) e, t') \<and> inv t'
          \<and> lookup t' = (lookup t)(sid := guarded_rest (lookup t sid) e)"
    and mark_law: "inv t \<Longrightarrow> \<exists>t'. mark sid now r t = Some (lookup t sid \<noteq> None, t') \<and> inv t'
          \<and> lookup t' = (lookup t)(sid := map_option (\<lambda>g. g\<lparr>last_eval_ms := now, last_reason := r\<rparr>) (lookup t sid))"
    and keyed: "inv t \<Longrightarrow> lookup t sid = Some g \<Longrightarrow> gr_session_id g = sid"
begin

lemma guarded_keeps_newer:
  assumes "inv t" "lookup t sid = Some g" "granted_at_ms g \<noteq> e"
  shows "\<exists>t'. guarded sid e t = Some (Superseded, t') \<and> inv t' \<and> lookup t' = lookup t"
  using guarded_law [OF assms(1), of sid e] assms(2,3)
  by (simp add: guarded_result_def guarded_rest_def fun_upd_idem)

lemma record_then_guarded:
  assumes "inv t"
  shows "\<exists>t1 t2. rec g t = Some ((), t1) \<and> guarded (gr_session_id g) (granted_at_ms g) t1 = Some (Removed g, t2)
    \<and> inv t2 \<and> lookup t2 = (lookup t)(gr_session_id g := None)"
proof -
  obtain t1 where "rec g t = Some ((), t1)" "inv t1" "lookup t1 = (lookup t)(gr_session_id g \<mapsto> g)"
    using rec_law [OF assms] by blast
  then show ?thesis
    using guarded_law [of t1 "gr_session_id g" "granted_at_ms g"]
    by (simp add: guarded_result_def guarded_rest_def)
qed

end

interpretation tracker: grant_store "tracker_inv hash" "sessions hash" "tracker_record hash"
  "tracker_remove hash" "remove_if_unchanged hash" "mark_evaluated hash" for hash
proof
  fix t sid g assume "tracker_inv hash t" "sessions hash t sid = Some g"
  then show "gr_session_id g = sid"
    using shard_invD(2) [OF tracker_invD(1) [OF _ shard_index_less]] by (simp add: sessions_def)
qed (fact tracker_record_refines tracker_remove_refines remove_if_unchanged_refines
    mark_evaluated_refines)+

section \<open>Reachable trackers\<close>

datatype tracker_call =
    CallRecord access_grant | CallRemove string | CallGuarded string u64 | CallMark string u64 ztna_reason

fun run_call :: "(string \<Rightarrow> u64) \<Rightarrow> tracker_call \<Rightarrow> session_tracker \<Rightarrow> session_tracker option" where
  "run_call hash (CallRecord g) t = map_option snd (tracker_record hash g t)"
| "run_call hash (CallRemove sid) t = map_option snd (tracker_remove hash sid t)"
| "run_call hash (CallGuarded sid e) t = map_option snd (remove_if_unchanged hash sid e t)"
| "run_call hash (CallMark sid now r) t = map_option snd (mark_evaluated hash sid now r t)"

fun run_calls :: "(string \<Rightarrow> u64) \<Rightarrow> tracker_call list \<Rightarrow> session_tracker \<Rightarrow> session_tracker option" where
  "run_calls hash [] t = Some t"
| "run_calls hash (c # cs) t = Option.bind (run_call hash c t) (run_calls hash cs)"

text \<open>The same calls on one flat map.\<close>

fun map_call :: "tracker_call \<Rightarrow> (string \<rightharpoonup> access_grant) \<Rightarrow> (string \<rightharpoonup> access_grant)" where
  "map_call (CallRecord g) m = m(gr_session_id g \<mapsto> g)"
| "map_call (CallRemove sid) m = m(sid := None)"
| "map_call (CallGuarded sid e) m =
     (case m sid of Some g \<Rightarrow> if granted_at_ms g = e then m(sid := None) else m | None \<Rightarrow> m)"
| "map_call (CallMark sid now r) m =
     (case m sid of Some g \<Rightarrow> m(sid \<mapsto> g\<lparr>last_eval_ms := now, last_reason := r\<rparr>) | None \<Rightarrow> m)"

lemma run_call_refines:
  assumes "tracker_inv hash t"
  shows "\<exists>t'. run_call hash c t = Some t' \<and> tracker_inv hash t' \<and> sessions hash t' = map_call c (sessions hash t)"
proof (cases c)
  case (CallRecord g)
  then show ?thesis using tracker.rec_law [OF assms, of g] by auto
next
  case (CallRemove sid)
  then show ?thesis using tracker.rem_law [OF assms, of sid] by auto
next
  case (CallGuarded sid e)
  moreover have "map_call (CallGuarded sid e) m = m(sid := guarded_rest (m sid) e)" for m
    by (auto simp: guarded_rest_def fun_upd_idem split: option.split)
  ultimately show ?thesis using tracker.guarded_law [OF assms, of sid e] by auto
next
  case (CallMark sid now r)
  moreover have "map_call (CallMark sid now r) m
      = m(sid := map_option (\<lambda>g. g\<lparr>last_eval_ms := now, last_reason := r\<rparr>) (m sid))" for m
    by (auto simp: fun_upd_idem split: option.split)
  ultimately show ?thesis using tracker.mark_law [OF assms, of sid now r] by auto
qed

lemma run_calls_refines:
  assumes "tracker_inv hash t"
  shows "\<exists>t'. run_calls hash cs t = Some t' \<and> tracker_inv hash t' \<and> sessions hash t' = fold map_call cs (sessions hash t)"
  using assms
proof (induction cs arbitrary: t)
  case (Cons c cs)
  obtain t1 where t1: "run_call hash c t = Some t1" "tracker_inv hash t1"
    "sessions hash t1 = map_call c (sessions hash t)"
    using run_call_refines [OF Cons.prems] by blast
  then show ?case using Cons.IH [OF t1(2)] by simp
qed simp

text \<open>
  Claim C10. The sharded tracker is one flat map, for every hash function and every enumeration order
  of its tables: after any sequence of calls no shard index is out of range, the content is that of
  the same calls on a plain map, a lookup reads that map, \<open>sessions_for_device\<close> returns exactly the
  sessions on the device, each once, the shards partition the sessions, and the counts are the
  cardinalities.
\<close>

theorem tracker_refines_flat_map:
  assumes "hash_order enum" "unat n \<le> 2 ^ 62"
  shows "\<exists>t0 t. with_shards n = Some t0 \<and> run_calls hash cs t0 = Some t
    \<and> (\<forall>sid. tracker_get hash sid t = Some (fold map_call cs Map.empty sid, t))
    \<and> set (sessions_for_device enum t dev)
        = {g. fold map_call cs Map.empty (gr_session_id g) = Some g \<and> gr_device_id g = dev}
    \<and> distinct (map gr_session_id (sessions_for_device enum t dev))
    \<and> set (concat (map (shard_grants enum t) [0..<shard_count t])) = ran (fold map_call cs Map.empty)
    \<and> distinct (map gr_session_id (concat (map (shard_grants enum t) [0..<shard_count t])))
    \<and> tracker_len t = card (dom (fold map_call cs Map.empty))
    \<and> tenant_session_count tenant t
        = card {sid. \<exists>g. fold map_call cs Map.empty sid = Some g \<and> gr_tenant_id g = tenant}"
proof -
  let ?m = "fold map_call cs Map.empty"
  obtain t0 where t0: "with_shards n = Some t0" "tracker_inv hash t0" "sessions hash t0 = Map.empty"
    using with_shards_refines [OF assms(2)] by blast
  obtain t where t: "run_calls hash cs t0 = Some t" and inv: "tracker_inv hash t" and m: "sessions hash t = ?m"
    using run_calls_refines [OF t0(2), of cs] t0(3) by auto
  have part: "set (concat (map (shard_grants enum t) [0..<shard_count t])) = ran ?m"
  proof -
    have "g \<in> set (concat (map (shard_grants enum t) [0..<shard_count t]))
        \<longleftrightarrow> sessions hash t (gr_session_id g) = Some g" for g
      using hash_order.shard_grants_refines(1) [OF assms(1) inv] shard_index_less [OF inv]
      by (auto simp: shard_count_def)
    moreover have "sessions hash t (gr_session_id g) = Some g \<longleftrightarrow> g \<in> ran ?m" for g
      unfolding m [symmetric] ran_def using tracker.keyed [OF inv] by blast
    ultimately show ?thesis by blast
  qed
  have "distinct (map gr_session_id (concat (map (shard_grants enum t) [0..<shard_count t])))"
    by (rule distinct_concat_indexed [where idx = "shard_index hash t"])
      (use hash_order.shard_grants_refines [OF assms(1) inv] in \<open>auto simp: shard_count_def\<close>)
  then show ?thesis
    using t0(1) t part tracker_reads_refine(1) [OF inv] tracker_counts_refine [OF inv]
      hash_order.sessions_for_device_refines [OF assms(1) inv]
    unfolding m by blast
qed

definition demo_grant :: "string \<Rightarrow> u64 \<Rightarrow> access_grant" where
  "demo_grant sid at = access_grant_new sid ''acme'' (access_request_new ''ledger'' ''laptop-1'' ''alice'' at) at"

theorem tracker_refines_flat_map_witness:
  "\<exists>t0 t. with_shards 3 = Some t0
    \<and> run_calls (\<lambda>s. of_nat (length s))
        [CallRecord (demo_grant ''s1'' 5), CallRecord (demo_grant ''s22'' 6), CallRemove ''s1''] t0 = Some t
    \<and> tracker_len t = 1"
proof -
  let ?cs = "[CallRecord (demo_grant ''s1'' 5), CallRecord (demo_grant ''s22'' 6), CallRemove ''s1'']"
  have "hash_order sorted_keys" by (rule sorted_hash.hash_order_axioms)
  then obtain t0 t where "with_shards 3 = Some t0" "run_calls (\<lambda>s. of_nat (length s)) ?cs t0 = Some t"
    "tracker_len t = card (dom (fold map_call ?cs Map.empty))"
    using tracker_refines_flat_map [of sorted_keys 3 "\<lambda>s. of_nat (length s)" ?cs "[]" "[]"] by auto
  moreover have "fold map_call ?cs Map.empty = [''s22'' \<mapsto> demo_grant ''s22'' 6]"
    by (simp add: demo_grant_def access_grant_new_def fun_eq_iff)
  then have "card (dom (fold map_call ?cs Map.empty)) = 1" by (simp only: dom_fun_upd) simp
  ultimately show ?thesis by (metis (no_types))
qed

end
