(* ===== verification/Ztna_Reeval.thy ===== *)
theory Ztna_Reeval
  imports Ztna_Session
begin

text \<open>
  The continuous re-evaluation of \<open>sng-ztna\<close> (\<open>reeval.rs\<close>): the sweep over all tracked sessions, the
  re-evaluation of one device's sessions, and the loop that drives them; first on their own, then
  interleaved with the producer that opens, refreshes and closes sessions and with changes of the
  providers. The hash function, the enumeration order of hash tables and the two channels are
  parameters, collected in a record.
\<close>

section \<open>The loop\<close>

record session_revoked =
  rvk_session_id :: string
  rvk_tenant_id :: string
  rvk_app_id :: string
  rvk_device_id :: string
  rvk_user_id :: string
  rvk_reason :: ztna_reason
  rvk_at_ms :: u64

record sweep_stats =
  st_retained :: u64
  st_revoked :: u64
  st_emit_dropped :: u64
  st_vanished :: u64
  st_superseded :: u64

definition sweep_stats_default :: sweep_stats where
  "sweep_stats_default =
     \<lparr>st_retained = 0, st_revoked = 0, st_emit_dropped = 0, st_vanished = 0, st_superseded = 0\<rparr>"

definition examined :: "sweep_stats \<Rightarrow> u64" where
  "examined s = st_retained s + st_revoked s + st_vanished s + st_superseded s"

record ('c, 'd) reeval_env =
  env_hash :: "string \<Rightarrow> u64"
  env_enum :: "string set \<Rightarrow> string list"
  env_send :: "'c ztna_send"
  env_revoked_send :: "'d \<Rightarrow> session_revoked \<Rightarrow> 'd option"

record ('c, 'd) reeval_loop =
  rl_service :: "'c ztna_service"
  rl_tracker :: session_tracker
  rl_revoked_tx :: 'd

definition reeval_verdict ::
  "('c, 'd) reeval_env \<Rightarrow> 'c ztna_service \<Rightarrow> access_grant \<Rightarrow> u64 \<Rightarrow> ztna_reason option" where
  "reeval_verdict env svc g now =
     (case fst (evaluate_for_reeval (env_send env) (reeval_request g now) svc) of
        Inr d \<Rightarrow> if allow d then None else Some (reason d)
      | Inl e \<Rightarrow> Some (as_decision_reason e))"

text \<open>What is done with a verdict; the state is the statistics, the tracker and the channel.\<close>

definition settle ::
  "('c, 'd) reeval_env \<Rightarrow> access_grant \<Rightarrow> u64 \<Rightarrow> ztna_reason option \<Rightarrow> sweep_stats \<Rightarrow> session_tracker \<Rightarrow> 'd
   \<Rightarrow> (sweep_stats \<times> session_tracker \<times> 'd) option" where
  "settle env g now v st t tx =
     (case v of
        None \<Rightarrow>
          (case mark_evaluated (env_hash env) (gr_session_id g) now Allow t of
             None \<Rightarrow> None
           | Some (present, t') \<Rightarrow>
               if present then Some (st\<lparr>st_retained := st_retained st + 1\<rparr>, t', tx)
               else Some (st\<lparr>st_vanished := st_vanished st + 1\<rparr>, t', tx))
      | Some r \<Rightarrow>
          (case remove_if_unchanged (env_hash env) (gr_session_id g) (granted_at_ms g) t of
             None \<Rightarrow> None
           | Some (Removed _, t') \<Rightarrow>
               let st1 = st\<lparr>st_revoked := st_revoked st + 1\<rparr>;
                   event = \<lparr>rvk_session_id = gr_session_id g, rvk_tenant_id = gr_tenant_id g,
                            rvk_app_id = req_app_id (gr_request g),
                            rvk_device_id = req_device_id (gr_request g),
                            rvk_user_id = req_user_id (gr_request g), rvk_reason = r, rvk_at_ms = now\<rparr>
               in (case env_revoked_send env tx event of
                     Some tx' \<Rightarrow> Some (st1, t', tx')
                   | None \<Rightarrow> Some (st1\<lparr>st_emit_dropped := st_emit_dropped st1 + 1\<rparr>, t', tx))
           | Some (Superseded, t') \<Rightarrow> Some (st\<lparr>st_superseded := st_superseded st + 1\<rparr>, t', tx)
           | Some (Absent, t') \<Rightarrow> Some (st\<lparr>st_vanished := st_vanished st + 1\<rparr>, t', tx)))"

definition process_grant ::
  "('c, 'd) reeval_env \<Rightarrow> u64 \<Rightarrow> access_grant \<Rightarrow> sweep_stats \<times> ('c, 'd) reeval_loop
   \<Rightarrow> (sweep_stats \<times> ('c, 'd) reeval_loop) option" where
  "process_grant env now g = (\<lambda>(st, l).
     map_option (\<lambda>(st', t', tx'). (st', l\<lparr>rl_tracker := t', rl_revoked_tx := tx'\<rparr>))
       (settle env g now (reeval_verdict env (rl_service l) g now) st (rl_tracker l) (rl_revoked_tx l)))"

fun process_all ::
  "('c, 'd) reeval_env \<Rightarrow> u64 \<Rightarrow> access_grant list \<Rightarrow> sweep_stats \<times> ('c, 'd) reeval_loop
   \<Rightarrow> (sweep_stats \<times> ('c, 'd) reeval_loop) option" where
  "process_all env now [] sl = Some sl"
| "process_all env now (g # gs) sl = Option.bind (process_grant env now g sl) (process_all env now gs)"

fun sweep_shards ::
  "('c, 'd) reeval_env \<Rightarrow> u64 \<Rightarrow> nat list \<Rightarrow> sweep_stats \<times> ('c, 'd) reeval_loop
   \<Rightarrow> (sweep_stats \<times> ('c, 'd) reeval_loop) option" where
  "sweep_shards env now [] sl = Some sl"
| "sweep_shards env now (i # is) sl =
     Option.bind (process_all env now (shard_grants (env_enum env) (rl_tracker (snd sl)) i) sl)
       (sweep_shards env now is)"

definition sweep ::
  "('c, 'd) reeval_env \<Rightarrow> u64 \<Rightarrow> ('c, 'd) reeval_loop \<Rightarrow> (sweep_stats \<times> ('c, 'd) reeval_loop) option" where
  "sweep env now l = sweep_shards env now [0..<shard_count (rl_tracker l)] (sweep_stats_default, l)"

definition reevaluate_device ::
  "('c, 'd) reeval_env \<Rightarrow> string \<Rightarrow> u64 \<Rightarrow> ('c, 'd) reeval_loop
   \<Rightarrow> (sweep_stats \<times> ('c, 'd) reeval_loop) option" where
  "reevaluate_device env dev now l =
     process_all env now (sessions_for_device (env_enum env) (rl_tracker l) dev) (sweep_stats_default, l)"

definition current_interval :: "'c ztna_service \<Rightarrow> nat" where
  "current_interval svc = from_millis (unat (max (reeval_interval_ms (svc_policy svc)) 1))"

text \<open>
  The driver waits for the interval or for the stop channel; each wait ends in one of three ways.
  It runs through the given events and says whether it has returned.
\<close>

datatype wait_event = IntervalElapsed u64 | StopChanged bool | StopSendersDropped

fun run_events ::
  "('c, 'd) reeval_env \<Rightarrow> wait_event list \<Rightarrow> ('c, 'd) reeval_loop \<Rightarrow> (bool \<times> ('c, 'd) reeval_loop) option" where
  "run_events env [] l = Some (False, l)"
| "run_events env (IntervalElapsed now # es) l =
     Option.bind (sweep env now l) (\<lambda>(_, l'). run_events env es l')"
| "run_events env (StopChanged b # es) l = (if b then Some (True, l) else run_events env es l)"
| "run_events env (StopSendersDropped # es) l = Some (True, l)"

definition run_inner ::
  "('c, 'd) reeval_env \<Rightarrow> bool \<Rightarrow> wait_event list \<Rightarrow> ('c, 'd) reeval_loop \<Rightarrow> (bool \<times> ('c, 'd) reeval_loop) option" where
  "run_inner env stopped es l = (if stopped then Some (True, l) else run_events env es l)"

section \<open>One grant\<close>

lemma evaluate_for_reeval_eq:
  "evaluate_for_reeval try_send req svc = (map_sum id out_decision (verdict svc req), svc)"
  by (simp add: evaluate_for_reeval_def evaluate_reported_eq report_decision_quiet)

lemma reeval_verdict_eq:
  "reeval_verdict env svc g now =
     (if authorised svc (reeval_request g now) then None else Some (verdict_reason (verdict svc (reeval_request g now))))"
  unfolding reeval_verdict_def evaluate_for_reeval_eq verdict_allows_iff [symmetric]
  by (simp add: verdict_allows_def verdict_reason_def split: sum.split)

lemma reeval_verdict_reason: "reeval_verdict env svc g now = Some r \<Longrightarrow> r \<noteq> Allow"
  using verdict_reason_allow [of svc "reeval_request g now"] by (auto simp: reeval_verdict_eq split: if_splits)

definition marked :: "u64 \<Rightarrow> access_grant \<Rightarrow> access_grant" where
  "marked now g = g\<lparr>last_eval_ms := now, last_reason := Allow\<rparr>"

definition revoked_event :: "access_grant \<Rightarrow> u64 \<Rightarrow> ztna_reason \<Rightarrow> session_revoked" where
  "revoked_event g now r =
     \<lparr>rvk_session_id = gr_session_id g, rvk_tenant_id = gr_tenant_id g, rvk_app_id = gr_app_id g,
      rvk_device_id = gr_device_id g, rvk_user_id = gr_user_id g, rvk_reason = r, rvk_at_ms = now\<rparr>"

text \<open>How a verdict settles, given what the store holds at that moment.\<close>

datatype settlement = Retained | RevokedNow access_grant | Vanished | Overtaken

definition settlement :: "access_grant \<Rightarrow> ztna_reason option \<Rightarrow> access_grant option \<Rightarrow> settlement" where
  "settlement g v stored =
     (case stored of
        None \<Rightarrow> Vanished
      | Some h \<Rightarrow>
          if v = None then Retained
          else if granted_at_ms h = granted_at_ms g then RevokedNow h else Overtaken)"

definition settled_map ::
  "access_grant \<Rightarrow> u64 \<Rightarrow> ztna_reason option \<Rightarrow> (string \<rightharpoonup> access_grant) \<Rightarrow> (string \<rightharpoonup> access_grant)" where
  "settled_map g now v m =
     (case settlement g v (m (gr_session_id g)) of
        Retained \<Rightarrow> m(gr_session_id g := map_option (marked now) (m (gr_session_id g)))
      | RevokedNow _ \<Rightarrow> m(gr_session_id g := None)
      | _ \<Rightarrow> m)"

definition offer :: "('d \<Rightarrow> 'e \<Rightarrow> 'd option) \<Rightarrow> 'e \<Rightarrow> 'd \<Rightarrow> 'd" where
  "offer send e tx = (case send tx e of Some tx' \<Rightarrow> tx' | None \<Rightarrow> tx)"

lemma settle_refines:
  fixes g :: access_grant
  assumes inv: "tracker_inv (env_hash env) t"
  defines "m \<equiv> sessions (env_hash env) t" and "sid \<equiv> gr_session_id g"
  shows "\<exists>t' st'. settle env g now v st t tx = Some (st', t',
        case settlement g v (m sid) of
          RevokedNow _ \<Rightarrow> offer (env_revoked_send env) (revoked_event g now (the v)) tx | _ \<Rightarrow> tx)
      \<and> tracker_inv (env_hash env) t' \<and> sessions (env_hash env) t' = settled_map g now v m
      \<and> examined st' = examined st + 1
      \<and> (case settlement g v (m sid) of
           Retained \<Rightarrow> st' = st\<lparr>st_retained := st_retained st + 1\<rparr>
         | RevokedNow _ \<Rightarrow>
             st' = st\<lparr>st_revoked := st_revoked st + 1,
               st_emit_dropped := st_emit_dropped st
                 + (if env_revoked_send env tx (revoked_event g now (the v)) = None then 1 else 0)\<rparr>
         | Vanished \<Rightarrow> st' = st\<lparr>st_vanished := st_vanished st + 1\<rparr>
         | Overtaken \<Rightarrow> st' = st\<lparr>st_superseded := st_superseded st + 1\<rparr>)"
proof (cases v)
  case None
  obtain t' where "mark_evaluated (env_hash env) sid now Allow t = Some (m sid \<noteq> None, t')"
    "tracker_inv (env_hash env) t'" "sessions (env_hash env) t' = m(sid := map_option (marked now) (m sid))"
    using tracker.mark_law [OF inv, of sid now Allow] unfolding m_def marked_def by blast
  then show ?thesis
    using None unfolding sid_def
    by (cases "m (gr_session_id g)")
      (simp_all add: settle_def settlement_def settled_map_def examined_def fun_upd_idem)
next
  case (Some r)
  obtain t' where "remove_if_unchanged (env_hash env) sid (granted_at_ms g) t
        = Some (guarded_result (m sid) (granted_at_ms g), t')"
    "tracker_inv (env_hash env) t'" "sessions (env_hash env) t' = m(sid := guarded_rest (m sid) (granted_at_ms g))"
    using tracker.guarded_law [OF inv, of sid "granted_at_ms g"] unfolding m_def by blast
  then show ?thesis
    using Some unfolding sid_def
    by (cases "m (gr_session_id g)")
      (simp_all add: settle_def settlement_def settled_map_def examined_def fun_upd_idem guarded_result_def
        guarded_rest_def revoked_event_def gr_app_id_def gr_device_id_def gr_user_id_def offer_def Let_def
        split: option.split)
qed

text \<open>The number of shards and the mask never change.\<close>

definition same_shape :: "session_tracker \<Rightarrow> session_tracker \<Rightarrow> bool" where
  "same_shape t t' \<longleftrightarrow> length (shards t') = length (shards t) \<and> tracker_mask t' = tracker_mask t"

lemma with_shard_shape: "with_shard hash t sid f = Some (r, t') \<Longrightarrow> same_shape t t'"
  by (auto simp: with_shard_def same_shape_def Let_def split: if_splits prod.splits)

lemma settle_shape: "settle env g now v st t tx = Some (st', t', tx') \<Longrightarrow> same_shape t t'"
  unfolding settle_def mark_evaluated_def remove_if_unchanged_def Let_def
  by (auto split: option.splits if_splits guarded_removal.splits intro: with_shard_shape)

lemma same_shape_index: "same_shape t t' \<Longrightarrow> shard_index hash t' = shard_index hash t"
  by (rule ext) (simp add: same_shape_def shard_index_def)

section \<open>A sweep on its own\<close>

definition swept :: "'c ztna_service \<Rightarrow> u64 \<Rightarrow> (string \<rightharpoonup> access_grant) \<Rightarrow> (string \<rightharpoonup> access_grant)" where
  "swept svc now m sid =
     (case m sid of None \<Rightarrow> None
      | Some g \<Rightarrow> if authorised svc (reeval_request g now) then Some (marked now g) else None)"

definition kept :: "'c ztna_service \<Rightarrow> u64 \<Rightarrow> access_grant list \<Rightarrow> access_grant list" where
  "kept svc now gs = filter (\<lambda>g. authorised svc (reeval_request g now)) gs"

definition dropped :: "'c ztna_service \<Rightarrow> u64 \<Rightarrow> access_grant list \<Rightarrow> access_grant list" where
  "dropped svc now gs = filter (\<lambda>g. \<not> authorised svc (reeval_request g now)) gs"

definition revocations :: "'c ztna_service \<Rightarrow> u64 \<Rightarrow> access_grant list \<Rightarrow> session_revoked list" where
  "revocations svc now gs =
     map (\<lambda>g. revoked_event g now (verdict_reason (verdict svc (reeval_request g now)))) (dropped svc now gs)"

definition deliver :: "('d \<Rightarrow> 'e \<Rightarrow> 'd option) \<Rightarrow> 'e list \<Rightarrow> 'd \<Rightarrow> 'd" where
  "deliver send es tx = fold (offer send) es tx"

fun refused :: "('d \<Rightarrow> 'e \<Rightarrow> 'd option) \<Rightarrow> 'e list \<Rightarrow> 'd \<Rightarrow> nat" where
  "refused send [] tx = 0"
| "refused send (e # es) tx = (if send tx e = None then 1 else 0) + refused send es (offer send e tx)"

definition tallied ::
  "('d \<Rightarrow> session_revoked \<Rightarrow> 'd option) \<Rightarrow> 'c ztna_service \<Rightarrow> u64 \<Rightarrow> access_grant list \<Rightarrow> 'd \<Rightarrow> sweep_stats \<Rightarrow> sweep_stats" where
  "tallied send svc now gs tx st =
     st\<lparr>st_retained := st_retained st + of_nat (length (kept svc now gs)),
        st_revoked := st_revoked st + of_nat (length (dropped svc now gs)),
        st_emit_dropped := st_emit_dropped st + of_nat (refused send (revocations svc now gs) tx)\<rparr>"

lemma sweep_list_simps [simp]:
  "kept svc now [] = []" "dropped svc now [] = []" "revocations svc now [] = []"
  "authorised svc (reeval_request g now) \<Longrightarrow> kept svc now (g # gs) = g # kept svc now gs"
  "\<not> authorised svc (reeval_request g now) \<Longrightarrow> kept svc now (g # gs) = kept svc now gs"
  "authorised svc (reeval_request g now) \<Longrightarrow> dropped svc now (g # gs) = dropped svc now gs"
  "\<not> authorised svc (reeval_request g now) \<Longrightarrow> dropped svc now (g # gs) = g # dropped svc now gs"
  "authorised svc (reeval_request g now) \<Longrightarrow> revocations svc now (g # gs) = revocations svc now gs"
  "\<not> authorised svc (reeval_request g now) \<Longrightarrow> revocations svc now (g # gs) =
     revoked_event g now (verdict_reason (verdict svc (reeval_request g now))) # revocations svc now gs"
  by (simp_all add: kept_def dropped_def revocations_def)

lemma deliver_simps [simp]:
  "deliver send [] tx = tx" "deliver send (e # es) tx = deliver send es (offer send e tx)"
  by (simp_all add: deliver_def)

lemma sweep_list_append:
  "kept svc now (gs @ hs) = kept svc now gs @ kept svc now hs"
  "dropped svc now (gs @ hs) = dropped svc now gs @ dropped svc now hs"
  "revocations svc now (gs @ hs) = revocations svc now gs @ revocations svc now hs"
  by (simp_all add: kept_def dropped_def revocations_def)

lemma deliver_append: "deliver send (es @ fs) tx = deliver send fs (deliver send es tx)"
  by (simp add: deliver_def)

lemma refused_append: "refused send (es @ fs) tx = refused send es tx + refused send fs (deliver send es tx)"
  by (induction es arbitrary: tx) auto

lemma tallied_append:
  "tallied send svc now hs (deliver send (revocations svc now gs) tx) (tallied send svc now gs tx st)
   = tallied send svc now (gs @ hs) tx st"
  by (simp add: tallied_def sweep_list_append refused_append)

text \<open>The loop after the sessions \<open>gs\<close> have been settled, none of them touched by others.\<close>

definition after_sweep ::
  "('c, 'd) reeval_env \<Rightarrow> u64 \<Rightarrow> access_grant list \<Rightarrow> sweep_stats \<times> ('c, 'd) reeval_loop
   \<Rightarrow> sweep_stats \<times> ('c, 'd) reeval_loop \<Rightarrow> bool" where
  "after_sweep env now gs sl sl' \<longleftrightarrow>
     (let svc = rl_service (snd sl); hash = env_hash env; m = sessions hash (rl_tracker (snd sl));
          tx = rl_revoked_tx (snd sl)
      in tracker_inv hash (rl_tracker (snd sl')) \<and> same_shape (rl_tracker (snd sl)) (rl_tracker (snd sl'))
         \<and> rl_service (snd sl') = svc
         \<and> sessions hash (rl_tracker (snd sl'))
             = (\<lambda>k. if k \<in> gr_session_id ` set gs then swept svc now m k else m k)
         \<and> rl_revoked_tx (snd sl') = deliver (env_revoked_send env) (revocations svc now gs) tx
         \<and> fst sl' = tallied (env_revoked_send env) svc now gs tx (fst sl))"

lemma process_grant_exact:
  assumes inv: "tracker_inv (env_hash env) (rl_tracker l)"
    and g: "sessions (env_hash env) (rl_tracker l) (gr_session_id g) = Some g"
  shows "\<exists>sl'. process_grant env now g (st, l) = Some sl' \<and> after_sweep env now [g] (st, l) sl'"
proof -
  let ?v = "reeval_verdict env (rl_service l) g now"
  obtain t' st' tx' where s: "settle env g now ?v st (rl_tracker l) (rl_revoked_tx l) = Some (st', t', tx')"
    and r: "tracker_inv (env_hash env) t'"
      "sessions (env_hash env) t' = settled_map g now ?v (sessions (env_hash env) (rl_tracker l))"
      "tx' = (if authorised (rl_service l) (reeval_request g now) then rl_revoked_tx l
              else offer (env_revoked_send env) (revoked_event g now (the ?v)) (rl_revoked_tx l))"
      "if authorised (rl_service l) (reeval_request g now) then st' = st\<lparr>st_retained := st_retained st + 1\<rparr>
       else st' = st\<lparr>st_revoked := st_revoked st + 1,
         st_emit_dropped := st_emit_dropped st
           + (if env_revoked_send env (rl_revoked_tx l) (revoked_event g now (the ?v)) = None then 1 else 0)\<rparr>"
    using settle_refines [OF inv, of g now ?v st "rl_revoked_tx l"] g
    by (auto simp: settlement_def reeval_verdict_eq split: if_splits)
  have "settled_map g now ?v (sessions (env_hash env) (rl_tracker l))
      = (\<lambda>k. if k \<in> gr_session_id ` set [g] then swept (rl_service l) now (sessions (env_hash env) (rl_tracker l)) k
             else sessions (env_hash env) (rl_tracker l) k)"
    using g by (auto simp: settled_map_def settlement_def swept_def reeval_verdict_eq fun_eq_iff)
  then show ?thesis
    using s r settle_shape [OF s]
    by (auto simp: process_grant_def after_sweep_def Let_def tallied_def reeval_verdict_eq split: if_splits)
qed

lemma after_sweep_trans:
  assumes "after_sweep env now gs sl sl1" "after_sweep env now hs sl1 sl2"
    "gr_session_id ` set gs \<inter> gr_session_id ` set hs = {}"
  shows "after_sweep env now (gs @ hs) sl sl2"
  using assms tallied_append [of "env_revoked_send env" "rl_service (snd sl)" now hs gs]
  unfolding after_sweep_def Let_def snd_conv fst_conv
  by (auto simp: same_shape_def sweep_list_append deliver_append fun_eq_iff swept_def disjoint_iff)

lemma after_sweep_refl:
  "tracker_inv (env_hash env) (rl_tracker (snd sl)) \<Longrightarrow> after_sweep env now [] sl sl"
  by (simp add: after_sweep_def Let_def same_shape_def tallied_def)

lemma after_sweep_untouched:
  assumes "after_sweep env now gs sl sl'" "sid \<notin> gr_session_id ` set gs"
  shows "sessions (env_hash env) (rl_tracker (snd sl')) sid = sessions (env_hash env) (rl_tracker (snd sl)) sid"
  using assms by (simp add: after_sweep_def Let_def)

lemma after_sweepD:
  assumes "after_sweep env now gs sl sl'"
  shows "tracker_inv (env_hash env) (rl_tracker (snd sl'))" "same_shape (rl_tracker (snd sl)) (rl_tracker (snd sl'))"
  using assms by (simp_all add: after_sweep_def Let_def)

lemma process_all_exact:
  assumes "tracker_inv (env_hash env) (rl_tracker (snd sl))" "distinct (map gr_session_id gs)"
    "\<And>g. g \<in> set gs \<Longrightarrow> sessions (env_hash env) (rl_tracker (snd sl)) (gr_session_id g) = Some g"
  shows "\<exists>sl'. process_all env now gs sl = Some sl' \<and> after_sweep env now gs sl sl'"
  using assms
proof (induction gs arbitrary: sl)
  case (Cons g gs)
  obtain sl1 where sl1: "process_grant env now g sl = Some sl1" "after_sweep env now [g] sl sl1"
    using process_grant_exact [of env "snd sl" g now "fst sl"] Cons.prems by auto
  have "sessions (env_hash env) (rl_tracker (snd sl1)) (gr_session_id h) = Some h" if "h \<in> set gs" for h
  proof -
    have "gr_session_id h \<notin> gr_session_id ` set [g]" using Cons.prems(2) that by simp (metis image_eqI)
    then show ?thesis using after_sweep_untouched [OF sl1(2)] Cons.prems(3) that by simp
  qed
  then obtain sl2 where "process_all env now gs sl1 = Some sl2" "after_sweep env now gs sl1 sl2"
    using Cons.IH [of sl1] Cons.prems(2) after_sweepD(1) [OF sl1(2)] by auto
  moreover have "gr_session_id ` set [g] \<inter> gr_session_id ` set gs = {}" using Cons.prems(2) by auto
  ultimately show ?case using sl1 after_sweep_trans [OF sl1(2), of gs sl2] by auto
qed (simp add: after_sweep_refl)

lemma keyed_ran:
  assumes "\<And>k g. m k = Some g \<Longrightarrow> gr_session_id g = k"
  shows "{g. m (gr_session_id g) = Some g} = ran m"
proof (rule set_eqI)
  fix g
  show "g \<in> {g. m (gr_session_id g) = Some g} \<longleftrightarrow> g \<in> ran m"
  proof
    assume "g \<in> ran m"
    then obtain k where k: "m k = Some g" by (auto simp: ran_def)
    have "gr_session_id g = k" using k by (rule assms)
    then show "g \<in> {g. m (gr_session_id g) = Some g}" using k by simp
  qed (auto simp: ran_def)
qed

lemma keyed_device_ids:
  assumes "\<And>k g. m k = Some g \<Longrightarrow> gr_session_id g = k"
  shows "gr_session_id ` {g. m (gr_session_id g) = Some g \<and> gr_device_id g = dev} = device_sessions m dev"
proof (rule set_eqI)
  fix x
  show "x \<in> gr_session_id ` {g. m (gr_session_id g) = Some g \<and> gr_device_id g = dev} \<longleftrightarrow> x \<in> device_sessions m dev"
  proof
    assume "x \<in> device_sessions m dev"
    then obtain g where g: "m x = Some g" "gr_device_id g = dev" by (auto simp: device_sessions_def)
    have "gr_session_id g = x" using g(1) by (rule assms)
    then show "x \<in> gr_session_id ` {g. m (gr_session_id g) = Some g \<and> gr_device_id g = dev}"
      using g by (intro image_eqI [of _ _ g]) simp_all
  qed (auto simp: device_sessions_def)
qed

lemma keyed_ids:
  assumes "\<And>k g. m k = Some g \<Longrightarrow> gr_session_id g = k"
  shows "gr_session_id ` {g. m (gr_session_id g) = Some g} = dom m"
proof (rule set_eqI)
  fix x
  show "x \<in> gr_session_id ` {g. m (gr_session_id g) = Some g} \<longleftrightarrow> x \<in> dom m"
  proof
    assume "x \<in> dom m"
    then obtain g where g: "m x = Some g" by blast
    have "gr_session_id g = x" using g by (rule assms)
    then show "x \<in> gr_session_id ` {g. m (gr_session_id g) = Some g}"
      using g by (intro image_eqI [of _ _ g]) simp_all
  qed auto
qed

lemma sweep_shards_exact:
  assumes ord: "hash_order (env_enum env)" and inv: "tracker_inv (env_hash env) (rl_tracker (snd sl))"
    and n: "n \<le> shard_count (rl_tracker (snd sl))"
  shows "\<exists>sl' gs. sweep_shards env now [k..<n] sl = Some sl' \<and> after_sweep env now gs sl sl'
    \<and> distinct (map gr_session_id gs)
    \<and> set gs = {g. sessions (env_hash env) (rl_tracker (snd sl)) (gr_session_id g) = Some g
        \<and> k \<le> shard_index (env_hash env) (rl_tracker (snd sl)) (gr_session_id g)
        \<and> shard_index (env_hash env) (rl_tracker (snd sl)) (gr_session_id g) < n}"
  using inv n
proof (induction "n - k" arbitrary: k sl)
  case 0
  then have "[k..<n] = []" by simp
  then show ?case
    using after_sweep_refl [OF "0.prems"(1)] 0 by (intro exI [of _ sl] exI [of _ "[]"]) auto
next
  case (Suc d)
  let ?h = "env_hash env" and ?t = "rl_tracker (snd sl)"
  let ?gs = "shard_grants (env_enum env) ?t k"
  have k: "k < length (shards ?t)" and split: "[k..<n] = k # [Suc k..<n]"
    using Suc by (simp_all add: shard_count_def upt_conv_Cons)
  note sg = hash_order.shard_grants_refines [OF ord Suc.prems(1) k]
  obtain sl1 where sl1: "process_all env now ?gs sl = Some sl1" "after_sweep env now ?gs sl sl1"
    using process_all_exact [OF Suc.prems(1) sg(2)] sg(1) by blast
  have idx: "shard_index ?h (rl_tracker (snd sl1)) = shard_index ?h ?t"
    using after_sweepD(2) [OF sl1(2)] by (rule same_shape_index)
  have d: "d = n - Suc k" using Suc.hyps(2) by simp
  have "n \<le> shard_count (rl_tracker (snd sl1))"
    using Suc.prems(2) after_sweepD(2) [OF sl1(2)] by (simp add: shard_count_def same_shape_def)
  then obtain sl2 hs where sl2: "sweep_shards env now [Suc k..<n] sl1 = Some sl2" "after_sweep env now hs sl1 sl2"
    "distinct (map gr_session_id hs)"
    "set hs = {g. sessions ?h (rl_tracker (snd sl1)) (gr_session_id g) = Some g
       \<and> Suc k \<le> shard_index ?h ?t (gr_session_id g) \<and> shard_index ?h ?t (gr_session_id g) < n}"
    using Suc.hyps(1) [OF d after_sweepD(1) [OF sl1(2)]] unfolding idx by blast
  have disj: "gr_session_id ` set ?gs \<inter> gr_session_id ` set hs = {}"
  proof -
    have "shard_index ?h ?t x = k" if "x \<in> gr_session_id ` set ?gs" for x using that sg(1) by auto
    moreover have "shard_index ?h ?t x \<noteq> k" if "x \<in> gr_session_id ` set hs" for x using that sl2(4) by auto
    ultimately show ?thesis by blast
  qed
  have same: "sessions ?h (rl_tracker (snd sl1)) (gr_session_id g) = sessions ?h ?t (gr_session_id g)"
    if "Suc k \<le> shard_index ?h ?t (gr_session_id g)" for g
    using that sg(1) by (intro after_sweep_untouched [OF sl1(2)]) auto
  have kn: "k < n" using Suc.hyps(2) by simp
  have "g \<in> set (?gs @ hs) \<longleftrightarrow> sessions ?h ?t (gr_session_id g) = Some g
      \<and> k \<le> shard_index ?h ?t (gr_session_id g) \<and> shard_index ?h ?t (gr_session_id g) < n" for g
  proof (cases "Suc k \<le> shard_index ?h ?t (gr_session_id g)")
    case True
    then show ?thesis using same [of g] by (simp add: sg(1) sl2(4))
  next
    case False
    then have "k \<le> shard_index ?h ?t (gr_session_id g) \<longleftrightarrow> shard_index ?h ?t (gr_session_id g) = k" by auto
    then show ?thesis using False kn by (auto simp: sg(1) sl2(4))
  qed
  then have "set (?gs @ hs) = {g. sessions ?h ?t (gr_session_id g) = Some g
      \<and> k \<le> shard_index ?h ?t (gr_session_id g) \<and> shard_index ?h ?t (gr_session_id g) < n}" by blast
  moreover have "distinct (map gr_session_id (?gs @ hs))" using sg(2) sl2(3) disj by simp
  moreover have "sweep_shards env now [k..<n] sl = Some sl2" using split sl1(1) sl2(1) by simp
  ultimately show ?case using after_sweep_trans [OF sl1(2) sl2(2) disj] by blast
qed

lemma sweep_exact:
  assumes "hash_order (env_enum env)" "tracker_inv (env_hash env) (rl_tracker l)"
  shows "\<exists>st l' gs. sweep env now l = Some (st, l')
    \<and> set gs = ran (sessions (env_hash env) (rl_tracker l)) \<and> distinct (map gr_session_id gs)
    \<and> sessions (env_hash env) (rl_tracker l') = swept (rl_service l) now (sessions (env_hash env) (rl_tracker l))
    \<and> rl_service l' = rl_service l
    \<and> rl_revoked_tx l' = deliver (env_revoked_send env) (revocations (rl_service l) now gs) (rl_revoked_tx l)
    \<and> st = tallied (env_revoked_send env) (rl_service l) now gs (rl_revoked_tx l) sweep_stats_default
    \<and> examined st = of_nat (card (dom (sessions (env_hash env) (rl_tracker l))))
    \<and> tracker_inv (env_hash env) (rl_tracker l')"
proof -
  let ?m = "sessions (env_hash env) (rl_tracker l)"
  obtain sl' gs where sw: "sweep env now l = Some sl'" and a: "after_sweep env now gs (sweep_stats_default, l) sl'"
    and d: "distinct (map gr_session_id gs)"
    and gs: "set gs = {g. ?m (gr_session_id g) = Some g}"
    using sweep_shards_exact [OF assms(1), of "(sweep_stats_default, l)" "shard_count (rl_tracker l)" now 0]
      assms(2) shard_index_less [OF assms(2)] unfolding sweep_def by (auto simp: shard_count_def)
  have ids: "gr_session_id ` set gs = dom ?m"
    unfolding gs by (rule keyed_ids) (rule tracker.keyed [OF assms(2)])
  have ran: "set gs = ran ?m"
    unfolding gs by (rule keyed_ran) (rule tracker.keyed [OF assms(2)])
  have "length gs = card (dom ?m)" using ids d by (metis distinct_card length_map set_map)
  moreover have "length (kept (rl_service l) now gs) + length (dropped (rl_service l) now gs) = length gs"
    by (simp add: kept_def dropped_def sum_length_filter_compl)
  ultimately have "examined (tallied (env_revoked_send env) (rl_service l) now gs (rl_revoked_tx l) sweep_stats_default)
      = of_nat (card (dom ?m))"
    by (simp add: examined_def tallied_def sweep_stats_default_def flip: of_nat_add)
  moreover have "(\<lambda>k. if k \<in> gr_session_id ` set gs then swept (rl_service l) now ?m k else ?m k)
      = swept (rl_service l) now ?m"
    unfolding ids by (auto simp: fun_eq_iff swept_def split: option.split)
  ultimately show ?thesis
    using a sw d ran unfolding after_sweep_def Let_def snd_conv fst_conv
    by (cases sl', intro exI [of _ "fst sl'"] exI [of _ "snd sl'"] exI [of _ gs]) simp
qed

text \<open>
  Claim C20. A sweep keeps exactly the sessions a fresh request would be granted: every tracked session
  is judged once, in some order; those the service still authorises stay, stamped with the time of
  the sweep, all others are gone; each revocation, with the reason a fresh evaluation would give, is
  offered to the channel, the refused ones are counted, and the tally adds up. The service itself,
  its counters included, is untouched.
\<close>

theorem sweep_keeps_exactly_authorised:
  assumes "hash_order (env_enum env)" "tracker_inv (env_hash env) (rl_tracker l)"
  shows "\<exists>st l' gs. sweep env now l = Some (st, l')
    \<and> set gs = ran (sessions (env_hash env) (rl_tracker l)) \<and> distinct (map gr_session_id gs)
    \<and> sessions (env_hash env) (rl_tracker l') = swept (rl_service l) now (sessions (env_hash env) (rl_tracker l))
    \<and> rl_service l' = rl_service l
    \<and> rl_revoked_tx l' = deliver (env_revoked_send env) (revocations (rl_service l) now gs) (rl_revoked_tx l)
    \<and> st = tallied (env_revoked_send env) (rl_service l) now gs (rl_revoked_tx l) sweep_stats_default
    \<and> examined st = of_nat (card (dom (sessions (env_hash env) (rl_tracker l))))"
  using sweep_exact [OF assms, of now] by blast

text \<open>A service that knows the finance application, the laptop and its user, with two sessions.\<close>

definition demo_service :: "unit ztna_service" where
  "demo_service = (service_builder_new ())
     \<lparr>svc_policy := acme_policy,
      svc_apps := app_catalog_get (app_catalog_new [ledger_app]),
      svc_devices := device_get (device_table_new [laptop]),
      svc_identities := identity_get (identity_table_new [alice])\<rparr>"

definition other_grant :: access_grant where
  "other_grant = access_grant_new ''s2'' ''acme'' (access_request_new ''ledger'' ''laptop-1'' ''mallory'' 1700) 1700"

definition demo_env :: "(unit, session_revoked list) reeval_env" where
  "demo_env = \<lparr>env_hash = (\<lambda>s. of_nat (length s)), env_enum = sorted_keys, env_send = full_channel,
               env_revoked_send = (\<lambda>tx e. Some (tx @ [e]))\<rparr>"

definition demo_loop :: "session_tracker \<Rightarrow> (unit, session_revoked list) reeval_loop" where
  "demo_loop t = \<lparr>rl_service = demo_service, rl_tracker = t, rl_revoked_tx = []\<rparr>"

definition demo_calls :: "tracker_call list" where
  "demo_calls = [CallRecord (demo_grant ''s1'' 1600), CallRecord other_grant]"

lemma demo_authorised: "authorised demo_service (reeval_request (demo_grant ''s1'' at) 2000)"
  by (simp add: authorised_def demo_service_def service_builder_new_def reeval_request_def demo_grant_def
      access_grant_new_def access_request_new_def app_catalog_get_def app_catalog_new_def index_by_def
      device_get_def device_table_new_def identity_get_def identity_table_new_def is_revoked_def is_user_revoked_def
      request_inputs_def gates_def demo_defs tenant_ok_def country_ok_def network_ok_def hours_ok_def tags_ok_def
      entitled_def mfa_current_def mfa_budget_def posture_current_def posture_meets_def posture_points_def)

lemma other_unauthorised: "\<not> authorised demo_service (reeval_request other_grant 2000)"
  by (simp add: authorised_def demo_service_def reeval_request_def other_grant_def access_grant_new_def
      access_request_new_def identity_get_def identity_table_new_def index_by_def alice_def)

lemma demo_tracker:
  "\<exists>t0 t. with_shards 4 = Some t0 \<and> run_calls (env_hash demo_env) demo_calls t0 = Some t
    \<and> tracker_inv (env_hash demo_env) t
    \<and> sessions (env_hash demo_env) t = [''s1'' \<mapsto> demo_grant ''s1'' 1600, ''s2'' \<mapsto> other_grant]"
proof -
  obtain t0 where "with_shards 4 = Some t0" "tracker_inv (env_hash demo_env) t0"
    "sessions (env_hash demo_env) t0 = Map.empty"
    using with_shards_refines [of 4 "env_hash demo_env"] by auto
  then show ?thesis
    using run_calls_refines [of "env_hash demo_env" t0 demo_calls]
    by (simp add: demo_calls_def demo_grant_def other_grant_def access_grant_new_def)
qed

lemma demo_order: "hash_order (env_enum demo_env)"
  by (simp add: demo_env_def sorted_hash.hash_order_axioms)

lemma demo_swept:
  "swept demo_service 2000 [''s1'' \<mapsto> demo_grant ''s1'' 1600, ''s2'' \<mapsto> other_grant]
   = [''s1'' \<mapsto> marked 2000 (demo_grant ''s1'' 1600)]"
  by (auto simp: swept_def demo_authorised other_unauthorised fun_eq_iff)

theorem sweep_keeps_exactly_authorised_witness:
  "\<exists>t0 t st l'. with_shards 4 = Some t0 \<and> run_calls (env_hash demo_env) demo_calls t0 = Some t
    \<and> sweep demo_env 2000 (demo_loop t) = Some (st, l') \<and> examined st = 2
    \<and> sessions (env_hash demo_env) (rl_tracker l') = [''s1'' \<mapsto> marked 2000 (demo_grant ''s1'' 1600)]"
proof -
  obtain t0 t where t: "with_shards 4 = Some t0" "run_calls (env_hash demo_env) demo_calls t0 = Some t"
    "tracker_inv (env_hash demo_env) t"
    "sessions (env_hash demo_env) t = [''s1'' \<mapsto> demo_grant ''s1'' 1600, ''s2'' \<mapsto> other_grant]"
    using demo_tracker by blast
  moreover obtain st l' where "sweep demo_env 2000 (demo_loop t) = Some (st, l')"
    "sessions (env_hash demo_env) (rl_tracker l') = swept demo_service 2000 (sessions (env_hash demo_env) t)"
    "examined st = of_nat (card (dom (sessions (env_hash demo_env) t)))"
    using sweep_keeps_exactly_authorised [OF demo_order, of "demo_loop t" 2000] t(3)
    by (auto simp: demo_loop_def)
  ultimately show ?thesis using demo_swept by simp
qed

text \<open>
  The out-of-cycle path does for one device what a sweep does for all: after
  \<open>reevaluate_device\<close> the sessions on that device are exactly those a sweep would keep, the sessions on
  other devices are untouched, and the tally counts the sessions on the device.
\<close>

theorem reevaluate_device_is_sweep_of_device:
  assumes "hash_order (env_enum env)" "tracker_inv (env_hash env) (rl_tracker l)"
  shows "\<exists>st l'. reevaluate_device env dev now l = Some (st, l')
    \<and> (\<forall>sid. sessions (env_hash env) (rl_tracker l') sid =
         (if sid \<in> device_sessions (sessions (env_hash env) (rl_tracker l)) dev
          then swept (rl_service l) now (sessions (env_hash env) (rl_tracker l)) sid
          else sessions (env_hash env) (rl_tracker l) sid))
    \<and> examined st = of_nat (card (device_sessions (sessions (env_hash env) (rl_tracker l)) dev))
    \<and> rl_service l' = rl_service l \<and> tracker_inv (env_hash env) (rl_tracker l')"
proof -
  let ?m = "sessions (env_hash env) (rl_tracker l)"
  let ?gs = "sessions_for_device (env_enum env) (rl_tracker l) dev"
  note r = hash_order.sessions_for_device_refines [OF assms]
  obtain sl' where sl': "reevaluate_device env dev now l = Some sl'"
    "after_sweep env now ?gs (sweep_stats_default, l) sl'"
    using process_all_exact [of env "(sweep_stats_default, l)" ?gs now] assms(2) r
    unfolding reevaluate_device_def by auto
  have ids: "gr_session_id ` set ?gs = device_sessions ?m dev"
    unfolding r(1) by (rule keyed_device_ids) (rule tracker.keyed [OF assms(2)])
  have "length ?gs = card (device_sessions ?m dev)" using ids r(2) by (metis distinct_card length_map set_map)
  moreover have "length (kept (rl_service l) now ?gs) + length (dropped (rl_service l) now ?gs) = length ?gs"
    by (simp add: kept_def dropped_def sum_length_filter_compl)
  ultimately have "examined (tallied (env_revoked_send env) (rl_service l) now ?gs (rl_revoked_tx l) sweep_stats_default)
      = of_nat (card (device_sessions ?m dev))"
    by (simp add: examined_def tallied_def sweep_stats_default_def flip: of_nat_add)
  then show ?thesis
    using sl' unfolding after_sweep_def Let_def snd_conv fst_conv ids
    by (cases sl', intro exI [of _ "fst sl'"] exI [of _ "snd sl'"]) simp
qed

theorem reevaluate_device_is_sweep_of_device_witness:
  "\<exists>t0 t st l'. with_shards 4 = Some t0 \<and> run_calls (env_hash demo_env) demo_calls t0 = Some t
    \<and> reevaluate_device demo_env ''laptop-1'' 2000 (demo_loop t) = Some (st, l')
    \<and> sessions (env_hash demo_env) (rl_tracker l') ''s2'' = None"
proof -
  obtain t0 t where t: "with_shards 4 = Some t0" "run_calls (env_hash demo_env) demo_calls t0 = Some t"
    "tracker_inv (env_hash demo_env) t"
    "sessions (env_hash demo_env) t = [''s1'' \<mapsto> demo_grant ''s1'' 1600, ''s2'' \<mapsto> other_grant]"
    using demo_tracker by blast
  obtain st l' where r: "reevaluate_device demo_env ''laptop-1'' 2000 (demo_loop t) = Some (st, l')"
    "sessions (env_hash demo_env) (rl_tracker l') ''s2'' =
       (if ''s2'' \<in> device_sessions (sessions (env_hash demo_env) t) ''laptop-1''
        then swept demo_service 2000 (sessions (env_hash demo_env) t) ''s2''
        else sessions (env_hash demo_env) t ''s2'')"
    using reevaluate_device_is_sweep_of_device [OF demo_order, of "demo_loop t" "''laptop-1''" 2000] t(3)
    by (auto simp: demo_loop_def)
  have "''s2'' \<in> device_sessions (sessions (env_hash demo_env) t) ''laptop-1''"
    by (simp add: t(4) device_sessions_def other_grant_def access_grant_new_def access_request_new_def gr_device_id_def)
  then have "sessions (env_hash demo_env) (rl_tracker l') ''s2'' = None"
    using r(2) demo_swept by (simp add: t(4))
  then show ?thesis using t(1,2) r(1) by blast
qed

section \<open>The driver\<close>

text \<open>
  The driver returns exactly when it is told to stop or its owner is gone, and after every elapsed
  interval until then the store is swept.
\<close>

primrec stops :: "wait_event \<Rightarrow> bool" where
  "stops (IntervalElapsed now) = False"
| "stops (StopChanged b) = b"
| "stops StopSendersDropped = True"

definition sweep_times :: "wait_event list \<Rightarrow> u64 list" where
  "sweep_times es =
     List.map_filter (\<lambda>e. case e of IntervalElapsed now \<Rightarrow> Some now | _ \<Rightarrow> None) (takeWhile (\<lambda>e. \<not> stops e) es)"

lemma run_inner_exact:
  assumes ord: "hash_order (env_enum env)" and inv: "tracker_inv (env_hash env) (rl_tracker l)"
  shows "\<exists>l'. run_inner env stopped es l = Some (stopped \<or> list_ex stops es, l')
    \<and> tracker_inv (env_hash env) (rl_tracker l') \<and> rl_service l' = rl_service l
    \<and> sessions (env_hash env) (rl_tracker l') =
        fold (swept (rl_service l)) (if stopped then [] else sweep_times es) (sessions (env_hash env) (rl_tracker l))"
proof -
  have "\<exists>l'. run_events env es l = Some (list_ex stops es, l')
    \<and> tracker_inv (env_hash env) (rl_tracker l') \<and> rl_service l' = rl_service l
    \<and> sessions (env_hash env) (rl_tracker l') = fold (swept (rl_service l)) (sweep_times es) (sessions (env_hash env) (rl_tracker l))"
    using inv
  proof (induction es arbitrary: l)
    case (Cons e es)
    show ?case
    proof (cases e)
      case (IntervalElapsed now)
      obtain st l1 where l1: "sweep env now l = Some (st, l1)" "tracker_inv (env_hash env) (rl_tracker l1)"
        "rl_service l1 = rl_service l"
        "sessions (env_hash env) (rl_tracker l1) = swept (rl_service l) now (sessions (env_hash env) (rl_tracker l))"
        using sweep_exact [OF ord Cons.prems, of now] by blast
      then show ?thesis
        using Cons.IH [OF l1(2)] IntervalElapsed by (simp add: sweep_times_def List.map_filter_simps)
    next
      case (StopChanged b)
      then show ?thesis using Cons.IH [OF Cons.prems] Cons.prems
        by (cases b) (auto simp: sweep_times_def List.map_filter_simps)
    next
      case StopSendersDropped
      then show ?thesis using Cons.prems by (simp add: sweep_times_def List.map_filter_simps)
    qed
  qed (simp add: sweep_times_def List.map_filter_simps)
  then show ?thesis using inv by (cases stopped) (simp_all add: run_inner_def)
qed

end
