(* ===== verification/Ztna_Continuous.thy ===== *)
theory Ztna_Continuous
  imports Ztna_Reeval
begin

text \<open>
  Continuous access control under concurrency: any number of re-evaluations (full sweeps and device
  re-evaluations of \<open>reeval.rs\<close>) interleaved with the producer that records and removes sessions and
  with arbitrary changes of the service's providers and policy. The atomic steps are the locked
  sections of the tracker and the evaluation of one grant; the verdict of a grant is acted upon in a
  later step than the one that computed it. What was recorded, cloned and revoked is kept as ghost
  history.
\<close>

section \<open>The system\<close>

record 'c worker =
  wk_queue :: "access_grant list"
  wk_judged :: "(access_grant \<times> 'c ztna_service \<times> ztna_reason option) option"
  wk_shards :: "nat list"
  wk_now :: u64
  wk_stats :: sweep_stats
  wk_cloned :: nat



definition idle_worker :: "'c worker" where
  "idle_worker = \<lparr>wk_queue = [], wk_judged = None, wk_shards = [], wk_now = 0,
                  wk_stats = sweep_stats_default, wk_cloned = 0\<rparr>"






section \<open>The invariant\<close>

text \<open>Two versions of a grant that differ in their evaluation stamps only.\<close>

definition same_generation :: "access_grant \<Rightarrow> access_grant \<Rightarrow> bool" where
  "same_generation g h \<longleftrightarrow>
     gr_session_id g = gr_session_id h \<and> gr_tenant_id g = gr_tenant_id h
     \<and> gr_request g = gr_request h \<and> granted_at_ms g = granted_at_ms h"

definition recorded_as :: "access_grant list \<Rightarrow> access_grant \<Rightarrow> bool" where
  "recorded_as gs g \<longleftrightarrow> (\<exists>h\<in>set gs. same_generation h g)"

definition worker_inv :: "('c, 'd) reeval_env \<Rightarrow> access_grant list \<Rightarrow> 'c worker \<Rightarrow> bool" where
  "worker_inv env gs k \<longleftrightarrow>
     (\<forall>g\<in>set (wk_queue k). recorded_as gs g)
     \<and> (\<forall>g svc v. wk_judged k = Some (g, svc, v) \<longrightarrow>
          recorded_as gs g \<and> v = reeval_verdict env svc g (wk_now k))
     \<and> examined (wk_stats k) + of_nat (length (wk_queue k)) + (if wk_judged k = None then 0 else 1)
         = of_nat (wk_cloned k)"



lemma same_generation_refl [simp]: "same_generation g g"
  by (simp add: same_generation_def)





lemma worker_inv_idle [simp]: "worker_inv env gs idle_worker"
  by (simp add: worker_inv_def idle_worker_def examined_def sweep_stats_default_def)






section \<open>What a concurrent revocation may hit\<close>





subsection \<open>An execution\<close>








end
