(* ===== verification/Oidc_Validation.thy ===== *)
theory Oidc_Validation
  imports Oidc_Client
begin

text \<open>
  ID-token validation of \<open>sng-oidc\<close> (\<open>validation.rs\<close>). The JWT library \<open>jsonwebtoken\<close> is a parameter:
  the fields \<open>jwt_env\<close> adds to the outside world, and the locale \<open>jwt_library\<close>, which states what its
  documentation promises of a token that decodes.
\<close>

section \<open>Claims\<close>

record id_token_claims =
  cl_iss :: string
  cl_sub :: string
  cl_aud :: "string list"
  cl_exp :: int
  cl_iat :: "int option"
  cl_nonce :: "string option"
  cl_azp :: "string option"
  cl_email :: "string option"
  cl_name :: "string option"
  cl_groups :: "string list"
  cl_tenant_id :: "string option"
  cl_amr :: "string list"
  cl_acr :: "string option"
  cl_mfa :: "bool option"

definition mfa_amr_factors :: "string list" where
  "mfa_amr_factors = [''mfa'', ''otp'', ''totp'', ''hwk'', ''swk'', ''sms'', ''tel'', ''face'', ''fpt'',
     ''iris'', ''retina'', ''vbm'']"

definition claims_tenant_id :: "id_token_claims \<Rightarrow> string option" where
  "claims_tenant_id c =
     (case cl_tenant_id c of
        None \<Rightarrow> None
      | Some t \<Rightarrow> (let t' = trim t in if t' = [] then None else Some t'))"

definition mfa_satisfied :: "id_token_claims \<Rightarrow> bool" where
  "mfa_satisfied c =
     (if cl_mfa c = Some True then True
      else list_ex (\<lambda>m. list_ex (\<lambda>f. eq_ignore_ascii_case m f) mfa_amr_factors) (cl_amr c))"

section \<open>The token library\<close>

record jwt_header =
  hdr_alg :: algorithm
  hdr_kid :: "string option"

record jwt_validation =
  val_algorithms :: "algorithm list"
  val_issuers :: "string list"
  val_audiences :: "string list"
  val_required_spec_claims :: "string list"
  val_validate_exp :: bool
  val_leeway :: u64

record ('n, 'k) jwt_env = "'n oidc_env" +
  decode_header :: "string \<Rightarrow> string + jwt_header"
  algorithm_from_str :: "string \<Rightarrow> algorithm option"
  from_rsa_components :: "string \<Rightarrow> string \<Rightarrow> string + 'k"
  from_ec_components :: "string \<Rightarrow> string \<Rightarrow> string + 'k"
  jwt_decode :: "'n \<Rightarrow> string \<Rightarrow> 'k \<Rightarrow> jwt_validation \<Rightarrow> string + id_token_claims"

section \<open>The validator\<close>

record id_token_validator =
  vd_issuer :: string
  vd_audience :: string
  vd_expected_nonce :: "string option"
  vd_leeway_secs :: u64

definition default_leeway_secs :: u64 where
  "default_leeway_secs = 60"

definition validator_new :: "string \<Rightarrow> string \<Rightarrow> id_token_validator" where
  "validator_new iss aud =
     \<lparr>vd_issuer = iss, vd_audience = aud, vd_expected_nonce = None, vd_leeway_secs = default_leeway_secs\<rparr>"

definition with_nonce :: "id_token_validator \<Rightarrow> string \<Rightarrow> id_token_validator" where
  "with_nonce v nonce = v\<lparr>vd_expected_nonce := Some nonce\<rparr>"

definition with_leeway_secs :: "id_token_validator \<Rightarrow> u64 \<Rightarrow> id_token_validator" where
  "with_leeway_secs v l = v\<lparr>vd_leeway_secs := l\<rparr>"

definition supported_algorithm :: "algorithm \<Rightarrow> oidc_error + algorithm" where
  "supported_algorithm a =
     (case a of
        OtherAlgorithm _ \<Rightarrow> Inl (ValidationErr (UnsupportedAlgorithm a))
      | _ \<Rightarrow> Inr a)"

definition require_field :: "'a option \<Rightarrow> string \<Rightarrow> oidc_error + 'a" where
  "require_field v msg = (case v of None \<Rightarrow> Inl (ValidationErr (MissingField msg)) | Some x \<Rightarrow> Inr x)"

definition is_rsa :: "algorithm \<Rightarrow> bool" where
  "is_rsa a \<longleftrightarrow> a \<in> {RS256, RS384, RS512}"

definition decoding_key :: "('n, 'k) jwt_env \<Rightarrow> jwk \<Rightarrow> algorithm \<Rightarrow> oidc_error + 'k" where
  "decoding_key env j a =
     (if jwk_kty j = ''RSA'' \<and> is_rsa a
      then and_then (require_field (jwk_n j) ''RSA JWK missing n'')
             (\<lambda>n. and_then (require_field (jwk_e j) ''RSA JWK missing e'')
                (\<lambda>e. map_err JwtErr (from_rsa_components env n e)))
      else if jwk_kty j = ''EC'' \<and> \<not> is_rsa a
      then and_then (require_field (jwk_x j) ''EC JWK missing x'')
             (\<lambda>x. and_then (require_field (jwk_y j) ''EC JWK missing y'')
                (\<lambda>y. map_err JwtErr (from_ec_components env x y)))
      else Inl (ValidationErr (IncompatibleKty (jwk_kty j) a)))"

definition check_nonce :: "id_token_validator \<Rightarrow> id_token_claims \<Rightarrow> oidc_error + unit" where
  "check_nonce v c =
     (if vd_expected_nonce v \<noteq> None \<and> cl_nonce c \<noteq> vd_expected_nonce v
      then Inl (ValidationErr NonceMismatch) else Inr ())"

text \<open>An \<open>i64\<close> is an integer; \<open>saturating_add\<close> stops at its largest value.\<close>

definition i64_max :: int where
  "i64_max = 2 ^ 63 - 1"

definition check_iat :: "int \<Rightarrow> id_token_validator \<Rightarrow> id_token_claims \<Rightarrow> oidc_error + unit" where
  "check_iat now v c =
     (case cl_iat c of
        None \<Rightarrow> Inl (ValidationErr MissingIat)
      | Some iat \<Rightarrow>
          (let leeway = min (uint (vd_leeway_secs v)) i64_max
           in if min (now + leeway) i64_max < iat then Inl (ValidationErr IatInFuture) else Inr ()))"

definition check_azp :: "id_token_validator \<Rightarrow> id_token_claims \<Rightarrow> oidc_error + unit" where
  "check_azp v c =
     (if 1 < length (cl_aud c) \<and> cl_azp c = None then Inl (ValidationErr AzpAbsent)
      else if cl_azp c \<noteq> None \<and> cl_azp c \<noteq> Some (vd_audience v) then Inl (ValidationErr AzpMismatch)
      else Inr ())"

definition check_pinned_alg :: "('n, 'k) jwt_env \<Rightarrow> jwk \<Rightarrow> algorithm \<Rightarrow> oidc_error + unit" where
  "check_pinned_alg env j a =
     (case jwk_alg j of
        None \<Rightarrow> Inr ()
      | Some p \<Rightarrow>
          (case algorithm_from_str env p of
             None \<Rightarrow> Inl (ValidationErr (PinsUnsupportedAlg p))
           | Some pinned \<Rightarrow> if pinned = a then Inr () else Inl (ValidationErr (AlgMismatch p a))))"

definition validation_for :: "id_token_validator \<Rightarrow> algorithm \<Rightarrow> jwt_validation" where
  "validation_for v a =
     \<lparr>val_algorithms = [a], val_issuers = [vd_issuer v], val_audiences = [vd_audience v],
      val_required_spec_claims = [''exp'', ''iss'', ''aud''], val_validate_exp = True,
      val_leeway = vd_leeway_secs v\<rparr>"

definition validate_with_jwks ::
  "('n, 'k) jwt_env \<Rightarrow> id_token_validator \<Rightarrow> string \<Rightarrow> jwks \<Rightarrow> 'n \<Rightarrow> oidc_error + id_token_claims" where
  "validate_with_jwks env v tok keys n =
     and_then (map_err JwtErr (decode_header env tok)) (\<lambda>hdr.
     and_then (supported_algorithm (hdr_alg hdr)) (\<lambda>a.
     and_then (case jwks_select keys (hdr_kid hdr) of
                 None \<Rightarrow> Inl (UnknownSigningKey (hdr_kid hdr)) | Some j \<Rightarrow> Inr j) (\<lambda>j.
     and_then (check_pinned_alg env j a) (\<lambda>_.
     and_then (decoding_key env j a) (\<lambda>key.
     and_then (map_err JwtErr (jwt_decode env n tok key (validation_for v a))) (\<lambda>c.
     and_then (check_nonce v c) (\<lambda>_.
     and_then (check_iat (utc_now env n) v c) (\<lambda>_.
     and_then (check_azp v c) (\<lambda>_. Inr c)))))))))"

definition validate ::
  "('n, 'k) jwt_env \<Rightarrow> id_token_validator \<Rightarrow> string \<Rightarrow> string \<Rightarrow> jwks fetch_client \<Rightarrow> 'n
   \<Rightarrow> (oidc_error + id_token_claims) \<times> jwks fetch_client \<times> 'n" where
  "validate env v tok uri cl n =
     (case jwks_fetch env uri cl n of
        (Inl e, cl1, n1) \<Rightarrow> (Inl e, cl1, n1)
      | (Inr keys, cl1, n1) \<Rightarrow>
          (case validate_with_jwks env v tok keys n1 of
             Inl (UnknownSigningKey _) \<Rightarrow>
               (case jwks_refresh env uri cl1 n1 of
                  (Inl e, cl2, n2) \<Rightarrow> (Inl e, cl2, n2)
                | (Inr refreshed, cl2, n2) \<Rightarrow>
                    (validate_with_jwks env v tok refreshed n2, cl2, n2))
           | other \<Rightarrow> (other, cl1, n1)))"

section \<open>What an accepted token proves\<close>

text \<open>
  The checks of the source as a predicate on the token, the key set and the claims. A token is only
  accepted for an asymmetric algorithm, with a key of the set that its header selects, whose type
  fits that algorithm and whose pinned algorithm, if any, is that one.
\<close>

definition azp_ok :: "string \<Rightarrow> id_token_claims \<Rightarrow> bool" where
  "azp_ok client c \<longleftrightarrow>
     (case cl_azp c of None \<Rightarrow> length (cl_aud c) \<le> 1 | Some azp \<Rightarrow> azp = client)"

definition key_for :: "('n, 'k) jwt_env \<Rightarrow> string \<Rightarrow> jwks \<Rightarrow> algorithm \<Rightarrow> 'k \<Rightarrow> bool" where
  "key_for env tok keys a key \<longleftrightarrow>
     (\<exists>hdr j. decode_header env tok = Inr hdr \<and> hdr_alg hdr = a \<and> (\<nexists>o'. a = OtherAlgorithm o')
        \<and> jwks_select keys (hdr_kid hdr) = Some j
        \<and> (\<forall>p. jwk_alg j = Some p \<longrightarrow> algorithm_from_str env p = Some a)
        \<and> decoding_key env j a = Inr key)"

definition token_valid ::
  "('n, 'k) jwt_env \<Rightarrow> id_token_validator \<Rightarrow> string \<Rightarrow> jwks \<Rightarrow> 'n \<Rightarrow> id_token_claims \<Rightarrow> bool" where
  "token_valid env v tok keys n c \<longleftrightarrow>
     (\<exists>a key. key_for env tok keys a key \<and> jwt_decode env n tok key (validation_for v a) = Inr c)
     \<and> (\<forall>nonce. vd_expected_nonce v = Some nonce \<longrightarrow> cl_nonce c = Some nonce)
     \<and> (\<exists>iat. cl_iat c = Some iat
          \<and> iat \<le> min (utc_now env n + min (uint (vd_leeway_secs v)) i64_max) i64_max)
     \<and> azp_ok (vd_audience v) c"

lemma supported_algorithm_Inr: "supported_algorithm a = Inr b \<longleftrightarrow> b = a \<and> (\<nexists>o'. a = OtherAlgorithm o')"
  by (cases a) (auto simp: supported_algorithm_def)

lemma check_pinned_alg_Inr:
  "check_pinned_alg env j a = Inr u \<longleftrightarrow> (\<forall>p. jwk_alg j = Some p \<longrightarrow> algorithm_from_str env p = Some a)"
  by (auto simp: check_pinned_alg_def split: option.split if_split)

lemma check_nonce_Inr:
  "check_nonce v c = Inr u \<longleftrightarrow> (\<forall>nonce. vd_expected_nonce v = Some nonce \<longrightarrow> cl_nonce c = Some nonce)"
  by (cases "vd_expected_nonce v") (auto simp: check_nonce_def)

lemma check_iat_Inr:
  "check_iat now v c = Inr u \<longleftrightarrow>
     (\<exists>iat. cl_iat c = Some iat \<and> iat \<le> min (now + min (uint (vd_leeway_secs v)) i64_max) i64_max)"
  by (auto simp: check_iat_def Let_def not_less split: option.split)

lemma check_azp_Inr: "check_azp v c = Inr u \<longleftrightarrow> azp_ok (vd_audience v) c"
  by (cases "cl_azp c") (auto simp: check_azp_def azp_ok_def not_less)

lemma select_Inr:
  "(case jwks_select keys kid of None \<Rightarrow> Inl e | Some j \<Rightarrow> Inr j) = Inr j'
   \<longleftrightarrow> jwks_select keys kid = Some j'"
  by (cases "jwks_select keys kid") auto

lemma validate_with_jwks_iff: "validate_with_jwks env v tok keys n = Inr c \<longleftrightarrow> token_valid env v tok keys n c"
  by (auto simp: validate_with_jwks_def and_then_Inr supported_algorithm_Inr check_pinned_alg_Inr
      check_nonce_Inr check_iat_Inr check_azp_Inr select_Inr token_valid_def key_for_def)

lemma and_then_no_Inl:
  assumes "m \<noteq> Inl e" and "\<And>x. m = Inr x \<Longrightarrow> k x \<noteq> Inl e"
  shows "and_then m k \<noteq> Inl e"
  using assms by (cases m) auto

lemma decoding_key_known: "decoding_key env j a \<noteq> Inl (UnknownSigningKey kid)"
  by (auto simp: decoding_key_def and_then_Inl require_field_def split: option.splits if_splits
      elim: map_err.elims)

text \<open>The recoverable error means exactly that the set has no key for the token's header.\<close>

lemma unknown_key_iff:
  "validate_with_jwks env v tok keys n = Inl (UnknownSigningKey kid) \<longleftrightarrow>
     (\<exists>hdr. decode_header env tok = Inr hdr \<and> (\<nexists>o'. hdr_alg hdr = OtherAlgorithm o')
        \<and> hdr_kid hdr = kid \<and> jwks_select keys kid = None)" (is "?l = ?r")
proof (cases "decode_header env tok")
  case (Inr hdr)
  have late: "and_then (check_pinned_alg env j a) (\<lambda>_. and_then (decoding_key env j a) (\<lambda>key.
     and_then (map_err JwtErr (jwt_decode env n tok key (validation_for v a))) (\<lambda>c.
     and_then (check_nonce v c) (\<lambda>_. and_then (check_iat (utc_now env n) v c) (\<lambda>_.
     and_then (check_azp v c) (\<lambda>_. Inr c)))))) \<noteq> Inl (UnknownSigningKey kid)" for j a
    by (intro and_then_no_Inl)
      (auto simp: check_pinned_alg_def decoding_key_known check_nonce_def check_iat_def check_azp_def
        Let_def split: option.split if_split elim: map_err.elims)
  show ?thesis
    using Inr late
    by (cases "hdr_alg hdr"; cases "jwks_select keys (hdr_kid hdr)")
      (auto simp: validate_with_jwks_def supported_algorithm_def)
qed (simp add: validate_with_jwks_def)

lemma validate_ok:
  assumes run: "validate env v tok uri cl n = (r, cl', n')" and ok: "cache_ok (published_at env) cl"
  shows "cache_ok (published_at env) cl' \<and> fc_ttl cl' = fc_ttl cl
         \<and> (\<forall>c. r = Inr c \<longrightarrow> (\<exists>keys. fresh_document env (published_at env) (fc_ttl cl) uri keys n'
              \<and> token_valid env v tok keys n' c))"
proof -
  obtain r1 cl1 n1 where f: "jwks_fetch env uri cl n = (r1, cl1, n1)" by (cases "jwks_fetch env uri cl n")
  note ok1 = jwks_fetch_ok [OF f ok]
  obtain r2 cl2 n2 where g: "jwks_refresh env uri cl1 n1 = (r2, cl2, n2)"
    by (cases "jwks_refresh env uri cl1 n1")
  note ok2 = jwks_refresh_ok [OF g conjunct1 [OF ok1]]
  show ?thesis
  proof (cases r1)
    case (Inr keys)
    show ?thesis
    proof (cases "\<exists>kid. validate_with_jwks env v tok keys n1 = Inl (UnknownSigningKey kid)")
      case True
      then have "(r, cl', n') = (case r2 of Inl e \<Rightarrow> (Inl e, cl2, n2)
          | Inr ks \<Rightarrow> (validate_with_jwks env v tok ks n2, cl2, n2))"
        using run f g Inr by (auto simp: validate_def split: sum.splits)
      then show ?thesis using ok1 ok2 by (auto simp: validate_with_jwks_iff split: sum.splits)
    next
      case False
      then have "(r, cl', n') = (validate_with_jwks env v tok keys n1, cl1, n1)"
        using run f Inr by (auto simp: validate_def split: sum.splits oidc_error.splits)
      then show ?thesis using ok1 Inr by (auto simp: validate_with_jwks_iff)
    qed
  qed (use run f ok1 in \<open>auto simp: validate_def\<close>)
qed

text \<open>
  What the JWT library documents of a token that decodes: its claims are the token's payload, its
  signature verifies under the key with one of the configured algorithms, the issuer and an audience
  are among the configured ones, and it has not expired beyond the leeway.
\<close>

locale jwt_library =
  fixes env :: "('n, 'k) jwt_env"
    and signs :: "'k \<Rightarrow> algorithm \<Rightarrow> string \<Rightarrow> bool"
    and payload :: "string \<Rightarrow> id_token_claims option"
  assumes decodes_payload: "jwt_decode env n tok key w = Inr c \<Longrightarrow> payload tok = Some c"
    and decodes_signed:
      "jwt_decode env n tok key w = Inr c \<Longrightarrow> \<exists>a\<in>set (val_algorithms w). signs key a tok"
    and decodes_issuer: "jwt_decode env n tok key w = Inr c \<Longrightarrow> cl_iss c \<in> set (val_issuers w)"
    and decodes_audience: "jwt_decode env n tok key w = Inr c \<Longrightarrow> set (cl_aud c) \<inter> set (val_audiences w) \<noteq> {}"
    and decodes_unexpired:
      "jwt_decode env n tok key w = Inr c \<Longrightarrow> val_validate_exp w
       \<Longrightarrow> utc_now env n \<le> cl_exp c + uint (val_leeway w)"

definition token_authentic ::
  "('n, 'k) jwt_env \<Rightarrow> ('k \<Rightarrow> algorithm \<Rightarrow> string \<Rightarrow> bool) \<Rightarrow> id_token_validator \<Rightarrow> string \<Rightarrow> jwks \<Rightarrow> 'n
   \<Rightarrow> id_token_claims \<Rightarrow> bool" where
  "token_authentic env signs v tok keys n c \<longleftrightarrow>
     (\<exists>a key. key_for env tok keys a key \<and> signs key a tok)
     \<and> cl_iss c = vd_issuer v \<and> vd_audience v \<in> set (cl_aud c) \<and> azp_ok (vd_audience v) c
     \<and> utc_now env n \<le> cl_exp c + uint (vd_leeway_secs v)"

context jwt_library
begin

lemma valid_authentic:
  assumes "token_valid env v tok keys n c"
  shows "payload tok = Some c \<and> token_authentic env signs v tok keys n c"
proof -
  obtain a key where key: "key_for env tok keys a key"
      and dec: "jwt_decode env n tok key (validation_for v a) = Inr c"
    using assms by (auto simp: token_valid_def)
  show ?thesis
    using key decodes_payload [OF dec] decodes_signed [OF dec] decodes_issuer [OF dec]
      decodes_audience [OF dec] decodes_unexpired [OF dec] assms
    by (auto simp: token_authentic_def token_valid_def validation_for_def)
qed

end

section \<open>Key rotation\<close>

text \<open>
  Claim C33. A key rotation does not break sign-in. When the token's header names a key that the cached
  set does not hold, and the provider now publishes a set under which the token is valid, validation
  returns its claims in that same call, after one refresh that leaves the new set in the cache: the
  next token is checked against it without asking the provider.
\<close>

theorem key_rotation_recovers:
  assumes stale: "cached (instant_now env n) uri cl = (Some old, cl)"
    and miss: "decode_header env tok = Inr hdr" "jwks_select old (hdr_kid hdr) = None"
    and rotated: "http_get env n uri = (Reply st body, n')" "is_success st" "jwks_from_str env body = Inr keys"
    and good: "token_valid env v tok keys n' c"
  shows "\<exists>cl'. validate env v tok uri cl n = (Inr c, cl', n')
           \<and> (fc_ttl cl > 0 \<longrightarrow> jwks_fetch env uri cl' n' = (Inr keys, cl', n'))"
proof -
  let ?cl' = "cache_insert (instant_now env n') uri keys cl"
  have "\<nexists>o'. hdr_alg hdr = OtherAlgorithm o'"
    using good miss(1) by (auto simp: token_valid_def key_for_def)
  then have "validate_with_jwks env v tok old n = Inl (UnknownSigningKey (hdr_kid hdr))"
    unfolding unknown_key_iff using miss by blast
  moreover have "jwks_fetch env uri cl n = (Inr old, cl, n)"
    using stale by (simp add: jwks_fetch_def fetch_or_cached_def)
  moreover have "jwks_refresh env uri cl n = (Inr keys, ?cl', n')"
    using rotated by (simp add: jwks_refresh_def fetch_remote_def fetch_document_def accept_jwks_def)
  moreover have "validate_with_jwks env v tok keys n' = Inr c"
    using good by (simp only: validate_with_jwks_iff)
  ultimately have "validate env v tok uri cl n = (Inr c, ?cl', n')"
    by (simp add: validate_def)
  moreover have "fc_ttl cl > 0 \<longrightarrow> jwks_fetch env uri ?cl' n' = (Inr keys, ?cl', n')"
    by (simp add: jwks_fetch_def fetch_or_cached_def cached_def cache_insert_def)
  ultimately show ?thesis by (intro exI conjI)
qed

text \<open>A provider that publishes one key, then two; its second key signed the sample token.\<close>

definition rsa_key :: "string \<Rightarrow> string \<Rightarrow> jwk" where
  "rsa_key kid n = \<lparr>jwk_kty = ''RSA'', jwk_kid = Some kid, jwk_alg = Some ''RS256'', jwk_n = Some n,
     jwk_e = Some ''AQAB'', jwk_crv = None, jwk_x = None, jwk_y = None\<rparr>"

definition sample_claims :: id_token_claims where
  "sample_claims = \<lparr>cl_iss = ''https://idp'', cl_sub = '' alice'', cl_aud = [''edge''], cl_exp = 2000,
     cl_iat = Some 990, cl_nonce = None, cl_azp = None, cl_email = None, cl_name = None,
     cl_groups = [''eng'', '' ''], cl_tenant_id = Some ''acme'', cl_amr = [''pwd''], cl_acr = None,
     cl_mfa = None\<rparr>"

definition sample_env :: "(nat, string) jwt_env" where
  "sample_env =
     \<lparr>http_get = (\<lambda>n uri. (Reply 200 (if n = 0 then ''one key'' else ''two keys''), Suc n)),
      http_post = (\<lambda>n uri form. (SendFailed ''down'', Suc n)),
      instant_now = id, utc_now = (\<lambda>_. 1000),
      url_parse = (\<lambda>s. Inr \<lparr>url_scheme = ''https'', url_host_str = Some ''idp'', url_query = None,
                       url_fragment = None, url_rest = s\<rparr>),
      metadata_from_str = (\<lambda>_. Inr sample_metadata),
      jwks_from_str = (\<lambda>body. Inr (if body = ''one key'' then [rsa_key ''k1'' ''n1'']
                                  else [rsa_key ''k1'' ''n1'', rsa_key ''k2'' ''n2''])),
      decode_header = (\<lambda>tok. if tok = ''tok'' then Inr \<lparr>hdr_alg = RS256, hdr_kid = Some ''k2''\<rparr>
                            else Inl ''malformed''),
      algorithm_from_str = (\<lambda>s. if s = ''RS256'' then Some RS256 else None),
      from_rsa_components = (\<lambda>n e. Inr n), from_ec_components = (\<lambda>x y. Inl ''unsupported''),
      jwt_decode = (\<lambda>_ tok key w.
        if tok = ''tok'' \<and> key = ''n2'' \<and> RS256 \<in> set (val_algorithms w)
           \<and> ''https://idp'' \<in> set (val_issuers w) \<and> ''edge'' \<in> set (val_audiences w)
           \<and> 1000 \<le> 2000 + uint (val_leeway w)
        then Inr sample_claims else Inl ''rejected'')\<rparr>"

definition sample_signs :: "string \<Rightarrow> algorithm \<Rightarrow> string \<Rightarrow> bool" where
  "sample_signs key a tok \<longleftrightarrow> key = ''n2'' \<and> a = RS256 \<and> tok = ''tok''"

definition sample_payload :: "string \<Rightarrow> id_token_claims option" where
  "sample_payload tok = (if tok = ''tok'' then Some sample_claims else None)"

interpretation sample_jwt: jwt_library sample_env sample_signs sample_payload
  by unfold_locales (auto simp: sample_env_def sample_signs_def sample_payload_def sample_claims_def
      split: if_splits)

definition sample_client :: "jwks fetch_client" where
  "sample_client = cache_insert 1 ''https://idp/k'' [rsa_key ''k1'' ''n1''] (with_client 10)"

definition sample_validator :: id_token_validator where
  "sample_validator = validator_new ''https://idp'' ''edge''"

lemmas sample_defs = sample_env_def sample_claims_def sample_client_def sample_validator_def rsa_key_def

lemma sample_valid:
  "token_valid sample_env sample_validator ''tok'' [rsa_key ''k1'' ''n1'', rsa_key ''k2'' ''n2''] n sample_claims"
  unfolding validate_with_jwks_iff [symmetric]
  by (simp add: sample_defs validate_with_jwks_def supported_algorithm_def jwks_select_def
      check_pinned_alg_def decoding_key_def is_rsa_def require_field_def validation_for_def
      validator_new_def default_leeway_secs_def check_nonce_def check_iat_def check_azp_def i64_max_def)

theorem key_rotation_recovers_witness:
  "\<exists>cl'. validate sample_env sample_validator ''tok'' ''https://idp/k'' sample_client 1
           = (Inr sample_claims, cl', 2)
       \<and> (fc_ttl sample_client > 0
          \<longrightarrow> jwks_fetch sample_env ''https://idp/k'' cl' 2
              = (Inr [rsa_key ''k1'' ''n1'', rsa_key ''k2'' ''n2''], cl', 2))"
  by (rule key_rotation_recovers
        [where old = "[rsa_key ''k1'' ''n1'']" and hdr = "\<lparr>hdr_alg = RS256, hdr_kid = Some ''k2''\<rparr>"
          and st = 200 and body = "''two keys''"])
    (simp_all add: sample_valid,
     simp_all add: sample_defs cached_def cache_insert_def with_client_def jwks_select_def is_success_def)

end
