(* ===== verification/Ztna_Oidc.thy ===== *)
theory Ztna_Oidc
  imports Ztna_Service Oidc_Validation
begin

text \<open>
  From a bearer token to a subject of the access decision (\<open>oidc_identity.rs\<close> of \<open>sng-ztna\<close>): the
  per-tenant provider configurations, the projection of validated claims onto a user identity, and the
  resolver that joins them with the validator of \<open>sng-oidc\<close>.
\<close>

section \<open>The resolver\<close>


definition mfa_instant :: "id_token_claims \<Rightarrow> u64" where
  "mfa_instant c =
     (if mfa_satisfied c
      then case cl_iat c of
             None \<Rightarrow> 0
           | Some secs \<Rightarrow>
               if secs < 0 \<or> 2 ^ 64 \<le> secs then 0
               else if secs * 1000 < 2 ^ 64 then word_of_int secs * 1000 else - 1
      else 0)"

definition identity_from_claims :: "id_token_claims \<Rightarrow> string \<Rightarrow> ztna_error + user_identity" where
  "identity_from_claims c tenant =
     and_then
       (case claims_tenant_id c of
          Some t \<Rightarrow> if t \<noteq> tenant then Inl (ErrTokenRejected (CrossTenantToken t tenant)) else Inr ()
        | None \<Rightarrow> Inr ())
       (\<lambda>_. let sub = trim (cl_sub c)
            in if sub = [] then Inl (ErrTokenRejected EmptySub)
               else Inr \<lparr>usr_user_id = sub, usr_tenant_id = tenant,
                         usr_groups = set (filter (\<lambda>g. g \<noteq> []) (map trim (cl_groups c))),
                         usr_mfa_at_ms = mfa_instant c, usr_tags = Map.empty\<rparr>)"








section \<open>The projection\<close>

lemma identity_from_claims_iff:
  "identity_from_claims c tenant = Inr u \<longleftrightarrow>
     (\<forall>t. claims_tenant_id c = Some t \<longrightarrow> t = tenant) \<and> trim (cl_sub c) \<noteq> []
     \<and> u = \<lparr>usr_user_id = trim (cl_sub c), usr_tenant_id = tenant,
            usr_groups = {g. g \<noteq> [] \<and> g \<in> trim ` set (cl_groups c)},
            usr_mfa_at_ms = mfa_instant c, usr_tags = Map.empty\<rparr>"
proof -
  have "set (filter (\<lambda>g. g \<noteq> []) (map trim (cl_groups c))) = {g. g \<noteq> [] \<and> g \<in> trim ` set (cl_groups c)}"
    by auto
  then show ?thesis
    by (auto simp: identity_from_claims_def and_then_Inr Let_def split: option.split)
qed

text \<open>
  A token that proves no second factor is given the instant zero as its last one, so every
  MFA-freshness check on the subject it resolves to, whatever the tenant, holds exactly while the
  clock has not passed the budget itself.
\<close>

theorem single_factor_fresh_iff:
  assumes "identity_from_claims c tenant = Inr u" and "\<not> mfa_satisfied c"
  shows "mfa_fresh u now budget \<longleftrightarrow> now \<le> budget"
  using assms by (simp add: identity_from_claims_iff mfa_instant_def mfa_fresh_def saturating_sub_def)

lemma unscoped_token_resolves_everywhere:
  assumes "claims_tenant_id c = None" and "trim (cl_sub c) \<noteq> []"
  shows "\<exists>u. identity_from_claims c tenant = Inr u \<and> usr_tenant_id u = tenant"
  using assms by (simp add: identity_from_claims_iff)

section \<open>What a resolved identity rests on\<close>









section \<open>A sign-in\<close>


definition sample_user :: user_identity where
  "sample_user = \<lparr>usr_user_id = ''alice'', usr_tenant_id = ''acme'', usr_groups = {''eng''},
     usr_mfa_at_ms = 0, usr_tags = Map.empty\<rparr>"


lemma sample_not_mfa: "\<not> mfa_satisfied sample_claims"
  by code_simp

lemma sample_identity: "identity_from_claims sample_claims ''acme'' = Inr sample_user"
proof -
  have "claims_tenant_id sample_claims = Some ''acme''" "trim (cl_sub sample_claims) = ''alice''"
      "filter (\<lambda>g. g \<noteq> []) (map trim (cl_groups sample_claims)) = [''eng'']"
    by code_simp+
  moreover have "mfa_instant sample_claims = 0"
    using sample_not_mfa by (simp add: mfa_instant_def)
  ultimately show ?thesis by (simp add: identity_from_claims_def sample_user_def)
qed

theorem single_factor_fresh_iff_witness:
  "mfa_fresh sample_user 5 9 \<and> \<not> mfa_fresh sample_user 10 9"
  using single_factor_fresh_iff [OF sample_identity sample_not_mfa] by simp



end
