(* ===== verification/Ztna_Clientless.thy ===== *)
theory Ztna_Clientless
  imports Ztna_Oidc
begin

unbundle bit_operations_syntax

text \<open>
  Browser access without an agent (\<open>clientless.rs\<close> of \<open>sng-ztna\<close>): the host index, the sharded store of
  browser sessions, the reverse-proxy targets, and the evaluator that joins them with the access
  service. The operating system's random bytes and the calendar of the crate \<open>chrono\<close> are parameters.
\<close>

section \<open>Hosts\<close>

type_synonym host_matcher = "string \<rightharpoonup> string"

definition rebuild_from_apps :: "app list \<Rightarrow> host_matcher" where
  "rebuild_from_apps apps =
     fold (\<lambda>a. fold (\<lambda>p m. m(to_ascii_lowercase p \<mapsto> app_app_id a)) (host_patterns a)) apps Map.empty"

definition match_host :: "host_matcher \<Rightarrow> string \<Rightarrow> string option" where
  "match_host m host = m (to_ascii_lowercase (takeWhile (\<lambda>c. c \<noteq> CHR '':'') host))"

section \<open>Sessions\<close>

definition default_session_ttl_ms :: u64 where
  "default_session_ttl_ms = 8 * 60 * 60 * 1000"

definition default_session_shards :: nat where
  "default_session_shards = 16"

record clientless_session =
  cls_session_id :: string
  cls_tenant_id :: string
  cls_app_id :: string
  cls_identity :: user_identity
  cls_created_at_ms :: u64
  cls_expires_at_ms :: u64
  cls_source_ip :: "string option"
  cls_network_type :: "network_type option"

definition is_expired :: "clientless_session \<Rightarrow> u64 \<Rightarrow> bool" where
  "is_expired s now \<longleftrightarrow> cls_expires_at_ms s \<le> now"

definition to_access_request :: "clientless_session \<Rightarrow> u64 \<Rightarrow> access_request" where
  "to_access_request s now =
     with_network
       (access_request_new (cls_app_id s) (''clientless:'' @ cls_session_id s)
          (usr_user_id (cls_identity s)) now)
       (cls_source_ip s) None (cls_network_type s)"

record clientless_session_store =
  store_shards :: "(string \<rightharpoonup> clientless_session) list"
  store_ttl_ms :: u64

definition with_ttl_and_shards :: "u64 \<Rightarrow> nat \<Rightarrow> clientless_session_store" where
  "with_ttl_and_shards ttl n = \<lparr>store_shards = replicate (max n 1) Map.empty, store_ttl_ms = ttl\<rparr>"

definition session_store_new :: clientless_session_store where
  "session_store_new = with_ttl_and_shards default_session_ttl_ms default_session_shards"

text \<open>FNV-1a over the bytes of the key; \<open>usize\<close> has 64 bits.\<close>

definition fnv1a :: "string \<Rightarrow> u64" where
  "fnv1a key = foldl (\<lambda>h b. (h XOR of_char b) * 0x100000001b3) 0xcbf29ce484222325 key"

definition session_shard_index :: "clientless_session_store \<Rightarrow> string \<Rightarrow> nat" where
  "session_shard_index st key = unat (fnv1a key AND (of_nat (length (store_shards st)) - 1))"

definition put_shard ::
  "nat \<Rightarrow> (string \<rightharpoonup> clientless_session) \<Rightarrow> clientless_session_store \<Rightarrow> clientless_session_store" where
  "put_shard i m st = st\<lparr>store_shards := (store_shards st)[i := m]\<rparr>"

definition session_insert ::
  "clientless_session \<Rightarrow> clientless_session_store \<Rightarrow> clientless_session option \<times> clientless_session_store" where
  "session_insert s st =
     (let i = session_shard_index st (cls_session_id s); m = store_shards st ! i
      in (m (cls_session_id s), put_shard i (m(cls_session_id s \<mapsto> s)) st))"

definition session_lookup ::
  "string \<Rightarrow> u64 \<Rightarrow> clientless_session_store \<Rightarrow> clientless_session option \<times> clientless_session_store" where
  "session_lookup sid now st =
     (let i = session_shard_index st sid; m = store_shards st ! i;
          expired = (case m sid of Some s \<Rightarrow> is_expired s now | None \<Rightarrow> False)
      in if expired then (None, put_shard i (m(sid := None)) st) else (m sid, st))"

definition session_remove ::
  "string \<Rightarrow> clientless_session_store \<Rightarrow> clientless_session option \<times> clientless_session_store" where
  "session_remove sid st =
     (let i = session_shard_index st sid; m = store_shards st ! i
      in (m sid, put_shard i (m(sid := None)) st))"

definition session_store_len :: "clientless_session_store \<Rightarrow> nat" where
  "session_store_len st = sum_list (map (\<lambda>m. card (dom m)) (store_shards st))"

definition session_store_is_empty :: "clientless_session_store \<Rightarrow> bool" where
  "session_store_is_empty st \<longleftrightarrow> session_store_len st = 0"

definition expired_ids :: "u64 \<Rightarrow> (string \<rightharpoonup> clientless_session) \<Rightarrow> string set" where
  "expired_ids now m = {sid. \<exists>s. m sid = Some s \<and> is_expired s now}"

definition purge_expired :: "u64 \<Rightarrow> clientless_session_store \<Rightarrow> nat \<times> clientless_session_store" where
  "purge_expired now st =
     (sum_list (map (\<lambda>m. card (expired_ids now m)) (store_shards st)),
      st\<lparr>store_shards := map (\<lambda>m. m |` (- expired_ids now m)) (store_shards st)\<rparr>)"

definition generate_session_id :: "u8 list \<Rightarrow> string" where
  "generate_session_id bs = concat (map (\<lambda>b. [hex_digit (unat b div 16), hex_digit (unat b mod 16)]) bs)"

section \<open>Targets\<close>

record proxy_target =
  pt_app_id :: string
  backend_url :: string
  strip_path_prefix :: string
  pass_identity_headers :: bool

definition install_targets_table :: "proxy_target list \<Rightarrow> (string \<rightharpoonup> proxy_target)" where
  "install_targets_table ts = index_by pt_app_id ts"

section \<open>The evaluator\<close>

datatype clientless_outcome =
    ClAllow proxy_target ztna_decision clientless_session
  | ClDeny ztna_decision
  | RedirectToIdp string
  | HostNotFound

record 'c clientless_evaluator =
  ev_hosts :: host_matcher
  ev_sessions :: clientless_session_store
  ev_targets :: "string \<rightharpoonup> proxy_target"
  ev_service :: "'c ztna_service"
  ev_idp_authorize_url :: string

definition evaluator_new :: "'c ztna_service \<Rightarrow> string \<Rightarrow> 'c clientless_evaluator" where
  "evaluator_new svc url =
     \<lparr>ev_hosts = Map.empty, ev_sessions = session_store_new, ev_targets = Map.empty,
      ev_service = svc, ev_idp_authorize_url = url\<rparr>"

definition rebuild_hosts :: "app list \<Rightarrow> 'c clientless_evaluator \<Rightarrow> 'c clientless_evaluator" where
  "rebuild_hosts apps ev = ev\<lparr>ev_hosts := rebuild_from_apps apps\<rparr>"

definition install_targets :: "proxy_target list \<Rightarrow> 'c clientless_evaluator \<Rightarrow> 'c clientless_evaluator" where
  "install_targets ts ev = ev\<lparr>ev_targets := install_targets_table ts\<rparr>"

definition is_unreserved :: "char \<Rightarrow> bool" where
  "is_unreserved c \<longleftrightarrow>
     (let n = of_char c :: nat
      in 65 \<le> n \<and> n \<le> 90 \<or> 97 \<le> n \<and> n \<le> 122 \<or> 48 \<le> n \<and> n \<le> 57
         \<or> c \<in> {CHR ''-'', CHR ''.'', CHR ''_'', CHR ''~''})"

definition url_encode :: "string \<Rightarrow> string" where
  "url_encode s =
     concat (map (\<lambda>b. if is_unreserved b then [b]
        else [CHR ''%'', upper_hex_digit (of_char b div 16), upper_hex_digit (of_char b mod 16)]) s)"

text \<open>\<open>str::replace\<close> with a non-empty pattern.\<close>

function str_replace :: "string \<Rightarrow> string \<Rightarrow> string \<Rightarrow> string" where
  "str_replace p new [] = []"
| "str_replace p new (c # s) =
     (if p \<noteq> [] \<and> take (length p) (c # s) = p then new @ str_replace p new (drop (length p) (c # s))
      else c # str_replace p new s)"
  by pat_completeness auto
termination by (relation "measure (\<lambda>(p, new, s). length s)") auto

definition clientless_evaluate ::
  "'c ztna_send \<Rightarrow> string \<Rightarrow> string option \<Rightarrow> u64 \<Rightarrow> string \<Rightarrow> 'c clientless_evaluator
   \<Rightarrow> clientless_outcome \<times> 'c clientless_evaluator" where
  "clientless_evaluate try_send host cookie now redirect_uri ev =
     (case match_host (ev_hosts ev) host of
        None \<Rightarrow> (HostNotFound, ev)
      | Some app_id \<Rightarrow>
          (let (found, st) = (case cookie of
                 None \<Rightarrow> (None, ev_sessions ev)
               | Some sid \<Rightarrow> session_lookup sid now (ev_sessions ev));
               ev1 = ev\<lparr>ev_sessions := st\<rparr>;
               session = (case found of Some s \<Rightarrow> if cls_app_id s = app_id then Some s else None
                          | None \<Rightarrow> None)
           in case session of
                None \<Rightarrow>
                  (RedirectToIdp (str_replace ''{redirect_uri}'' (url_encode redirect_uri)
                     (ev_idp_authorize_url ev)), ev1)
              | Some s \<Rightarrow>
                  (let (r, svc') = ztna_evaluate try_send (to_access_request s now) (ev_service ev1);
                       ev2 = ev1\<lparr>ev_service := svc'\<rparr>
                   in case r of
                        Inl e \<Rightarrow> (ClDeny \<lparr>allow = False, reason = as_decision_reason e,
                                    posture_outcome = PostureNotEvaluated\<rparr>, ev2)
                      | Inr d \<Rightarrow>
                          if \<not> allow d
                          then (ClDeny d, ev2\<lparr>ev_sessions :=
                                  snd (session_remove (cls_session_id s) (ev_sessions ev2))\<rparr>)
                          else case ev_targets ev2 app_id of
                                 Some t \<Rightarrow> (ClAllow t d s, ev2)
                               | None \<Rightarrow> (HostNotFound, ev2))))"

text \<open>The random bytes are an argument; the sum wraps as in a release build.\<close>

definition create_session ::
  "u8 list \<Rightarrow> string \<Rightarrow> string \<Rightarrow> user_identity \<Rightarrow> u64 \<Rightarrow> string option \<Rightarrow> network_type option
   \<Rightarrow> 'c clientless_evaluator \<Rightarrow> clientless_session \<times> 'c clientless_evaluator" where
  "create_session bs tenant app identity now ip nt ev =
     (let s = \<lparr>cls_session_id = generate_session_id bs, cls_tenant_id = tenant, cls_app_id = app,
               cls_identity = identity, cls_created_at_ms = now,
               cls_expires_at_ms = now + store_ttl_ms (ev_sessions ev),
               cls_source_ip = ip, cls_network_type = nt\<rparr>
      in (s, ev\<lparr>ev_sessions := snd (session_insert s (ev_sessions ev))\<rparr>))"

definition logout ::
  "string \<Rightarrow> 'c clientless_evaluator \<Rightarrow> clientless_session option \<times> 'c clientless_evaluator" where
  "logout sid ev =
     (let (s, st) = session_remove sid (ev_sessions ev) in (s, ev\<lparr>ev_sessions := st\<rparr>))"

definition evaluator_purge_expired :: "u64 \<Rightarrow> 'c clientless_evaluator \<Rightarrow> nat \<times> 'c clientless_evaluator" where
  "evaluator_purge_expired now ev =
     (let (n, st) = purge_expired now (ev_sessions ev) in (n, ev\<lparr>ev_sessions := st\<rparr>))"

definition render_set_cookie :: "(u64 \<Rightarrow> string) \<Rightarrow> clientless_session \<Rightarrow> string \<Rightarrow> string" where
  "render_set_cookie ms_to_http_date s name =
     name @ ''='' @ cls_session_id s @ ''; Path=/; HttpOnly; Secure; SameSite=Strict; Expires=''
     @ ms_to_http_date (cls_expires_at_ms s)"

definition render_clear_cookie :: "string \<Rightarrow> string" where
  "render_clear_cookie name =
     name @ ''=; Path=/; HttpOnly; Secure; SameSite=Strict; Expires=Thu, 01 Jan 1970 00:00:00 GMT''"

section \<open>The store as one map\<close>

text \<open>A key is only ever in the shard its hash selects, so the shards read as one flat map.\<close>

definition store_inv :: "clientless_session_store \<Rightarrow> bool" where
  "store_inv st \<longleftrightarrow>
     0 < length (store_shards st) \<and> length (store_shards st) \<le> 2 ^ 63
     \<and> (\<forall>i<length (store_shards st). \<forall>sid s. (store_shards st ! i) sid = Some s
          \<longrightarrow> session_shard_index st sid = i \<and> cls_session_id s = sid)
     \<and> (\<forall>m\<in>set (store_shards st). finite (dom m))"

definition stored :: "clientless_session_store \<Rightarrow> (string \<rightharpoonup> clientless_session)" where
  "stored st sid = (store_shards st ! session_shard_index st sid) sid"

lemma session_shard_index_less:
  assumes "store_inv st"
  shows "session_shard_index st key < length (store_shards st)"
proof -
  let ?n = "length (store_shards st)"
  have n: "0 < ?n" "?n < 2 ^ 64" using assms by (auto simp: store_inv_def)
  have pred: "(of_nat ?n - 1 :: u64) = of_nat (?n - 1)" using n(1) by (simp add: of_nat_diff Suc_le_eq)
  have "unat (of_nat ?n - 1 :: u64) = ?n - 1" unfolding pred using n by (intro unat_of_nat_less) simp
  moreover have "unat (fnv1a key AND (of_nat ?n - 1)) \<le> unat (of_nat ?n - 1 :: u64)"
    by (rule word_and_le1 [THEN word_le_nat_alt [THEN iffD1]])
  ultimately show ?thesis using n(1) unfolding session_shard_index_def by linarith
qed

lemma put_shard_index [simp]: "session_shard_index (put_shard i m st) = session_shard_index st"
  by (simp add: session_shard_index_def put_shard_def fun_eq_iff)

lemma put_shard_shards [simp]: "store_shards (put_shard i m st) = (store_shards st)[i := m]"
  by (simp add: put_shard_def)

lemma put_shard_ttl [simp]: "store_ttl_ms (put_shard i m st) = store_ttl_ms st"
  by (simp add: put_shard_def)

lemma put_shard_inv:
  assumes inv: "store_inv st" and i: "i < length (store_shards st)" and fin: "finite (dom m)"
    and m: "\<And>sid s. m sid = Some s \<Longrightarrow> session_shard_index st sid = i \<and> cls_session_id s = sid"
  shows "store_inv (put_shard i m st)"
proof -
  have "session_shard_index st sid = j \<and> cls_session_id s = sid"
    if "j < length (store_shards st)" "((store_shards st)[i := m] ! j) sid = Some s" for j sid s
    using that inv m i by (cases "j = i") (simp_all add: store_inv_def)
  moreover have "finite (dom m')" if "m' \<in> set ((store_shards st)[i := m])" for m'
    using that inv fin set_update_subset_insert [of "store_shards st" i m] by (auto simp: store_inv_def)
  ultimately show ?thesis using inv by (simp add: store_inv_def)
qed

lemma stored_put_shard:
  assumes "store_inv st"
  shows "stored (put_shard i m st) sid = (if session_shard_index st sid = i then m sid else stored st sid)"
  using session_shard_index_less [OF assms, of sid] by (cases "session_shard_index st sid = i") (simp_all add: stored_def)

lemma stored_id:
  assumes "store_inv st" and "stored st sid = Some s"
  shows "cls_session_id s = sid"
  using assms session_shard_index_less [OF assms(1), of sid] unfolding store_inv_def stored_def by blast

text \<open>The contract of a session store: insertion, lookup with expiry, removal and purge on one map.\<close>

locale session_store =
  fixes inv :: "'st \<Rightarrow> bool" and content :: "'st \<Rightarrow> (string \<rightharpoonup> clientless_session)"
    and insert_op :: "clientless_session \<Rightarrow> 'st \<Rightarrow> clientless_session option \<times> 'st"
    and lookup_op :: "string \<Rightarrow> u64 \<Rightarrow> 'st \<Rightarrow> clientless_session option \<times> 'st"
    and remove_op :: "string \<Rightarrow> 'st \<Rightarrow> clientless_session option \<times> 'st"
    and purge_op :: "u64 \<Rightarrow> 'st \<Rightarrow> nat \<times> 'st"
  assumes content_id: "inv st \<Longrightarrow> content st sid = Some s \<Longrightarrow> cls_session_id s = sid"
    and insert_ok: "inv st \<Longrightarrow> insert_op s st = (r, st') \<Longrightarrow>
      inv st' \<and> r = content st (cls_session_id s) \<and> content st' = (content st)(cls_session_id s \<mapsto> s)"
    and lookup_ok: "inv st \<Longrightarrow> lookup_op sid now st = (r, st') \<Longrightarrow>
      inv st' \<and> (if sid \<in> expired_ids now (content st)
                 then r = None \<and> content st' = (content st)(sid := None)
                 else r = content st sid \<and> content st' = content st)"
    and remove_ok: "inv st \<Longrightarrow> remove_op sid st = (r, st') \<Longrightarrow>
      inv st' \<and> r = content st sid \<and> content st' = (content st)(sid := None)"
    and purge_ok: "inv st \<Longrightarrow> purge_op now st = (n, st') \<Longrightarrow>
      inv st' \<and> n = card (expired_ids now (content st))
      \<and> content st' = content st |` (- expired_ids now (content st))"
begin

text \<open>An expired session is never handed out, and what is handed out is what was inserted.\<close>

lemma lookup_live:
  assumes "inv st" "lookup_op sid now st = (Some s, st')"
  shows "content st sid = Some s \<and> \<not> is_expired s now \<and> cls_session_id s = sid \<and> content st' = content st"
  using lookup_ok [OF assms] content_id [OF assms(1)]
  by (auto simp: expired_ids_def split: if_splits)

lemma lookup_shrinks:
  assumes "inv st" "lookup_op sid now st = (r, st')"
  shows "content st' \<subseteq>\<^sub>m content st"
  using lookup_ok [OF assms] by (auto simp: map_le_def split: if_splits)

end

lemma shard_finite: "store_inv st \<Longrightarrow> finite (dom (store_shards st ! session_shard_index st sid))"
  using session_shard_index_less [of st sid] by (simp add: store_inv_def)

lemma shard_entry:
  assumes "store_inv st" and "(store_shards st ! session_shard_index st sid) k = Some s"
  shows "session_shard_index st k = session_shard_index st sid \<and> cls_session_id s = k"
  using assms session_shard_index_less [OF assms(1), of sid] unfolding store_inv_def by blast

lemma session_insert_ok:
  assumes "store_inv st" and "session_insert s st = (r, st')"
  shows "store_inv st' \<and> r = stored st (cls_session_id s) \<and> stored st' = (stored st)(cls_session_id s \<mapsto> s)"
proof -
  let ?i = "session_shard_index st (cls_session_id s)"
  have st': "st' = put_shard ?i ((store_shards st ! ?i)(cls_session_id s \<mapsto> s)) st" and "r = stored st (cls_session_id s)"
    using assms(2) by (simp_all add: session_insert_def Let_def stored_def)
  moreover have "store_inv st'"
    unfolding st' by (rule put_shard_inv [OF assms(1) session_shard_index_less [OF assms(1)]])
      (use shard_entry [OF assms(1)] shard_finite [OF assms(1)] in \<open>auto split: if_splits\<close>)
  moreover have "stored st' = (stored st)(cls_session_id s \<mapsto> s)"
    unfolding st' by (rule ext) (simp add: stored_put_shard [OF assms(1)] stored_def [of st])
  ultimately show ?thesis by blast
qed

definition delete_shard :: "string \<Rightarrow> clientless_session_store \<Rightarrow> clientless_session_store" where
  "delete_shard sid st =
     put_shard (session_shard_index st sid) ((store_shards st ! session_shard_index st sid)(sid := None)) st"

lemma delete_shard_ok:
  assumes "store_inv st"
  shows "store_inv (delete_shard sid st) \<and> stored (delete_shard sid st) = (stored st)(sid := None)"
proof
  show "store_inv (delete_shard sid st)"
    unfolding delete_shard_def
    by (rule put_shard_inv [OF assms session_shard_index_less [OF assms]])
      (use shard_entry [OF assms] shard_finite [OF assms] in \<open>simp_all split: if_splits\<close>)
  show "stored (delete_shard sid st) = (stored st)(sid := None)"
    unfolding delete_shard_def
    by (rule ext) (simp add: stored_put_shard [OF assms] stored_def [of st])
qed

lemma session_remove_eq: "session_remove sid st = (stored st sid, delete_shard sid st)"
  by (simp add: session_remove_def Let_def stored_def delete_shard_def)

lemma session_lookup_eq:
  "session_lookup sid now st =
     (if sid \<in> expired_ids now (stored st) then (None, delete_shard sid st) else (stored st sid, st))"
  by (cases "stored st sid")
    (auto simp: session_lookup_def Let_def stored_def delete_shard_def expired_ids_def)

lemma session_remove_ok:
  assumes "store_inv st" and "session_remove sid st = (r, st')"
  shows "store_inv st' \<and> r = stored st sid \<and> stored st' = (stored st)(sid := None)"
  using assms(2) delete_shard_ok [OF assms(1), of sid] by (auto simp: session_remove_eq)

lemma session_lookup_ok:
  assumes "store_inv st" and "session_lookup sid now st = (r, st')"
  shows "store_inv st' \<and> (if sid \<in> expired_ids now (stored st)
           then r = None \<and> stored st' = (stored st)(sid := None)
           else r = stored st sid \<and> stored st' = stored st)"
  using assms delete_shard_ok [OF assms(1), of sid]
  by (auto simp: session_lookup_eq split: if_splits)

lemma session_shard_index_map [simp]:
  "session_shard_index (st\<lparr>store_shards := map f (store_shards st)\<rparr>) = session_shard_index st"
  by (simp add: session_shard_index_def fun_eq_iff)

lemma purge_expired_stored:
  assumes "store_inv st"
  shows "stored (snd (purge_expired now st)) = stored st |` (- expired_ids now (stored st))"
  using session_shard_index_less [OF assms]
  by (auto simp: fun_eq_iff stored_def purge_expired_def restrict_map_def expired_ids_def)

lemma restrict_eq_Some: "(m |` A) k = Some v \<longleftrightarrow> k \<in> A \<and> m k = Some v"
  by (simp add: restrict_map_def)

lemma purge_expired_inv: "store_inv st \<Longrightarrow> store_inv (snd (purge_expired now st))"
  by (auto simp: store_inv_def purge_expired_def restrict_eq_Some)

text \<open>The shards partition the expired sessions, so the count of the purge is the count of the map.\<close>

lemma purge_expired_count:
  assumes "store_inv st"
  shows "fst (purge_expired now st) = card (expired_ids now (stored st))"
proof -
  let ?E = "\<lambda>i. expired_ids now (store_shards st ! i)" and ?n = "length (store_shards st)"
  have own: "session_shard_index st sid = i" if "sid \<in> ?E i" "i < ?n" for i sid
    using assms that by (auto simp: expired_ids_def store_inv_def)
  have "expired_ids now (stored st) = (\<Union>i<?n. ?E i)"
    using own session_shard_index_less [OF assms] by (auto simp: expired_ids_def stored_def)
  moreover have "card (\<Union>i<?n. ?E i) = (\<Sum>i<?n. card (?E i))"
  proof (rule card_UN_disjoint)
    have "finite (?E i)" if "i < ?n" for i
    proof (rule finite_subset)
      show "?E i \<subseteq> dom (store_shards st ! i)" by (auto simp: expired_ids_def)
      show "finite (dom (store_shards st ! i))" using assms that by (simp add: store_inv_def)
    qed
    then show "\<forall>i\<in>{..<?n}. finite (?E i)" by blast
    show "\<forall>i\<in>{..<?n}. \<forall>j\<in>{..<?n}. i \<noteq> j \<longrightarrow> ?E i \<inter> ?E j = {}" using own by (metis disjoint_iff lessThan_iff)
  qed simp
  moreover have "(\<Sum>i<?n. card (?E i)) = sum_list (map (\<lambda>m. card (expired_ids now m)) (store_shards st))"
    by (simp add: sum_list_sum_nth atLeast0LessThan)
  ultimately show ?thesis by (simp add: purge_expired_def)
qed

interpretation browser_sessions:
  session_store store_inv stored session_insert session_lookup session_remove purge_expired
proof
  fix st now n st' assume "store_inv st" "purge_expired now st = (n, st')"
  then show "store_inv st' \<and> n = card (expired_ids now (stored st))
      \<and> stored st' = stored st |` (- expired_ids now (stored st))"
    using purge_expired_inv [of st now] purge_expired_count [of st now] purge_expired_stored [of st now]
    by simp
qed (fact stored_id session_insert_ok session_lookup_ok session_remove_ok)+

section \<open>Who gets through\<close>

definition live_session :: "'c clientless_evaluator \<Rightarrow> string option \<Rightarrow> u64 \<Rightarrow> string \<Rightarrow> clientless_session option" where
  "live_session ev cookie now app_id =
     (case cookie of
        None \<Rightarrow> None
      | Some sid \<Rightarrow>
          (case stored (ev_sessions ev) sid of
             None \<Rightarrow> None
           | Some s \<Rightarrow> if is_expired s now \<or> cls_app_id s \<noteq> app_id then None else Some s))"

text \<open>The evaluation with the store read as one map; the session part of the state is given apart.\<close>

definition session_after ::
  "'c ztna_send \<Rightarrow> string \<Rightarrow> string option \<Rightarrow> u64 \<Rightarrow> 'c clientless_evaluator \<Rightarrow> (string \<rightharpoonup> clientless_session)" where
  "session_after try_send host cookie now ev =
     (let m = stored (ev_sessions ev)
      in case (match_host (ev_hosts ev) host, cookie) of
           (Some app_id, Some sid) \<Rightarrow>
             if sid \<in> expired_ids now m
                \<or> (\<exists>s d. m sid = Some s \<and> cls_app_id s = app_id \<and> \<not> allow d
                       \<and> fst (ztna_evaluate try_send (to_access_request s now) (ev_service ev)) = Inr d)
             then m(sid := None) else m
         | _ \<Rightarrow> m)"

lemma clientless_evaluate_sessions:
  assumes "store_inv (ev_sessions ev)"
    and "clientless_evaluate try_send host cookie now uri ev = (out, ev')"
  shows "store_inv (ev_sessions ev') \<and> stored (ev_sessions ev') = session_after try_send host cookie now ev"
proof (cases "match_host (ev_hosts ev) host")
  case (Some app_id)
  show ?thesis
  proof (cases cookie)
    case (Some sid)
    obtain r st where look: "session_lookup sid now (ev_sessions ev) = (r, st)" by fastforce
    note ok = session_lookup_ok [OF assms(1) look]
    show ?thesis
    proof (cases "sid \<in> expired_ids now (stored (ev_sessions ev)) \<or> (\<forall>s. r = Some s \<longrightarrow> cls_app_id s \<noteq> app_id)")
      case True
      then show ?thesis
        using assms(2) look ok Some \<open>match_host (ev_hosts ev) host = Some app_id\<close>
        by (auto simp: clientless_evaluate_def session_after_def split: option.splits if_splits)
    next
      case False
      then obtain s where s: "r = Some s" "cls_app_id s = app_id" "stored (ev_sessions ev) sid = Some s"
          "stored st = stored (ev_sessions ev)" "sid \<notin> expired_ids now (stored (ev_sessions ev))" "store_inv st"
        using ok by auto
      obtain v svc where v: "ztna_evaluate try_send (to_access_request s now) (ev_service ev) = (v, svc)" by fastforce
      have id: "cls_session_id s = sid" using stored_id [OF assms(1) s(3)] .
      obtain q st2 where rem: "session_remove sid st = (q, st2)" by fastforce
      note gone = session_remove_ok [OF s(6) rem]
      show ?thesis
        using assms(2) look Some \<open>match_host (ev_hosts ev) host = Some app_id\<close> s v id rem gone
        by (auto simp: clientless_evaluate_def session_after_def Let_def
            split: sum.splits if_splits option.splits)
    qed
  qed (use assms Some in \<open>auto simp: clientless_evaluate_def session_after_def\<close>)
qed (use assms in \<open>auto simp: clientless_evaluate_def session_after_def\<close>)

lemma first_failure_allowed: "allow (first_failure gs) \<Longrightarrow> first_failure gs = decision_allow"
  by (induction gs) (auto simp: decision_deny_def split: if_splits)

lemma ztna_evaluate_allow:
  "(fst (ztna_evaluate try_send req svc) = Inr d \<and> allow d) \<longleftrightarrow> authorised svc req \<and> d = decision_allow"
proof -
  have res: "fst (ztna_evaluate try_send req svc) = map_sum id out_decision (verdict svc req)"
    by (simp add: ztna_evaluate_def evaluate_reported_eq)
  have only: "d' = decision_allow" if "map_sum id out_decision (verdict svc req) = Inr d'" "allow d'" for d'
    using that by (auto simp: verdict_def decision_deny_def evaluate_policy_gates first_failure_allowed
        split: option.splits if_splits)
  have "authorised svc req \<longleftrightarrow> (\<exists>d. map_sum id out_decision (verdict svc req) = Inr d \<and> allow d)"
    unfolding verdict_allows_iff [symmetric] by (cases "verdict svc req") (auto simp: verdict_allows_def)
  moreover have "allow decision_allow" by (simp add: decision_allow_def)
  ultimately show ?thesis unfolding res using only by blast
qed

lemma clientless_allow_iff:
  assumes "store_inv (ev_sessions ev)"
  shows "fst (clientless_evaluate try_send host cookie now uri ev) = ClAllow t d s \<longleftrightarrow>
     (\<exists>app_id. match_host (ev_hosts ev) host = Some app_id
        \<and> live_session ev cookie now app_id = Some s
        \<and> authorised (ev_service ev) (to_access_request s now) \<and> d = decision_allow
        \<and> ev_targets ev app_id = Some t)" (is "?l \<longleftrightarrow> ?r")
proof (cases "match_host (ev_hosts ev) host")
  case (Some app_id)
  show ?thesis
  proof (cases "live_session ev cookie now app_id")
    case None
    then show ?thesis
      using Some
      by (auto simp: clientless_evaluate_def live_session_def session_lookup_eq expired_ids_def
          split: option.splits if_splits)
  next
    case (Some s')
    obtain v svc where v: "ztna_evaluate try_send (to_access_request s' now) (ev_service ev) = (v, svc)" by fastforce
    have "fst (clientless_evaluate try_send host cookie now uri ev) = ClAllow t d s \<longleftrightarrow>
        s = s' \<and> v = Inr d \<and> allow d \<and> ev_targets ev app_id = Some t"
      using Some v \<open>match_host (ev_hosts ev) host = Some app_id\<close>
      by (auto simp: clientless_evaluate_def live_session_def session_lookup_eq expired_ids_def Let_def
          split: option.splits if_splits sum.splits)
    then show ?thesis
      using Some v \<open>match_host (ev_hosts ev) host = Some app_id\<close>
        ztna_evaluate_allow [of try_send "to_access_request s' now" "ev_service ev" d]
      by auto
  qed
qed (simp add: clientless_evaluate_def)

lemma live_session_Some:
  "live_session ev cookie now app_id = Some s \<longleftrightarrow>
     (\<exists>sid. cookie = Some sid \<and> stored (ev_sessions ev) sid = Some s \<and> \<not> is_expired s now \<and> cls_app_id s = app_id)"
  by (auto simp: live_session_def split: option.split)

section \<open>Every run of the evaluator\<close>

text \<open>
  The calls of the edge, in any order and with any arguments; \<open>CallService\<close> is whatever other tasks do to
  the shared access service in between.
\<close>

datatype 'c clientless_call =
    CallEvaluate string "string option" u64 string
  | CallCreate "u8 list" string string user_identity u64 "string option" "network_type option"
  | CallLogout string
  | CallPurge u64
  | CallHosts "app list"
  | CallTargets "proxy_target list"
  | CallService "'c ztna_service"

fun run_clientless_call ::
  "'c ztna_send \<Rightarrow> 'c clientless_call \<Rightarrow> 'c clientless_evaluator \<Rightarrow> clientless_outcome option \<times> 'c clientless_evaluator" where
  "run_clientless_call try_send (CallEvaluate host cookie now uri) ev =
     (let (out, ev') = clientless_evaluate try_send host cookie now uri ev in (Some out, ev'))"
| "run_clientless_call try_send (CallCreate bs t a i now ip nt) ev = (None, snd (create_session bs t a i now ip nt ev))"
| "run_clientless_call try_send (CallLogout sid) ev = (None, snd (logout sid ev))"
| "run_clientless_call try_send (CallPurge now) ev = (None, snd (evaluator_purge_expired now ev))"
| "run_clientless_call try_send (CallHosts apps) ev = (None, rebuild_hosts apps ev)"
| "run_clientless_call try_send (CallTargets ts) ev = (None, install_targets ts ev)"
| "run_clientless_call try_send (CallService svc) ev = (None, ev\<lparr>ev_service := svc\<rparr>)"

fun clientless_run ::
  "'c ztna_send \<Rightarrow> 'c clientless_call list \<Rightarrow> 'c clientless_evaluator
   \<Rightarrow> clientless_outcome option list \<times> 'c clientless_evaluator" where
  "clientless_run try_send [] ev = ([], ev)"
| "clientless_run try_send (c # cs) ev =
     (let (out, ev1) = run_clientless_call try_send c ev; (outs, ev2) = clientless_run try_send cs ev1
      in (out # outs, ev2))"

definition clientless_reachable :: "'c ztna_send \<Rightarrow> 'c clientless_evaluator \<Rightarrow> bool" where
  "clientless_reachable try_send ev \<longleftrightarrow>
     (\<exists>svc url cs. ev = snd (clientless_run try_send cs (evaluator_new svc url)))"

primrec creates :: "string \<Rightarrow> 'c clientless_call \<Rightarrow> bool" where
  "creates sid (CallEvaluate host cookie now uri) = False"
| "creates sid (CallCreate bs t a i now ip nt) = (generate_session_id bs = sid)"
| "creates sid (CallLogout k) = False"
| "creates sid (CallPurge now) = False"
| "creates sid (CallHosts apps) = False"
| "creates sid (CallTargets ts) = False"
| "creates sid (CallService svc) = False"

text \<open>The calls that end a session: logout, a purge or a lookup past its expiry, a denial by the policy.\<close>

definition ends_session :: "'c ztna_send \<Rightarrow> 'c clientless_evaluator \<Rightarrow> string \<Rightarrow> 'c clientless_call \<Rightarrow> bool" where
  "ends_session try_send ev sid c =
     (case c of
        CallLogout k \<Rightarrow> k = sid
      | CallPurge now \<Rightarrow> sid \<in> expired_ids now (stored (ev_sessions ev))
      | CallEvaluate host cookie now uri \<Rightarrow>
          (\<exists>app_id. cookie = Some sid \<and> match_host (ev_hosts ev) host = Some app_id
             \<and> (sid \<in> expired_ids now (stored (ev_sessions ev))
                \<or> (\<exists>s d. stored (ev_sessions ev) sid = Some s \<and> cls_app_id s = app_id \<and> \<not> allow d
                     \<and> fst (ztna_evaluate try_send (to_access_request s now) (ev_service ev)) = Inr d)))
      | _ \<Rightarrow> False)"

definition after_call :: "'c ztna_send \<Rightarrow> 'c clientless_call \<Rightarrow> 'c clientless_evaluator \<Rightarrow> (string \<rightharpoonup> clientless_session)" where
  "after_call try_send c ev =
     (case c of
        CallEvaluate host cookie now uri \<Rightarrow> session_after try_send host cookie now ev
      | CallCreate bs t a i now ip nt \<Rightarrow>
          (let s = fst (create_session bs t a i now ip nt ev)
           in (stored (ev_sessions ev))(cls_session_id s \<mapsto> s))
      | CallLogout sid \<Rightarrow> (stored (ev_sessions ev))(sid := None)
      | CallPurge now \<Rightarrow> stored (ev_sessions ev) |` (- expired_ids now (stored (ev_sessions ev)))
      | _ \<Rightarrow> stored (ev_sessions ev))"

lemma clientless_call_sessions:
  assumes "store_inv (ev_sessions ev)" and "run_clientless_call try_send c ev = (out, ev')"
  shows "store_inv (ev_sessions ev') \<and> stored (ev_sessions ev') = after_call try_send c ev"
proof (cases c)
  case (CallEvaluate host cookie now uri)
  then show ?thesis
    using assms clientless_evaluate_sessions [OF assms(1), of try_send host cookie now uri]
    by (auto simp: after_call_def split: prod.splits)
next
  case (CallCreate bs t a i now ip nt)
  obtain r st where "session_insert (fst (create_session bs t a i now ip nt ev)) (ev_sessions ev) = (r, st)" by fastforce
  then show ?thesis
    using CallCreate assms session_insert_ok [OF assms(1)]
    by (auto simp: after_call_def create_session_def Let_def)
next
  case (CallLogout sid)
  obtain r st where "session_remove sid (ev_sessions ev) = (r, st)" by fastforce
  then show ?thesis
    using CallLogout assms session_remove_ok [OF assms(1)] by (auto simp: after_call_def logout_def)
next
  case (CallPurge now)
  obtain n st where "purge_expired now (ev_sessions ev) = (n, st)" by fastforce
  then show ?thesis
    using CallPurge assms browser_sessions.purge_ok [OF assms(1)]
    by (auto simp: after_call_def evaluator_purge_expired_def)
qed (use assms in \<open>auto simp: after_call_def rebuild_hosts_def install_targets_def\<close>)

lemma session_store_new_inv: "store_inv session_store_new"
  by (simp add: store_inv_def session_store_new_def with_ttl_and_shards_def default_session_shards_def)

lemma clientless_run_inv:
  "store_inv (ev_sessions ev) \<Longrightarrow> store_inv (ev_sessions (snd (clientless_run try_send cs ev)))"
proof (induction cs arbitrary: ev)
  case (Cons c cs)
  obtain out ev1 where c: "run_clientless_call try_send c ev = (out, ev1)" by fastforce
  then have "store_inv (ev_sessions ev1)" using clientless_call_sessions [OF Cons.prems] by blast
  then show ?case using Cons.IH [of ev1] c by (simp add: case_prod_unfold Let_def)
qed simp

lemma clientless_reachable_inv: "clientless_reachable try_send ev \<Longrightarrow> store_inv (ev_sessions ev)"
  unfolding clientless_reachable_def
  by (auto intro!: clientless_run_inv simp: evaluator_new_def session_store_new_inv)

text \<open>
  Claim C21. A browser request is proxied exactly when the host belongs to an application, the cookie
  names a stored session of that application that has not expired, the access service authorises the
  session's user, its device and that application at this moment, and the application has a target;
  every other request is denied, redirected to the provider or unknown. This holds in every reachable
  state of the evaluator.
\<close>

theorem clientless_proxies_exactly_authorised:
  assumes "clientless_reachable try_send ev"
  shows "fst (clientless_evaluate try_send host cookie now uri ev) = ClAllow t d s \<longleftrightarrow>
     (\<exists>app_id. match_host (ev_hosts ev) host = Some app_id
        \<and> live_session ev cookie now app_id = Some s
        \<and> authorised (ev_service ev) (to_access_request s now) \<and> d = decision_allow
        \<and> ev_targets ev app_id = Some t)"
  by (rule clientless_allow_iff [OF clientless_reachable_inv [OF assms]])

lemma ended_call_absent:
  "ends_session try_send ev sid c \<Longrightarrow> after_call try_send c ev sid = None"
  by (auto simp: ends_session_def after_call_def session_after_def split: clientless_call.splits)

lemma ending_call_refuses:
  assumes "store_inv (ev_sessions ev)" and "ends_session try_send ev sid c"
  shows "fst (run_clientless_call try_send c ev) \<noteq> Some (ClAllow t d s)"
proof (cases c)
  case (CallEvaluate host cookie now uri)
  have "fst (clientless_evaluate try_send host cookie now uri ev) \<noteq> ClAllow t d s"
  proof
    assume "fst (clientless_evaluate try_send host cookie now uri ev) = ClAllow t d s"
    then obtain app_id where "match_host (ev_hosts ev) host = Some app_id"
        "live_session ev cookie now app_id = Some s" "authorised (ev_service ev) (to_access_request s now)"
      by (auto simp: clientless_allow_iff [OF assms(1)])
    then show False
      using assms(2) CallEvaluate ztna_evaluate_allow [of try_send "to_access_request s now" "ev_service ev" decision_allow]
      by (auto simp: ends_session_def live_session_Some expired_ids_def)
  qed
  then show ?thesis using CallEvaluate by (simp add: case_prod_unfold Let_def)
qed simp_all

lemma absent_stays_absent:
  "stored (ev_sessions ev) sid = None \<Longrightarrow> \<not> creates sid c \<Longrightarrow> after_call try_send c ev sid = None"
  by (cases c) (auto simp: after_call_def session_after_def create_session_def Let_def restrict_map_def
      split: option.split)

lemma run_without_session:
  assumes "store_inv (ev_sessions ev)" "stored (ev_sessions ev) sid = None"
    and "\<forall>c\<in>set cs. \<not> creates sid c" and "Some (ClAllow t d s) \<in> set (fst (clientless_run try_send cs ev))"
  shows "cls_session_id s \<noteq> sid"
  using assms
proof (induction cs arbitrary: ev)
  case (Cons c cs)
  obtain out ev1 where c: "run_clientless_call try_send c ev = (out, ev1)" by fastforce
  note ok = clientless_call_sessions [OF Cons.prems(1) c]
  have absent: "stored (ev_sessions ev1) sid = None"
    using ok absent_stays_absent [OF Cons.prems(2)] Cons.prems(3) by simp
  show ?case
  proof (cases "out = Some (ClAllow t d s)")
    case True
    then obtain host cookie now uri where "c = CallEvaluate host cookie now uri"
        "fst (clientless_evaluate try_send host cookie now uri ev) = ClAllow t d s"
      using c by (cases c) (auto split: prod.splits)
    then obtain k where "stored (ev_sessions ev) k = Some s"
      by (auto simp: clientless_allow_iff [OF Cons.prems(1)] live_session_Some)
    then show ?thesis using stored_id [OF Cons.prems(1)] Cons.prems(2) by auto
  next
    case False
    then have "Some (ClAllow t d s) \<in> set (fst (clientless_run try_send cs ev1))"
      using Cons.prems(4) c by (auto split: prod.splits)
    then show ?thesis using Cons.IH [OF _ absent] ok Cons.prems(3) by simp
  qed
qed simp

text \<open>
  Claim C25. A browser session that has ended is never honoured again. Once a call has ended it, by
  logout, by a denial of the policy, or by a lookup or purge past its expiry, no request of the rest
  of the run is proxied for it, whatever the calls, their clocks and cookies, and whatever happens to
  the access service, unless the generator draws the same identifier anew.
\<close>

theorem ended_session_never_honoured:
  assumes "clientless_reachable try_send ev" and "ends_session try_send ev sid c"
    and "\<forall>c'\<in>set cs. \<not> creates sid c'"
    and "Some (ClAllow t d s) \<in> set (fst (clientless_run try_send (c # cs) ev))"
  shows "cls_session_id s \<noteq> sid"
proof -
  note inv = clientless_reachable_inv [OF assms(1)]
  obtain out ev1 where c: "run_clientless_call try_send c ev = (out, ev1)" by fastforce
  note ok = clientless_call_sessions [OF inv c]
  have "stored (ev_sessions ev1) sid = None" using ok ended_call_absent [OF assms(2)] by simp
  moreover have "out \<noteq> Some (ClAllow t d s)"
    using ending_call_refuses [OF inv assms(2), of t d s] c by simp
  then have "Some (ClAllow t d s) \<in> set (fst (clientless_run try_send cs ev1))"
    using assms(4) c by (auto split: prod.splits)
  ultimately show ?thesis using run_without_session ok assms(3) by blast
qed

section \<open>The redirect\<close>

text \<open>What a server that follows RFC 3986 reads back from an encoded parameter.\<close>

definition hex_value :: "char \<Rightarrow> nat" where
  "hex_value c = (let n = of_char c in if n \<le> 57 then n - 48 else n - 55)"

fun url_decode :: "string \<Rightarrow> string" where
  "url_decode [] = []"
| "url_decode (c # s) =
     (if c = CHR ''%''
      then case s of
             h # l # rest \<Rightarrow> char_of (16 * hex_value h + hex_value l) # url_decode rest
           | _ \<Rightarrow> c # url_decode s
      else c # url_decode s)"

lemma hex_value_digit: "n < 16 \<Longrightarrow> hex_value (upper_hex_digit n) = n"
  by (simp add: hex_value_def upper_hex_digit_def Let_def)

lemma percent_reserved: "\<not> is_unreserved CHR ''%''"
  by (simp add: is_unreserved_def)

lemma url_encode_Cons:
  "url_encode (c # s) =
     (if is_unreserved c then [c]
      else [CHR ''%'', upper_hex_digit (of_char c div 16), upper_hex_digit (of_char c mod 16)]) @ url_encode s"
  by (simp add: url_encode_def)

lemma of_char_less: "(of_char c :: nat) < 256"
  by simp

lemma upper_hex_unreserved: "n < 16 \<Longrightarrow> is_unreserved (upper_hex_digit n)"
  by (auto simp: is_unreserved_def upper_hex_digit_def Let_def)

text \<open>
  The address to return to survives the redirect. Its encoding consists of characters that
  cannot end or split a parameter of the provider's address (letters, digits, four punctuation marks
  and the percent sign), and decoding it gives back every byte of the original.
\<close>

theorem redirect_uri_round_trip:
  "url_decode (url_encode uri) = uri
   \<and> list_all (\<lambda>c. is_unreserved c \<or> c = CHR ''%'') (url_encode uri)"
proof (induction uri)
  case (Cons c s)
  have split: "16 * (of_char c div 16) + of_char c mod 16 = (of_char c :: nat)" by simp
  have "(of_char c :: nat) div 16 < 16" using of_char_less [of c] by (intro less_mult_imp_div_less) simp
  then show ?case
    using Cons percent_reserved
    by (auto simp: url_encode_Cons hex_value_digit upper_hex_unreserved split simp del: of_char_mod_256)
qed (simp add: url_encode_def)

section \<open>What the clientless request leaves out\<close>

text \<open>
  The request carries no country, so a list of blocked countries never denies it; and the tenant stored
  with the session never takes part in the decision.
\<close>

lemma blocked_countries_not_consulted:
  "allowed_countries conds = None \<Longrightarrow> \<not> country_denied conds (req_source_country (to_access_request s now))"
  by (simp add: to_access_request_def with_network_def country_denied_def Let_def split: option.split)

lemma session_tenant_not_consulted:
  "to_access_request (s\<lparr>cls_tenant_id := tenant\<rparr>) now = to_access_request s now"
  by (simp add: to_access_request_def)

section \<open>A visit\<close>

definition portal_app :: app where
  "portal_app = ledger_app\<lparr>host_patterns := [''Ledger.Acme'']\<rparr>"

definition browser_device :: "string \<Rightarrow> device_trust" where
  "browser_device sid = laptop\<lparr>dev_device_id := ''clientless:'' @ sid\<rparr>"

definition portal_service :: "unit ztna_service" where
  "portal_service = (service_builder_new ())
     \<lparr>svc_policy := acme_policy,
      svc_apps := app_catalog_get (app_catalog_new [portal_app]),
      svc_devices := device_get (device_table_new [browser_device ''01'', browser_device ''02'']),
      svc_identities := identity_get (identity_table_new [alice])\<rparr>"

definition portal_target :: proxy_target where
  "portal_target = \<lparr>pt_app_id = ''ledger'', backend_url = ''http://10.0.0.7'', strip_path_prefix = [],
     pass_identity_headers = True\<rparr>"

definition portal_create :: "u8 \<Rightarrow> unit clientless_call" where
  "portal_create b = CallCreate [b] ''acme'' ''ledger'' alice 1600 None (Some Corporate)"

definition portal_session :: "string \<Rightarrow> clientless_session" where
  "portal_session sid = \<lparr>cls_session_id = sid, cls_tenant_id = ''acme'', cls_app_id = ''ledger'',
     cls_identity = alice, cls_created_at_ms = 1600, cls_expires_at_ms = 28801600,
     cls_source_ip = None, cls_network_type = Some Corporate\<rparr>"

definition portal :: "unit clientless_evaluator" where
  "portal = snd (clientless_run full_channel [CallHosts [portal_app], CallTargets [portal_target], portal_create 1]
     (evaluator_new portal_service ''https://idp?r={redirect_uri}''))"

lemma generate_small [simp]: "generate_session_id [1] = ''01''" "generate_session_id [2] = ''02''"
  by code_simp+

lemma stored_new: "stored session_store_new = Map.empty"
proof
  fix sid
  show "stored session_store_new sid = None"
    using session_shard_index_less [OF session_store_new_inv, of sid]
    by (simp add: stored_def session_store_new_def with_ttl_and_shards_def)
qed

lemma portal_parts:
  "ev_hosts portal = [''ledger.acme'' \<mapsto> ''ledger'']" "ev_targets portal = [''ledger'' \<mapsto> portal_target]"
  "ev_service portal = portal_service"
proof -
  have "to_ascii_lowercase ''Ledger.Acme'' = ''ledger.acme''" by code_simp
  then show "ev_hosts portal = [''ledger.acme'' \<mapsto> ''ledger'']"
    by (simp add: portal_def portal_create_def rebuild_hosts_def install_targets_def create_session_def
        Let_def evaluator_new_def rebuild_from_apps_def portal_app_def demo_defs)
qed (simp_all add: portal_def portal_create_def rebuild_hosts_def install_targets_def create_session_def
      Let_def evaluator_new_def install_targets_table_def index_by_def portal_target_def)

lemma portal_reachable: "clientless_reachable full_channel portal"
  unfolding clientless_reachable_def portal_def by blast

lemma portal_sessions:
  "stored (ev_sessions portal) = [''01'' \<mapsto> portal_session ''01'']" "store_ttl_ms (ev_sessions portal) = 28800000"
proof -
  let ?s = "portal_session ''01''"
  obtain r st where ins: "session_insert ?s session_store_new = (r, st)" by fastforce
  have s: "ev_sessions portal = st"
    using ins
    by (simp add: portal_def portal_create_def rebuild_hosts_def install_targets_def create_session_def Let_def
        evaluator_new_def portal_session_def session_store_new_def with_ttl_and_shards_def default_session_ttl_ms_def)
  show "stored (ev_sessions portal) = [''01'' \<mapsto> ?s]"
    using session_insert_ok [OF session_store_new_inv ins] by (simp add: s stored_new portal_session_def)
  show "store_ttl_ms (ev_sessions portal) = 28800000"
    using ins by (auto simp: s session_insert_def Let_def session_store_new_def with_ttl_and_shards_def
        default_session_ttl_ms_def)
qed

lemma portal_authorised:
  assumes "sid \<in> {''01'', ''02''}"
  shows "authorised portal_service (to_access_request (portal_session sid) 2000)"
proof -
  have "\<forall>g\<in>set (gates acme_policy (request_inputs (to_access_request (portal_session sid) 2000) portal_app
      (browser_device sid) (Some alice))). fst g"
    by (simp add: gates_def request_inputs_def to_access_request_def with_network_def access_request_new_def
        portal_session_def portal_app_def browser_device_def demo_defs tenant_ok_def country_ok_def
        network_ok_def hours_ok_def tags_ok_def entitled_def mfa_current_def mfa_budget_def
        posture_current_def posture_meets_def posture_points_def)
  moreover have "svc_apps portal_service ''ledger'' = Some portal_app"
      "svc_devices portal_service (''clientless:'' @ sid) = Some (browser_device sid)"
      "svc_identities portal_service ''alice'' = Some alice"
      "\<not> svc_is_revoked portal_service dev" "\<not> svc_is_user_revoked portal_service usr"
      "svc_policy portal_service = acme_policy" for dev usr
    using assms
    by (auto simp: portal_service_def service_builder_new_def app_catalog_get_def app_catalog_new_def
        device_get_def device_table_new_def identity_get_def identity_table_new_def index_by_def
        portal_app_def ledger_app_def app_new_def browser_device_def alice_def is_revoked_def
        is_user_revoked_def)
  moreover have "req_app_id (to_access_request (portal_session sid) 2000) = ''ledger''"
      "req_device_id (to_access_request (portal_session sid) 2000) = ''clientless:'' @ sid"
      "req_user_id (to_access_request (portal_session sid) 2000) = ''alice''"
    by (simp_all add: to_access_request_def with_network_def access_request_new_def portal_session_def alice_def)
  ultimately show ?thesis unfolding authorised_def by metis
qed

lemma portal_match: "match_host [''ledger.acme'' \<mapsto> ''ledger''] ''LEDGER.acme:443'' = Some ''ledger''"
proof -
  have "to_ascii_lowercase (takeWhile (\<lambda>c. c \<noteq> CHR '':'') ''LEDGER.acme:443'') = ''ledger.acme''" by code_simp
  then show ?thesis by (simp add: match_host_def)
qed

theorem clientless_proxies_exactly_authorised_witness:
  "fst (clientless_evaluate full_channel ''LEDGER.acme:443'' (Some ''01'') 2000 ''/'' portal)
     = ClAllow portal_target decision_allow (portal_session ''01'')"
  unfolding clientless_proxies_exactly_authorised [OF portal_reachable]
  by (rule exI [of _ "''ledger''"])
    (simp add: portal_parts portal_match portal_sessions portal_authorised live_session_Some,
     simp add: portal_session_def is_expired_def)

lemma portal_second_visit:
  "Some (ClAllow portal_target decision_allow (portal_session ''02''))
     \<in> set (fst (clientless_run full_channel
          [CallLogout ''01'', portal_create 2, CallEvaluate ''LEDGER.acme:443'' (Some ''02'') 2000 ''/''] portal))"
proof -
  obtain st where rem: "session_remove ''01'' (ev_sessions portal) = (Some (portal_session ''01''), st)"
    by (simp add: session_remove_eq portal_sessions)
  note gone = session_remove_ok [OF clientless_reachable_inv [OF portal_reachable] rem]
  have ttl: "store_ttl_ms st = 28800000"
    using rem portal_sessions(2) by (auto simp: session_remove_def Let_def)
  obtain q st2 where ins: "session_insert (portal_session ''02'') st = (q, st2)" by fastforce
  have st2: "store_inv st2" "stored st2 ''02'' = Some (portal_session ''02'')"
    using session_insert_ok [OF _ ins] gone by (simp_all add: portal_session_def)
  let ?ev = "portal\<lparr>ev_sessions := st2\<rparr>"
  have "run_clientless_call full_channel (CallLogout ''01'') portal = (None, portal\<lparr>ev_sessions := st\<rparr>)"
    by (simp add: logout_def rem)
  moreover have "run_clientless_call full_channel (portal_create 2) (portal\<lparr>ev_sessions := st\<rparr>) = (None, ?ev)"
    using ins by (simp add: portal_create_def create_session_def Let_def ttl portal_session_def)
  moreover have "fst (clientless_evaluate full_channel ''LEDGER.acme:443'' (Some ''02'') 2000 ''/'' ?ev)
      = ClAllow portal_target decision_allow (portal_session ''02'')"
  proof -
    have "live_session ?ev (Some ''02'') 2000 ''ledger'' = Some (portal_session ''02'')"
      using st2(2) by (simp add: live_session_Some portal_session_def is_expired_def)
    then show ?thesis
      unfolding clientless_allow_iff [where ev = ?ev, simplified, OF st2(1)]
      by (intro exI [of _ "''ledger''"]) (simp add: portal_parts portal_match portal_authorised)
  qed
  ultimately show ?thesis by (simp add: case_prod_unfold Let_def)
qed

theorem ended_session_never_honoured_witness:
  "ends_session full_channel portal ''01'' (CallLogout ''01'')
   \<and> cls_session_id (portal_session ''02'') \<noteq> ''01''"
proof -
  have "ends_session full_channel portal ''01'' (CallLogout ''01'')" by (simp add: ends_session_def)
  moreover from this have "cls_session_id (portal_session ''02'') \<noteq> ''01''"
    by (rule ended_session_never_honoured [OF portal_reachable _ _ portal_second_visit])
      (simp add: portal_create_def)
  ultimately show ?thesis by blast
qed

end
