(* ===== verification/Oidc_Session.thy ===== *)
theory Oidc_Session
  imports Oidc_Validation
begin

text \<open>
  The token endpoint and the token-lifecycle session of \<open>sng-oidc\<close> (\<open>token.rs\<close>, \<open>session.rs\<close>,
  \<open>storage.rs\<close>). HTTP, JSON and the calendar type of \<open>chrono\<close> are parameters. The tasks that share a
  session are a step relation whose steps are what happens between two points at which a task holds
  or waits for a lock or for the provider.
\<close>

section \<open>The token endpoint\<close>

record token_response =
  tr_access_token :: string
  tr_token_type :: string
  tr_id_token :: "string option"
  tr_refresh_token :: "string option"
  tr_expires_in :: "int option"
  tr_scope :: "string option"

record code_exchange =
  ce_client_id :: string
  ce_code :: string
  ce_redirect_uri :: string
  ce_code_verifier :: string
  ce_client_secret :: "string option"

record refresh_request =
  rr_client_id :: string
  rr_refresh_token :: string
  rr_scope :: "string option"
  rr_client_secret :: "string option"

text \<open>
  Instants and durations of \<open>chrono\<close> in nanoseconds: \<open>timedelta_max\<close>, \<open>datetime_min\<close> and \<open>datetime_max\<close> are
  the bounds of its two types.
\<close>

record 'n token_env = "'n oidc_env" +
  utc_now_ns :: "'n \<Rightarrow> int"
  timedelta_max :: int
  datetime_min :: int
  datetime_max :: int
  token_from_str :: "string \<Rightarrow> string + token_response"
  oauth_error_from_str :: "string \<Rightarrow> oauth_error_response option"

definition post_form ::
  "('n, 'z) token_env_scheme \<Rightarrow> string \<Rightarrow> (string \<times> string) list \<Rightarrow> 'n \<Rightarrow> (oidc_error + token_response) \<times> 'n" where
  "post_form env endpoint form n =
     (let (reply, n') = http_post env n endpoint form in
      (case reply of
         SendFailed m \<Rightarrow> Inl (HttpErr ''token'' m)
       | BodyFailed st m \<Rightarrow> Inl (HttpErr ''token'' m)
       | Reply st body \<Rightarrow>
           if is_success st then map_err (DecodeErr ''token'') (token_from_str env body)
           else case oauth_error_from_str env body of
                  Some e \<Rightarrow> Inl (TokenErr e)
                | None \<Rightarrow> Inl (HttpStatusErr ''token'' st), n'))"

definition exchange_code ::
  "('n, 'z) token_env_scheme \<Rightarrow> string \<Rightarrow> code_exchange \<Rightarrow> 'n \<Rightarrow> (oidc_error + token_response) \<times> 'n" where
  "exchange_code env endpoint r n =
     post_form env endpoint
       ([(''grant_type'', ''authorization_code''), (''code'', ce_code r), (''redirect_uri'', ce_redirect_uri r),
         (''client_id'', ce_client_id r), (''code_verifier'', ce_code_verifier r)]
        @ (case ce_client_secret r of Some s \<Rightarrow> [(''client_secret'', s)] | None \<Rightarrow> [])) n"

definition token_refresh ::
  "('n, 'z) token_env_scheme \<Rightarrow> string \<Rightarrow> refresh_request \<Rightarrow> 'n \<Rightarrow> (oidc_error + token_response) \<times> 'n" where
  "token_refresh env endpoint r n =
     post_form env endpoint
       ([(''grant_type'', ''refresh_token''), (''refresh_token'', rr_refresh_token r),
         (''client_id'', rr_client_id r)]
        @ (case rr_scope r of Some s \<Rightarrow> [(''scope'', s)] | None \<Rightarrow> [])
        @ (case rr_client_secret r of Some s \<Rightarrow> [(''client_secret'', s)] | None \<Rightarrow> [])) n"

section \<open>The session\<close>

record session_config =
  sc_token_endpoint :: string
  sc_client_id :: string
  sc_client_secret :: "string option"
  sc_refresh_skew :: nat

definition default_refresh_skew :: nat where
  "default_refresh_skew = from_secs 60"

definition session_config_new :: "string \<Rightarrow> string \<Rightarrow> session_config" where
  "session_config_new endpoint client =
     \<lparr>sc_token_endpoint = endpoint, sc_client_id = client, sc_client_secret = None,
      sc_refresh_skew = default_refresh_skew\<rparr>"

record session_state =
  st_access_token :: string
  st_refresh_token :: "string option"
  st_id_token :: "string option"
  st_expires_at :: "int option"
  st_sub :: "string option"
  st_groups :: "string list"

text \<open>
  A lifetime the duration type cannot hold counts as absent; \<open>Utc::now() + delta\<close> panics when the sum is
  out of range, which is \<open>None\<close> here.
\<close>

definition expires_at_from :: "('n, 'z) token_env_scheme \<Rightarrow> 'n \<Rightarrow> int option \<Rightarrow> int option option" where
  "expires_at_from env n expires_in =
     (case expires_in of
        None \<Rightarrow> Some None
      | Some secs \<Rightarrow>
          (let delta = secs * 1000000000
           in if \<bar>delta\<bar> > timedelta_max env then Some None
              else if utc_now_ns env n + delta < datetime_min env
                      \<or> utc_now_ns env n + delta > datetime_max env then None
              else Some (Some (utc_now_ns env n + delta))))"

definition apply_response ::
  "('n, 'z) token_env_scheme \<Rightarrow> 'n \<Rightarrow> token_response \<Rightarrow> session_state \<Rightarrow> session_state option" where
  "apply_response env n r st =
     (case expires_at_from env n (tr_expires_in r) of
        None \<Rightarrow> None
      | Some expires_at \<Rightarrow> Some
          (st\<lparr>st_access_token := tr_access_token r,
              st_expires_at := (case expires_at of Some e \<Rightarrow> Some e | None \<Rightarrow> st_expires_at st),
              st_id_token := (case tr_id_token r of Some t \<Rightarrow> Some t | None \<Rightarrow> st_id_token st),
              st_refresh_token := (case tr_refresh_token r of Some t \<Rightarrow> Some t | None \<Rightarrow> st_refresh_token st)\<rparr>))"

text \<open>The random word is an argument.\<close>

definition random_jitter :: "nat \<Rightarrow> u64 \<Rightarrow> nat" where
  "random_jitter skew rnd =
     (let half = as_millis skew div 2;
          half_ms = (if half < 2 ^ 64 then of_nat half else - 1 :: u64)
      in if half_ms = 0 then 0 else from_millis (unat (rnd mod saturating_add half_ms 1)))"

definition session_start ::
  "('n, 'z) token_env_scheme \<Rightarrow> 'n \<Rightarrow> token_response \<Rightarrow> id_token_claims option \<Rightarrow> session_state option" where
  "session_start env n r identity =
     map_option (\<lambda>expires_at.
       \<lparr>st_access_token = tr_access_token r, st_refresh_token = tr_refresh_token r,
        st_id_token = tr_id_token r, st_expires_at = expires_at,
        st_sub = map_option cl_sub identity,
        st_groups = (case identity of Some c \<Rightarrow> cl_groups c | None \<Rightarrow> [])\<rparr>)
       (expires_at_from env n (tr_expires_in r))"

definition refresh_due ::
  "('n, 'z) token_env_scheme \<Rightarrow> session_config \<Rightarrow> nat \<Rightarrow> int option \<Rightarrow> 'n \<Rightarrow> bool" where
  "refresh_due env cfg jitter expires_at n =
     (case expires_at of
        None \<Rightarrow> False
      | Some expiry \<Rightarrow>
          (let window = int (duration_saturating_add (sc_refresh_skew cfg) jitter)
           in if window > timedelta_max env then True
              else if utc_now_ns env n + window > datetime_max env then True
              else utc_now_ns env n + window \<ge> expiry))"

definition needs_refresh ::
  "('n, 'z) token_env_scheme \<Rightarrow> session_config \<Rightarrow> nat \<Rightarrow> session_state \<Rightarrow> 'n \<Rightarrow> bool" where
  "needs_refresh env cfg jitter st n = refresh_due env cfg jitter (st_expires_at st) n"

definition refresh_request_for :: "session_config \<Rightarrow> string \<Rightarrow> refresh_request" where
  "refresh_request_for cfg rt =
     \<lparr>rr_client_id = sc_client_id cfg, rr_refresh_token = rt, rr_scope = None,
      rr_client_secret = sc_client_secret cfg\<rparr>"

section \<open>Storage\<close>

record stored_tokens =
  sto_access_token :: string
  sto_refresh_token :: "string option"
  sto_id_token :: "string option"
  sto_expires_at :: "int option"

text \<open>\<open>DateTime::timestamp\<close> rounds down to whole seconds.\<close>

definition to_stored_tokens :: "session_state \<Rightarrow> stored_tokens" where
  "to_stored_tokens st =
     \<lparr>sto_access_token = st_access_token st, sto_refresh_token = st_refresh_token st,
      sto_id_token = st_id_token st,
      sto_expires_at = map_option (\<lambda>e. e div 1000000000) (st_expires_at st)\<rparr>"

type_synonym memory_token_storage = "string \<rightharpoonup> stored_tokens"

definition storage_store :: "string \<Rightarrow> stored_tokens \<Rightarrow> memory_token_storage \<Rightarrow> memory_token_storage" where
  "storage_store key t m = m(key \<mapsto> t)"

definition storage_retrieve :: "string \<Rightarrow> memory_token_storage \<Rightarrow> stored_tokens option" where
  "storage_retrieve key m = m key"

definition storage_delete :: "string \<Rightarrow> memory_token_storage \<Rightarrow> memory_token_storage" where
  "storage_delete key m = m(key := None)"

section \<open>Tasks that share a session\<close>

text \<open>
  Where a call of \<open>access_token\<close> (or, with the flag, of \<open>refresh\<close>) is: before its first check, queued on
  \<open>refresh_lock\<close>, holding it, holding it with the refresh token read, holding it with the provider's
  answer, past the lock, and returned. A panic in \<open>apply\<close> ends the task and releases its locks.
\<close>

datatype 'n session_pc =
    Idle | Waiting bool | Holding bool | Snapshot bool string 'n
  | Posted bool "oidc_error + token_response" | Reading
  | Returned "oidc_error + string option" | Panicked

text \<open>
  The last two fields are ghosts: the grants sent, each with the refresh token presented, whether it
  was forced, whether an earlier one had failed, the expiry known then and the worlds of the check and
  of the request; and whether one has failed.
\<close>

record 'n grant_entry =
  ge_refresh_token :: string
  ge_forced :: bool
  ge_after_loss :: bool
  ge_expires_at :: "int option"
  ge_checked :: 'n
  ge_sent :: 'n

record 'n shared_session =
  sh_state :: session_state
  sh_lock :: "nat option"
  sh_net :: 'n
  sh_pc :: "nat \<Rightarrow> 'n session_pc"
  sh_grants :: "'n grant_entry list"
  sh_lost :: bool

definition goto :: "nat \<Rightarrow> 'n session_pc \<Rightarrow> 'n shared_session \<Rightarrow> 'n shared_session" where
  "goto t pc w = w\<lparr>sh_pc := (sh_pc w)(t := pc)\<rparr>"

definition leave :: "nat \<Rightarrow> 'n session_pc \<Rightarrow> 'n shared_session \<Rightarrow> 'n shared_session" where
  "leave t pc w = w\<lparr>sh_pc := (sh_pc w)(t := pc), sh_lock := None\<rparr>"

inductive session_step ::
  "('n, 'z) token_env_scheme \<Rightarrow> session_config \<Rightarrow> nat \<Rightarrow> ('n \<Rightarrow> 'n \<Rightarrow> bool) \<Rightarrow> 'n shared_session \<Rightarrow> 'n shared_session \<Rightarrow> bool"
  for env cfg jitter passes where
  check_fresh: "sh_pc w t = Idle \<Longrightarrow> \<not> needs_refresh env cfg jitter (sh_state w) (sh_net w)
    \<Longrightarrow> session_step env cfg jitter passes w (goto t Reading w)"
| check_stale: "sh_pc w t = Idle \<Longrightarrow> needs_refresh env cfg jitter (sh_state w) (sh_net w)
    \<Longrightarrow> session_step env cfg jitter passes w (goto t (Waiting False) w)"
| force: "sh_pc w t = Idle \<Longrightarrow> session_step env cfg jitter passes w (goto t (Waiting True) w)"
| acquire: "sh_pc w t = Waiting f \<Longrightarrow> sh_lock w = None
    \<Longrightarrow> session_step env cfg jitter passes w (goto t (Holding f) w\<lparr>sh_lock := Some t\<rparr>)"
| recheck_fresh: "sh_pc w t = Holding False \<Longrightarrow> \<not> needs_refresh env cfg jitter (sh_state w) (sh_net w)
    \<Longrightarrow> session_step env cfg jitter passes w (leave t Reading w)"
| no_token: "sh_pc w t = Holding f \<Longrightarrow> f \<or> needs_refresh env cfg jitter (sh_state w) (sh_net w)
    \<Longrightarrow> st_refresh_token (sh_state w) = None
    \<Longrightarrow> session_step env cfg jitter passes w
          (leave t (Returned (Inl (SessionErr ''auto-refresh requested but session holds no refresh token''))) w)"
| snapshot: "sh_pc w t = Holding f \<Longrightarrow> f \<or> needs_refresh env cfg jitter (sh_state w) (sh_net w)
    \<Longrightarrow> st_refresh_token (sh_state w) = Some rt
    \<Longrightarrow> session_step env cfg jitter passes w (goto t (Snapshot f rt (sh_net w)) w)"
| post: "sh_pc w t = Snapshot f rt n0
    \<Longrightarrow> token_refresh env (sc_token_endpoint cfg) (refresh_request_for cfg rt) (sh_net w) = (res, n')
    \<Longrightarrow> session_step env cfg jitter passes w
          (goto t (Posted f res) w
             \<lparr>sh_net := n',
              sh_grants := sh_grants w @ [\<lparr>ge_refresh_token = rt, ge_forced = f, ge_after_loss = sh_lost w,
                ge_expires_at = st_expires_at (sh_state w), ge_checked = n0, ge_sent = sh_net w\<rparr>],
              sh_lost := sh_lost w \<or> isl res\<rparr>)"
| apply_ok: "sh_pc w t = Posted f (Inr r) \<Longrightarrow> apply_response env (sh_net w) r (sh_state w) = Some st'
    \<Longrightarrow> session_step env cfg jitter passes w
          (leave t (if f then Returned (Inr None) else Reading) w\<lparr>sh_state := st'\<rparr>)"
| apply_panics: "sh_pc w t = Posted f (Inr r) \<Longrightarrow> apply_response env (sh_net w) r (sh_state w) = None
    \<Longrightarrow> session_step env cfg jitter passes w
          (leave t Panicked w\<lparr>sh_state := (sh_state w)\<lparr>st_access_token := tr_access_token r\<rparr>, sh_lost := True\<rparr>)"
| grant_failed: "sh_pc w t = Posted f (Inl e)
    \<Longrightarrow> session_step env cfg jitter passes w (leave t (Returned (Inl e)) w)"
| read: "sh_pc w t = Reading
    \<Longrightarrow> session_step env cfg jitter passes w (goto t (Returned (Inr (Some (st_access_token (sh_state w))))) w)"
| again: "sh_pc w t = Returned x \<Longrightarrow> session_step env cfg jitter passes w (goto t Idle w)"
| world: "passes (sh_net w) n' \<Longrightarrow> session_step env cfg jitter passes w (w\<lparr>sh_net := n'\<rparr>)"

definition fresh_session :: "session_state \<Rightarrow> 'n \<Rightarrow> 'n shared_session" where
  "fresh_session st n =
     \<lparr>sh_state = st, sh_lock = None, sh_net = n, sh_pc = (\<lambda>_. Idle), sh_grants = [], sh_lost = False\<rparr>"

text \<open>
  What a provider with rotating refresh tokens promises (RFC 6749, section 6): a successful grant makes the
  token it returns current, or leaves the presented one so when it returns none, and time alone
  retires nothing.
\<close>

locale rotating_provider =
  fixes env :: "('n, 'z) token_env_scheme" and cfg :: session_config
    and passes :: "'n \<Rightarrow> 'n \<Rightarrow> bool" and current :: "'n \<Rightarrow> string \<Rightarrow> bool"
  assumes passes_current: "passes n n' \<Longrightarrow> current n rt \<Longrightarrow> current n' rt"
    and grant_rotates:
      "token_refresh env (sc_token_endpoint cfg) (refresh_request_for cfg rt) n = (Inr r, n') \<Longrightarrow> current n rt
       \<Longrightarrow> current n' (case tr_refresh_token r of Some t \<Rightarrow> t | None \<Rightarrow> rt)"

primrec holds_lock :: "'n session_pc \<Rightarrow> bool" where
  "holds_lock Idle = False"
| "holds_lock (Waiting f) = False"
| "holds_lock (Holding f) = True"
| "holds_lock (Snapshot f rt n) = True"
| "holds_lock (Posted f res) = True"
| "holds_lock Reading = False"
| "holds_lock (Returned x) = False"
| "holds_lock Panicked = False"

definition lock_inv :: "'n shared_session \<Rightarrow> bool" where
  "lock_inv w \<longleftrightarrow> (\<forall>t. holds_lock (sh_pc w t) \<longleftrightarrow> sh_lock w = Some t)"

lemma lock_inv_goto: "lock_inv w \<Longrightarrow> holds_lock pc = holds_lock (sh_pc w t) \<Longrightarrow> lock_inv (goto t pc w)"
  by (auto simp: lock_inv_def goto_def)

lemma lock_inv_leave: "lock_inv w \<Longrightarrow> holds_lock (sh_pc w t) \<Longrightarrow> \<not> holds_lock pc \<Longrightarrow> lock_inv (leave t pc w)"
  by (auto simp: lock_inv_def leave_def)

lemma lock_inv_frame [simp]:
  "lock_inv (w\<lparr>sh_state := st\<rparr>) = lock_inv w" "lock_inv (w\<lparr>sh_net := n\<rparr>) = lock_inv w"
  "lock_inv (w\<lparr>sh_grants := g\<rparr>) = lock_inv w" "lock_inv (w\<lparr>sh_lost := b\<rparr>) = lock_inv w"
  by (simp_all add: lock_inv_def)

lemma lock_inv_step: "session_step env cfg jitter passes w w' \<Longrightarrow> lock_inv w \<Longrightarrow> lock_inv w'"
proof (induction rule: session_step.induct)
  case (acquire w t f)
  then show ?case by (auto simp: lock_inv_def goto_def)
qed (simp_all add: lock_inv_goto lock_inv_leave)

text \<open>The refresh token the session holds once the answer in flight, if any, is applied.\<close>

definition in_flight :: "'n shared_session \<Rightarrow> token_response option" where
  "in_flight w =
     (case sh_lock w of
        Some t \<Rightarrow> (case sh_pc w t of Posted f (Inr r) \<Rightarrow> Some r | _ \<Rightarrow> None)
      | None \<Rightarrow> None)"

definition rotated :: "token_response option \<Rightarrow> string option \<Rightarrow> string option" where
  "rotated r rt =
     (case r of
        Some r' \<Rightarrow> (case tr_refresh_token r' of Some t \<Rightarrow> Some t | None \<Rightarrow> rt)
      | None \<Rightarrow> rt)"

definition grant_ok ::
  "('n, 'z) token_env_scheme \<Rightarrow> session_config \<Rightarrow> nat \<Rightarrow> ('n \<Rightarrow> string \<Rightarrow> bool) \<Rightarrow> 'n grant_entry \<Rightarrow> bool" where
  "grant_ok env cfg jitter current g \<longleftrightarrow>
     (\<not> ge_after_loss g \<longrightarrow> current (ge_sent g) (ge_refresh_token g))
     \<and> (ge_forced g \<or> refresh_due env cfg jitter (ge_expires_at g) (ge_checked g))"

definition session_inv ::
  "('n, 'z) token_env_scheme \<Rightarrow> session_config \<Rightarrow> nat \<Rightarrow> ('n \<Rightarrow> string \<Rightarrow> bool) \<Rightarrow> 'n shared_session \<Rightarrow> bool" where
  "session_inv env cfg jitter current w \<longleftrightarrow>
     lock_inv w
     \<and> (\<not> sh_lost w \<longrightarrow> (\<forall>rt. rotated (in_flight w) (st_refresh_token (sh_state w)) = Some rt \<longrightarrow> current (sh_net w) rt))
     \<and> (\<forall>t f rt n. sh_pc w t = Snapshot f rt n \<longrightarrow>
          st_refresh_token (sh_state w) = Some rt \<and> (f \<or> needs_refresh env cfg jitter (sh_state w) n))
     \<and> (\<forall>g\<in>set (sh_grants w). grant_ok env cfg jitter current g)"

lemma in_flight_frame [simp]:
  "in_flight (w\<lparr>sh_state := st\<rparr>) = in_flight w" "in_flight (w\<lparr>sh_net := n\<rparr>) = in_flight w"
  "in_flight (w\<lparr>sh_grants := g\<rparr>) = in_flight w" "in_flight (w\<lparr>sh_lost := b\<rparr>) = in_flight w"
  by (auto simp: in_flight_def split: option.split)

lemma in_flight_goto:
  "lock_inv w \<Longrightarrow> \<not> holds_lock (sh_pc w t) \<Longrightarrow> in_flight (goto t pc w) = in_flight w"
  by (auto simp: in_flight_def goto_def lock_inv_def split: option.split)

lemma in_flight_held:
  "lock_inv w \<Longrightarrow> holds_lock (sh_pc w t) \<Longrightarrow>
     in_flight (goto t pc w) = (case pc of Posted f (Inr r) \<Rightarrow> Some r | _ \<Rightarrow> None)
     \<and> in_flight w = (case sh_pc w t of Posted f (Inr r) \<Rightarrow> Some r | _ \<Rightarrow> None)"
  by (auto simp: in_flight_def goto_def lock_inv_def)

lemma in_flight_none:
  "lock_inv w \<Longrightarrow> sh_pc w t = Holding f \<Longrightarrow> in_flight w = None"
  "lock_inv w \<Longrightarrow> sh_pc w t = Posted f (Inl e) \<Longrightarrow> in_flight w = None"
  using in_flight_held [of w t Idle] by simp_all

lemma in_flight_leave [simp]: "in_flight (leave t pc w) = None"
  by (simp add: in_flight_def leave_def)

lemma goto_sel [simp]:
  "sh_state (goto t pc w) = sh_state w" "sh_net (goto t pc w) = sh_net w" "sh_lock (goto t pc w) = sh_lock w"
  "sh_grants (goto t pc w) = sh_grants w" "sh_lost (goto t pc w) = sh_lost w"
  "sh_pc (goto t pc w) = (sh_pc w)(t := pc)"
  by (simp_all add: goto_def)

lemma leave_sel [simp]:
  "sh_state (leave t pc w) = sh_state w" "sh_net (leave t pc w) = sh_net w" "sh_lock (leave t pc w) = None"
  "sh_grants (leave t pc w) = sh_grants w" "sh_lost (leave t pc w) = sh_lost w"
  "sh_pc (leave t pc w) = (sh_pc w)(t := pc)"
  by (simp_all add: leave_def)

lemma apply_response_refresh:
  "apply_response env n r st = Some st' \<Longrightarrow> st_refresh_token st' = rotated (Some r) (st_refresh_token st)"
  by (auto simp: apply_response_def rotated_def split: option.splits)

lemma only_holder:
  "lock_inv w \<Longrightarrow> holds_lock (sh_pc w t) \<Longrightarrow> sh_pc w t' = Snapshot f rt n \<Longrightarrow> t' = t"
  by (metis lock_inv_def holds_lock.simps(4) option.inject)

context rotating_provider
begin

lemma session_inv_step:
  assumes "session_step env cfg jitter passes w w'" and "session_inv env cfg jitter current w"
  shows "session_inv env cfg jitter current w'"
  using assms
proof (induction rule: session_step.induct)
  case (acquire w t f)
  have "lock_inv (goto t (Holding f) w\<lparr>sh_lock := Some t\<rparr>)"
    using lock_inv_step [OF session_step.acquire [OF acquire.hyps]] acquire.prems by (simp add: session_inv_def)
  then show ?case using acquire by (auto simp: session_inv_def in_flight_def)
next
  case (post w t f rt n0 res n')
  have lock: "lock_inv w" and snap: "st_refresh_token (sh_state w) = Some rt"
      "f \<or> needs_refresh env cfg jitter (sh_state w) n0"
    using post by (auto simp: session_inv_def)
  have flight: "in_flight w = None" "in_flight (goto t (Posted f res) w) = (case res of Inr r \<Rightarrow> Some r | Inl _ \<Rightarrow> None)"
    using in_flight_held [OF lock, of t "Posted f res"] post.hyps(1) by (auto split: sum.split)
  have cur: "\<not> sh_lost w \<Longrightarrow> current (sh_net w) rt"
    using post.prems flight(1) snap(1) by (simp add: session_inv_def rotated_def)
  have "current n' rt'" if "res = Inr r" "\<not> sh_lost w" "rotated (Some r) (Some rt) = Some rt'" for r rt'
    using grant_rotates [of rt "sh_net w" r n'] post.hyps(2) cur that
    by (auto simp: rotated_def split: option.splits)
  moreover have "lock_inv (goto t (Posted f res) w)"
    using lock_inv_goto [OF lock, of "Posted f res" t] post.hyps(1) by simp
  moreover have "grant_ok env cfg jitter current
      \<lparr>ge_refresh_token = rt, ge_forced = f, ge_after_loss = sh_lost w, ge_expires_at = st_expires_at (sh_state w),
       ge_checked = n0, ge_sent = sh_net w\<rparr>"
    using cur snap(2) by (simp add: grant_ok_def needs_refresh_def)
  ultimately show ?case
    using post.prems flight snap(1) by (auto simp: session_inv_def split: sum.splits)
next
  case (apply_ok w t f r st')
  have lock: "lock_inv w" using apply_ok by (simp add: session_inv_def)
  have "in_flight w = Some r"
    using in_flight_held [OF lock, of t Idle] apply_ok.hyps(1) by simp
  moreover have "lock_inv (leave t (if f then Returned (Inr None) else Reading) w)"
    using lock_inv_leave [OF lock, of t] apply_ok.hyps(1) by simp
  moreover have "sh_pc w t' \<noteq> Snapshot f' rt n" for t' f' rt n
    using only_holder [OF lock, of t t'] apply_ok.hyps(1) by auto
  ultimately show ?case
    using apply_ok.prems apply_response_refresh [OF apply_ok.hyps(2)]
    by (auto simp: session_inv_def rotated_def)
next
  case (apply_panics w t f r)
  have lock: "lock_inv w" using apply_panics by (simp add: session_inv_def)
  have "lock_inv (leave t Panicked w)"
    using lock_inv_leave [OF lock, of t] apply_panics.hyps(1) by simp
  moreover have "sh_pc w t' \<noteq> Snapshot f' rt n" for t' f' rt n
    using only_holder [OF lock, of t t'] apply_panics.hyps(1) by auto
  ultimately show ?case using apply_panics.prems by (auto simp: session_inv_def)
next
  case (snapshot w t f rt)
  have lock: "lock_inv w" using snapshot by (simp add: session_inv_def)
  have "in_flight (goto t (Snapshot f rt (sh_net w)) w) = None" "in_flight w = None"
    using in_flight_held [OF lock, of t "Snapshot f rt (sh_net w)"] snapshot.hyps(1) by simp_all
  then show ?case using snapshot lock_inv_goto [OF lock] by (auto simp: session_inv_def)
next
  case (world w n')
  then show ?case using passes_current by (auto simp: session_inv_def)
qed (auto simp: session_inv_def lock_inv_goto lock_inv_leave in_flight_goto in_flight_none)

end

lemma session_inv_fresh:
  "(\<And>rt. st_refresh_token st = Some rt \<Longrightarrow> current n rt) \<Longrightarrow> session_inv env cfg jitter current (fresh_session st n)"
  by (simp add: session_inv_def fresh_session_def lock_inv_def in_flight_def rotated_def)

lemma lock_inv_reachable: "(session_step env cfg jitter passes)\<^sup>*\<^sup>* (fresh_session st n) w \<Longrightarrow> lock_inv w"
proof (induction rule: rtranclp_induct)
  case base
  show ?case by (simp add: lock_inv_def fresh_session_def)
qed (rule lock_inv_step)

text \<open>
  Claim C14. However the tasks that share a session interleave, at most one is between taking the lock
  and releasing it, and at a provider that rotates refresh tokens every grant presents the token that
  is current at that moment, as long as no earlier grant was lost: a herd of callers never presents a
  consumed token. A grant that was not forced is only sent when the access token known then was within
  its refresh window, so callers that waited for another one's grant send none of their own.
\<close>

theorem refresh_grants_serialised:
  assumes "rotating_provider env cfg passes current"
    and "\<forall>rt. st_refresh_token st = Some rt \<longrightarrow> current n rt"
    and "(session_step env cfg jitter passes)\<^sup>*\<^sup>* (fresh_session st n) w"
  shows "(\<forall>g\<in>set (sh_grants w).
            (\<not> ge_after_loss g \<longrightarrow> current (ge_sent g) (ge_refresh_token g))
            \<and> (ge_forced g \<or> refresh_due env cfg jitter (ge_expires_at g) (ge_checked g)))
         \<and> (\<forall>t t'. holds_lock (sh_pc w t) \<and> holds_lock (sh_pc w t') \<longrightarrow> t = t')"
proof -
  have "session_inv env cfg jitter current w"
    using assms(3)
  proof (induction rule: rtranclp_induct)
    case base
    show ?case using assms(2) by (intro session_inv_fresh) simp
  qed (rule rotating_provider.session_inv_step [OF assms(1)])
  then show ?thesis by (auto simp: session_inv_def lock_inv_def grant_ok_def)
qed

section \<open>Nobody waits forever\<close>

definition finished :: "'n session_pc \<Rightarrow> bool" where
  "finished pc \<longleftrightarrow> pc = Panicked \<or> (\<exists>x. pc = Returned x)"

definition lets_go :: "nat \<Rightarrow> 'n shared_session \<Rightarrow> 'n shared_session \<Rightarrow> bool" where
  "lets_go h w w' \<longleftrightarrow>
     sh_lock w' = None \<and> (sh_pc w' h = Reading \<or> finished (sh_pc w' h)) \<and> (\<forall>t. t \<noteq> h \<longrightarrow> sh_pc w' t = sh_pc w t)"

lemma step_star:
  "session_step env cfg jitter passes w w1 \<Longrightarrow> (session_step env cfg jitter passes)\<^sup>*\<^sup>* w1 w2
   \<Longrightarrow> (session_step env cfg jitter passes)\<^sup>*\<^sup>* w w2"
  by (rule converse_rtranclp_into_rtranclp)

lemma step_one:
  "session_step env cfg jitter passes w w1 \<Longrightarrow> (session_step env cfg jitter passes)\<^sup>*\<^sup>* w w1"
  by (rule r_into_rtranclp)

lemma posted_lets_go:
  assumes "sh_pc w h = Posted f res"
  shows "\<exists>w'. session_step env cfg jitter passes w w' \<and> lets_go h w w'"
proof (cases res)
  case (Inl e)
  then show ?thesis
    using session_step.grant_failed [of w h f e env cfg jitter passes] assms
    by (intro exI [of _ "leave h (Returned (Inl e)) w"]) (simp add: lets_go_def finished_def)
next
  case (Inr r)
  show ?thesis
  proof (cases "apply_response env (sh_net w) r (sh_state w)")
    case None
    then show ?thesis
      using session_step.apply_panics [of w h f r env cfg jitter passes] assms Inr
      by (intro exI conjI) (assumption | simp add: lets_go_def finished_def)+
  next
    case (Some st')
    then show ?thesis
      using session_step.apply_ok [of w h f r env st' cfg jitter passes] assms Inr
      by (intro exI conjI) (assumption | simp add: lets_go_def finished_def)+
  qed
qed

lemma snapshot_lets_go:
  assumes "sh_pc w h = Snapshot f rt n0"
  shows "\<exists>w'. (session_step env cfg jitter passes)\<^sup>*\<^sup>* w w' \<and> lets_go h w w'"
proof -
  obtain res n' where "token_refresh env (sc_token_endpoint cfg) (refresh_request_for cfg rt) (sh_net w) = (res, n')"
    by fastforce
  note step = session_step.post [OF assms this, of jitter passes]
  let ?w1 = "goto h (Posted f res) w
     \<lparr>sh_net := n',
      sh_grants := sh_grants w @ [\<lparr>ge_refresh_token = rt, ge_forced = f, ge_after_loss = sh_lost w,
        ge_expires_at = st_expires_at (sh_state w), ge_checked = n0, ge_sent = sh_net w\<rparr>],
      sh_lost := sh_lost w \<or> isl res\<rparr>"
  obtain w' where "session_step env cfg jitter passes ?w1 w'" and "lets_go h ?w1 w'"
    using posted_lets_go [of ?w1 h f res env cfg jitter passes] by auto
  then show ?thesis
    using step_star [OF step] r_into_rtranclp by (intro exI [of _ w']) (auto simp: lets_go_def)
qed

lemma holding_lets_go:
  assumes "sh_pc w h = Holding f"
  shows "\<exists>w'. (session_step env cfg jitter passes)\<^sup>*\<^sup>* w w' \<and> lets_go h w w'"
proof (cases "f \<or> needs_refresh env cfg jitter (sh_state w) (sh_net w)")
  case True
  show ?thesis
  proof (cases "st_refresh_token (sh_state w)")
    case None
    then show ?thesis
      using session_step.no_token [OF assms True None, of passes]
      by (intro exI conjI) (rule r_into_rtranclp, assumption, simp add: lets_go_def finished_def)
  next
    case (Some rt)
    note step = session_step.snapshot [OF assms True Some, of passes]
    obtain w' where "(session_step env cfg jitter passes)\<^sup>*\<^sup>* (goto h (Snapshot f rt (sh_net w)) w) w'"
        "lets_go h (goto h (Snapshot f rt (sh_net w)) w) w'"
      using snapshot_lets_go [of "goto h (Snapshot f rt (sh_net w)) w" h f rt "sh_net w" env cfg jitter passes] by auto
    then show ?thesis
      using step_star [OF step] by (auto simp: lets_go_def)
  qed
next
  case False
  then show ?thesis
    using session_step.recheck_fresh [of w h env cfg jitter passes] assms
    by (intro exI [of _ "leave h Reading w"] conjI) (auto simp: lets_go_def)
qed

lemma holder_lets_go:
  assumes "holds_lock (sh_pc w h)"
  shows "\<exists>w'. (session_step env cfg jitter passes)\<^sup>*\<^sup>* w w' \<and> lets_go h w w'"
proof (cases "sh_pc w h")
  case (Posted f res)
  then obtain w' where "session_step env cfg jitter passes w w'" "lets_go h w w'"
    using posted_lets_go by metis
  then show ?thesis by (intro exI conjI r_into_rtranclp)
next
  case (Holding f)
  then show ?thesis by (rule holding_lets_go)
next
  case (Snapshot f rt n)
  then show ?thesis by (rule snapshot_lets_go)
qed (use assms in simp_all)

lemma reader_finishes:
  assumes "sh_pc w t = Reading \<or> finished (sh_pc w t)"
  shows "\<exists>w'. (session_step env cfg jitter passes)\<^sup>*\<^sup>* w w' \<and> finished (sh_pc w' t)"
proof (cases "finished (sh_pc w t)")
  case False
  then have "session_step env cfg jitter passes w (goto t (Returned (Inr (Some (st_access_token (sh_state w))))) w)"
    using assms by (intro session_step.read) simp
  then show ?thesis by (intro exI conjI) (rule r_into_rtranclp, assumption, simp add: finished_def)
qed (intro exI conjI, rule rtranclp.rtrancl_refl, assumption)

lemma waiter_finishes:
  assumes "sh_pc w t = Waiting f" "sh_lock w = None"
  shows "\<exists>w'. (session_step env cfg jitter passes)\<^sup>*\<^sup>* w w' \<and> finished (sh_pc w' t)"
proof -
  let ?w1 = "goto t (Holding f) w\<lparr>sh_lock := Some t\<rparr>"
  have step: "session_step env cfg jitter passes w ?w1" using assms by (rule session_step.acquire)
  obtain w2 where w2: "(session_step env cfg jitter passes)\<^sup>*\<^sup>* ?w1 w2" "lets_go t ?w1 w2"
    using holder_lets_go [of ?w1 t env cfg jitter passes] by auto
  obtain w3 where "(session_step env cfg jitter passes)\<^sup>*\<^sup>* w2 w3" "finished (sh_pc w3 t)"
    using reader_finishes [of w2 t env cfg jitter passes] w2(2) by (auto simp: lets_go_def)
  then show ?thesis using step_star [OF step] w2(1) rtranclp_trans by metis
qed

text \<open>
  Claim C34. No caller of a session is stuck: in every reachable state, whoever holds the lock or waits
  for it and whatever the provider answers, every call can still be run to its end by steps of the
  tasks alone. The lock is released on every path, failed grants and panics included.
\<close>

theorem session_callers_finish:
  assumes "(session_step env cfg jitter passes)\<^sup>*\<^sup>* (fresh_session st n) w"
  shows "\<exists>w'. (session_step env cfg jitter passes)\<^sup>*\<^sup>* w w' \<and> finished (sh_pc w' t)"
proof -
  note lock = lock_inv_reachable [OF assms]
  have waiting: "\<exists>w'. (session_step env cfg jitter passes)\<^sup>*\<^sup>* w w' \<and> finished (sh_pc w' t)"
    if lock: "lock_inv w" and pc: "sh_pc w t = Waiting f" for w f
  proof (cases "sh_lock w")
    case (Some h)
    then have held: "holds_lock (sh_pc w h)" using lock by (simp add: lock_inv_def)
    then have "h \<noteq> t" using pc by auto
    obtain w1 where w1: "(session_step env cfg jitter passes)\<^sup>*\<^sup>* w w1" "lets_go h w w1"
      using holder_lets_go [OF held] by blast
    then obtain w2 where "(session_step env cfg jitter passes)\<^sup>*\<^sup>* w1 w2" "finished (sh_pc w2 t)"
      using waiter_finishes [of w1 t f env cfg jitter passes] pc \<open>h \<noteq> t\<close> by (auto simp: lets_go_def)
    then show ?thesis using w1(1) rtranclp_trans by metis
  qed (use pc waiter_finishes in blast)
  show ?thesis
  proof (cases "holds_lock (sh_pc w t)")
    case True
    then obtain w1 where "(session_step env cfg jitter passes)\<^sup>*\<^sup>* w w1" "lets_go t w w1"
      using holder_lets_go by blast
    then show ?thesis using reader_finishes [of w1 t] rtranclp_trans by (metis lets_go_def)
  next
    case False
    show ?thesis
    proof (cases "sh_pc w t")
      case Idle
      then have step: "session_step env cfg jitter passes w (goto t (Waiting True) w)"
        by (rule session_step.force)
      show ?thesis
        using waiting [of "goto t (Waiting True) w" True] lock_inv_step [OF step lock]
          step_star [OF step] by auto
    next
      case (Waiting f)
      then show ?thesis by (rule waiting [OF lock])
    qed (use False reader_finishes [of w t env cfg jitter passes] in \<open>simp_all add: finished_def\<close>)
  qed
qed

section \<open>A rotation\<close>

text \<open>A provider whose \<open>n\<close>-th refresh token is \<open>n\<close> letters long, and a session about to expire.\<close>

definition letters :: "nat \<Rightarrow> string" where
  "letters n = replicate n CHR ''r''"

definition letter_response :: "string \<Rightarrow> token_response" where
  "letter_response body = \<lparr>tr_access_token = body, tr_token_type = ''Bearer'', tr_id_token = None,
     tr_refresh_token = Some body, tr_expires_in = Some 3600, tr_scope = None\<rparr>"

definition letter_env :: "nat token_env" where
  "letter_env =
     \<lparr>http_get = (\<lambda>n uri. (SendFailed ''down'', n)),
      http_post = (\<lambda>n uri form.
        if map_of form ''refresh_token'' = Some (letters n) then (Reply 200 (letters (Suc n)), Suc n)
        else (Reply 400 ''invalid_grant'', n)),
      instant_now = id, utc_now = (\<lambda>_. 0), url_parse = (\<lambda>s. Inl ''no url''),
      metadata_from_str = (\<lambda>_. Inl ''no metadata''), jwks_from_str = (\<lambda>_. Inl ''no key set''),
      utc_now_ns = (\<lambda>_. 0), timedelta_max = 2 ^ 100, datetime_min = - (2 ^ 100), datetime_max = 2 ^ 100,
      token_from_str = (\<lambda>body. Inr (letter_response body)), oauth_error_from_str = (\<lambda>_. None)\<rparr>"

definition letter_config :: session_config where
  "letter_config = session_config_new ''https://idp/t'' ''edge''"

definition letter_state :: session_state where
  "letter_state = \<lparr>st_access_token = ''at'', st_refresh_token = Some (letters 1), st_id_token = None,
     st_expires_at = Some 10, st_sub = None, st_groups = []\<rparr>"

lemma letter_refresh:
  "token_refresh letter_env ep (refresh_request_for letter_config rt) n =
     (if rt = letters n then (Inr (letter_response (letters (Suc n))), Suc n)
      else (Inl (HttpStatusErr ''token'' 400), n))"
  by (simp add: token_refresh_def post_form_def letter_env_def letter_config_def session_config_new_def
      refresh_request_for_def is_success_def)

interpretation letter_provider: rotating_provider letter_env letter_config "(=)" "\<lambda>n rt. rt = letters n"
  by unfold_locales (auto simp: letter_refresh letter_response_def split: if_splits)

lemma letter_due: "needs_refresh letter_env letter_config 0 letter_state n"
  by (simp add: needs_refresh_def refresh_due_def letter_env_def letter_state_def letter_config_def
      session_config_new_def default_refresh_skew_def from_secs_def duration_saturating_add_def duration_max_def)

lemma letter_run:
  "\<exists>w. (session_step letter_env letter_config 0 (=))\<^sup>*\<^sup>* (fresh_session letter_state 1) w
     \<and> length (sh_grants w) = 1"
proof -
  let ?step = "session_step letter_env letter_config 0 (=)"
  let ?w0 = "fresh_session letter_state 1"
  let ?w1 = "goto 0 (Waiting False) ?w0"
  let ?w2 = "goto 0 (Holding False) ?w1\<lparr>sh_lock := Some 0\<rparr>"
  let ?w3 = "goto 0 (Snapshot False (letters 1) 1) ?w2"
  have s1: "?step ?w0 ?w1" by (rule session_step.check_stale) (simp_all add: fresh_session_def letter_due)
  have s2: "?step ?w1 ?w2" by (rule session_step.acquire) (simp_all add: fresh_session_def)
  have s3: "?step ?w2 ?w3"
    using session_step.snapshot [of ?w2 0 False letter_env letter_config 0 "letters 1" "(=)"]
    by (simp add: fresh_session_def letter_due) (simp add: letter_state_def)
  obtain res n' where
    "token_refresh letter_env (sc_token_endpoint letter_config) (refresh_request_for letter_config (letters 1)) (sh_net ?w3) = (res, n')"
    by fastforce
  note s4 = session_step.post [OF _ this, of 0 False 1 0 "(=)", simplified fun_upd_same goto_sel, OF refl]
  show ?thesis
    by (intro exI conjI) (rule step_star [OF s1 step_star [OF s2 step_star [OF s3 step_one [OF s4]]]],
      simp add: fresh_session_def)
qed

theorem refresh_grants_serialised_witness:
  "\<exists>w :: nat shared_session. length (sh_grants w) = 1
     \<and> (\<forall>g\<in>set (sh_grants w).
          (\<not> ge_after_loss g \<longrightarrow> ge_refresh_token g = letters (ge_sent g))
          \<and> (ge_forced g \<or> refresh_due letter_env letter_config 0 (ge_expires_at g) (ge_checked g)))
     \<and> (\<forall>t t'. holds_lock (sh_pc w t) \<and> holds_lock (sh_pc w t') \<longrightarrow> t = t')"
proof -
  obtain w where run: "(session_step letter_env letter_config 0 (=))\<^sup>*\<^sup>* (fresh_session letter_state 1) w"
      and one: "length (sh_grants w) = 1"
    using letter_run by blast
  have "\<forall>rt. st_refresh_token letter_state = Some rt \<longrightarrow> rt = letters 1" by (simp add: letter_state_def)
  from refresh_grants_serialised [OF letter_provider.rotating_provider_axioms this run] one
  show ?thesis by (intro exI [of _ w]) simp
qed

theorem session_callers_finish_witness:
  "\<exists>w w'. (session_step letter_env letter_config 0 (=))\<^sup>*\<^sup>* (fresh_session letter_state 1) w
     \<and> length (sh_grants w) = 1
     \<and> (session_step letter_env letter_config 0 (=))\<^sup>*\<^sup>* w w' \<and> finished (sh_pc w' 7)"
proof -
  obtain w where run: "(session_step letter_env letter_config 0 (=))\<^sup>*\<^sup>* (fresh_session letter_state 1) w"
      and "length (sh_grants w) = 1"
    using letter_run by blast
  then show ?thesis using session_callers_finish [OF run, of 7] by blast
qed

text \<open>
  A lifetime the duration type holds but the calendar does not makes the client panic, with the new
  access token stored beside the refresh token it replaced.
\<close>

lemma huge_lifetime_panics:
  assumes "0 \<le> utc_now_ns env n" "timedelta_max env \<ge> secs * 1000000000" "secs * 1000000000 > datetime_max env"
    "datetime_max env \<ge> 0"
  shows "apply_response env n (r\<lparr>tr_expires_in := Some secs\<rparr>) st = None"
  using assms by (simp add: apply_response_def expires_at_from_def Let_def)

section \<open>The storage contract\<close>

text \<open>What the client relies on of a keystore, and the in-memory one.\<close>

locale token_storage =
  fixes store_op :: "string \<Rightarrow> stored_tokens \<Rightarrow> 'm \<Rightarrow> 'm" and retrieve_op :: "string \<Rightarrow> 'm \<Rightarrow> stored_tokens option"
    and delete_op :: "string \<Rightarrow> 'm \<Rightarrow> 'm"
  assumes retrieve_store: "retrieve_op k (store_op k' t m) = (if k = k' then Some t else retrieve_op k m)"
    and retrieve_delete: "retrieve_op k (delete_op k' m) = (if k = k' then None else retrieve_op k m)"
begin

lemma last_store_wins: "retrieve_op k (store_op k t (store_op k t' m)) = Some t"
  by (simp add: retrieve_store)

lemma delete_idempotent: "retrieve_op k (delete_op k' (delete_op k' m)) = retrieve_op k (delete_op k' m)"
  by (simp add: retrieve_delete)

end

interpretation memory_storage: token_storage storage_store storage_retrieve storage_delete
  by unfold_locales (simp_all add: storage_store_def storage_retrieve_def storage_delete_def)

end
