(* ===== verification/Comms_Batch.thy ===== *)
theory Comms_Batch
  imports Policy_Verifier "HOL-Library.Sublist"
begin

unbundle bit_operations_syntax

text \<open>
  Wire envelopes (\<open>sng-core/src/envelope.rs\<close>) and the batch builder of the telemetry egress
  (\<open>sng-comms/src/batch.rs\<close>): the validation of an envelope, the size- and time-bounded accumulator,
  and the MessagePack array header under which cached encodings are concatenated. The encoder of a
  single envelope (crate \<open>rmp_serde\<close>) is a parameter.
\<close>

section \<open>Envelopes\<close>

datatype event_class =
  EvFlow | EvDns | EvHttp | EvIps | EvZtna | EvSdwan | EvAgent | EvPosture | EvSystem | EvDlp

fun event_class_as_str :: "event_class \<Rightarrow> string" where
  "event_class_as_str EvFlow = ''flow''"
| "event_class_as_str EvDns = ''dns''"
| "event_class_as_str EvHttp = ''http''"
| "event_class_as_str EvIps = ''ips''"
| "event_class_as_str EvZtna = ''ztna''"
| "event_class_as_str EvSdwan = ''sdwan''"
| "event_class_as_str EvAgent = ''agent''"
| "event_class_as_str EvPosture = ''posture''"
| "event_class_as_str EvSystem = ''system''"
| "event_class_as_str EvDlp = ''dlp''"

datatype platform = PfWindows | PfMacos | PfLinux | PfIos | PfAndroid

fun platform_as_str :: "platform \<Rightarrow> string" where
  "platform_as_str PfWindows = ''windows''"
| "platform_as_str PfMacos = ''macos''"
| "platform_as_str PfLinux = ''linux''"
| "platform_as_str PfIos = ''ios''"
| "platform_as_str PfAndroid = ''android''"

text \<open>A timestamp is the number of nanoseconds since the Unix epoch.\<close>

record envelope =
  env_schema_version :: u8
  env_event_id :: uuid
  env_tenant_id :: uuid
  env_device_id :: uuid
  env_site_id :: "uuid option"
  env_timestamp :: int
  env_event_class :: event_class
  env_platform :: platform
  env_traffic_class :: "traffic_class option"
  env_bytes_in :: u64
  env_bytes_out :: u64
  env_payload :: bytes

definition go_zero_time_secs :: int where
  "go_zero_time_secs = - 62135596800"

datatype wire_error = WireEncode string | WireDecode string | WireSchema string

fun wire_error_code :: "wire_error \<Rightarrow> error_code" where
  "wire_error_code (WireEncode _) = Code_WireEncoding"
| "wire_error_code (WireDecode _) = Code_WireEncoding"
| "wire_error_code (WireSchema _) = Code_WireSchema"

definition envelope_validate :: "envelope \<Rightarrow> wire_error + unit" where
  "envelope_validate e =
     (if env_schema_version e = 0 then Inl (WireSchema ''schema_version is required'')
      else if env_event_id e = 0 then Inl (WireSchema ''event_id is required'')
      else if env_tenant_id e = 0 then Inl (WireSchema ''tenant_id is required'')
      else if env_device_id e = 0 then Inl (WireSchema ''device_id is required'')
      else if env_timestamp e div 1000000000 = go_zero_time_secs \<and> env_timestamp e mod 1000000000 = 0
      then Inl (WireSchema ''timestamp is required'')
      else if env_payload e = [] then Inl (WireSchema ''payload is required'')
      else Inr ())"

section \<open>The batch builder\<close>

text \<open>Lengths and sizes are \<open>usize\<close> values of a 64-bit target.\<close>

definition usize_max :: nat where
  "usize_max = 2 ^ 64 - 1"

definition usize_saturating_add :: "nat \<Rightarrow> nat \<Rightarrow> nat" where
  "usize_saturating_add a b = min (a + b) usize_max"

record encoded_envelope =
  en_envelope :: envelope
  en_encoded :: bytes

type_synonym envelope_encoder = "envelope \<Rightarrow> string + bytes"

definition encoded_envelope_encode :: "envelope_encoder \<Rightarrow> envelope \<Rightarrow> string + encoded_envelope" where
  "encoded_envelope_encode enc e = and_then (enc e) (\<lambda>b. Inr \<lparr>en_envelope = e, en_encoded = b\<rparr>)"

definition encoded_len :: "encoded_envelope \<Rightarrow> nat" where
  "encoded_len e = length (en_encoded e)"

datatype batch_flush_reason = EventsLimit | BytesLimit | TimerElapsed | Forced

record batch_config =
  bc_max_events :: nat
  bc_max_bytes :: nat
  bc_flush_interval :: nat

definition batch_config_default :: batch_config where
  "batch_config_default =
     \<lparr>bc_max_events = 256, bc_max_bytes = 64 * 1024, bc_flush_interval = from_secs 5\<rparr>"

definition batch_config_normalize :: "batch_config \<Rightarrow> batch_config" where
  "batch_config_normalize c =
     c\<lparr>bc_max_events := max (bc_max_events c) 1, bc_max_bytes := max (bc_max_bytes c) 1\<rparr>"

record batch =
  ba_envelopes :: "encoded_envelope list"
  ba_estimated_bytes :: nat
  ba_started_at :: int
  ba_reason :: batch_flush_reason

record batch_builder =
  bb_config :: batch_config
  bb_pending :: "encoded_envelope list"
  bb_estimated_bytes :: nat
  bb_started_at :: "int option"

definition batch_builder_new :: "batch_config \<Rightarrow> batch_builder" where
  "batch_builder_new c =
     \<lparr>bb_config = batch_config_normalize c, bb_pending = [], bb_estimated_bytes = 0, bb_started_at = None\<rparr>"

text \<open>The clock of \<open>take\<close> is consulted only when no start was recorded.\<close>

definition batch_take :: "int \<Rightarrow> batch_flush_reason \<Rightarrow> batch_builder \<Rightarrow> batch \<times> batch_builder" where
  "batch_take utc_now reason b =
     (\<lparr>ba_envelopes = bb_pending b, ba_estimated_bytes = bb_estimated_bytes b,
       ba_started_at = (case bb_started_at b of Some t \<Rightarrow> t | None \<Rightarrow> utc_now), ba_reason = reason\<rparr>,
      b\<lparr>bb_pending := [], bb_estimated_bytes := 0, bb_started_at := None\<rparr>)"

definition limit_reason :: "batch_builder \<Rightarrow> batch_flush_reason" where
  "limit_reason b = (if length (bb_pending b) \<ge> bc_max_events (bb_config b) then EventsLimit else BytesLimit)"

definition push_pre_flush :: "int \<Rightarrow> nat \<Rightarrow> batch_builder \<Rightarrow> batch option \<times> batch_builder" where
  "push_pre_flush utc_now sz b =
     (if bb_pending b \<noteq> [] \<and> (length (bb_pending b) \<ge> bc_max_events (bb_config b)
          \<or> usize_saturating_add (bb_estimated_bytes b) sz > bc_max_bytes (bb_config b))
      then map_prod Some id (batch_take utc_now (limit_reason b) b)
      else (None, b))"

definition push_append :: "encoded_envelope \<Rightarrow> batch_builder \<Rightarrow> batch_builder" where
  "push_append e b =
     b\<lparr>bb_started_at := (case bb_started_at b of None \<Rightarrow> Some (env_timestamp (en_envelope e)) | s \<Rightarrow> s),
       bb_estimated_bytes := usize_saturating_add (bb_estimated_bytes b) (encoded_len e),
       bb_pending := bb_pending b @ [e]\<rparr>"

definition batch_push ::
  "envelope_encoder \<Rightarrow> int \<Rightarrow> envelope \<Rightarrow> batch_builder \<Rightarrow> batch option \<times> batch_builder" where
  "batch_push enc utc_now env b =
     (case encoded_envelope_encode enc env of
        Inl _ \<Rightarrow> (None, b)
      | Inr encoded \<Rightarrow>
          (case push_pre_flush utc_now (encoded_len encoded) b of (pre_flush, b) \<Rightarrow>
             let b = push_append encoded b in
             if pre_flush \<noteq> None then (pre_flush, b)
             else if length (bb_pending b) \<ge> bc_max_events (bb_config b)
                 \<or> bb_estimated_bytes b > bc_max_bytes (bb_config b)
             then map_prod Some id (batch_take utc_now (limit_reason b) b)
             else (None, b)))"

definition poll_timer :: "int \<Rightarrow> int \<Rightarrow> batch_builder \<Rightarrow> batch option \<times> batch_builder" where
  "poll_timer utc_now now b =
     (case bb_started_at b of
        None \<Rightarrow> (None, b)
      | Some started \<Rightarrow>
          if bb_pending b = [] then (None, b)
          else if now - started < 0 then (None, b\<lparr>bb_started_at := Some now\<rparr>)
          else if now - started \<ge> int (bc_flush_interval (bb_config b))
          then map_prod Some id (batch_take utc_now TimerElapsed b)
          else (None, b))"

definition force_flush :: "int \<Rightarrow> batch_builder \<Rightarrow> batch option \<times> batch_builder" where
  "force_flush utc_now b =
     (if bb_pending b = [] then (None, b) else map_prod Some id (batch_take utc_now Forced b))"

section \<open>The array header\<close>

definition write_msgpack_array_header :: "nat \<Rightarrow> bytes" where
  "write_msgpack_array_header len =
     (if len < 256 \<and> len \<le> 15 then [0x90 OR of_nat len]
      else if len < 65536 then 0xDC # be16 (of_nat len)
      else 0xDD # be32 (if len < 2 ^ 32 then of_nat len else - 1))"

section \<open>What the builder keeps\<close>

definition total_len :: "encoded_envelope list \<Rightarrow> nat" where
  "total_len es = sum_list (map encoded_len es)"

lemma total_len_simps [simp]:
  "total_len [] = 0" "total_len (e # es) = encoded_len e + total_len es"
  "total_len (es @ es') = total_len es + total_len es'"
  by (simp_all add: total_len_def)

text \<open>A list of envelopes that may leave as one batch under a configuration.\<close>

definition within_limits :: "batch_config \<Rightarrow> encoded_envelope list \<Rightarrow> bool" where
  "within_limits c es \<longleftrightarrow>
     length es \<le> bc_max_events c \<and> (length es \<le> 1 \<or> min (total_len es) usize_max \<le> bc_max_bytes c)"

definition builder_inv :: "batch_config \<Rightarrow> batch_builder \<Rightarrow> bool" where
  "builder_inv c b \<longleftrightarrow>
     bb_config b = batch_config_normalize c
     \<and> bb_estimated_bytes b = min (total_len (bb_pending b)) usize_max
     \<and> (bb_started_at b = None \<longleftrightarrow> bb_pending b = [])
     \<and> within_limits (bb_config b) (bb_pending b)"

definition batch_ok :: "batch_config \<Rightarrow> batch \<Rightarrow> bool" where
  "batch_ok c ba \<longleftrightarrow>
     ba_envelopes ba \<noteq> [] \<and> within_limits (batch_config_normalize c) (ba_envelopes ba)
     \<and> ba_estimated_bytes ba = min (total_len (ba_envelopes ba)) usize_max"

lemma builder_inv_new: "builder_inv c (batch_builder_new c)"
  by (simp add: builder_inv_def batch_builder_new_def within_limits_def)

text \<open>
  One call of the builder, in the shape all operations have: what comes out and what stays are, in
  order, what was there and what came in.
\<close>

definition flushes ::
  "batch_config \<Rightarrow> batch_builder \<Rightarrow> encoded_envelope list \<Rightarrow> batch option \<times> batch_builder \<Rightarrow> bool" where
  "flushes c b new r \<longleftrightarrow>
     builder_inv c (snd r)
     \<and> (case fst r of
          None \<Rightarrow> bb_pending (snd r) = bb_pending b @ new
        | Some ba \<Rightarrow> batch_ok c ba \<and> ba_envelopes ba @ bb_pending (snd r) = bb_pending b @ new)"

lemma flushes_take:
  assumes "builder_inv c b" "bb_pending b \<noteq> []"
  shows "flushes c b [] (map_prod Some id (batch_take now r b))"
  using assms
  by (auto simp: flushes_def batch_take_def builder_inv_def batch_ok_def within_limits_def)

lemma flushes_none: "builder_inv c b \<Longrightarrow> flushes c b [] (None, b)"
  by (simp add: flushes_def)

lemma flushes_poll_timer: "builder_inv c b \<Longrightarrow> flushes c b [] (poll_timer now t b)"
  by (auto simp: poll_timer_def flushes_take flushes_none split: option.splits)
    (auto simp: flushes_def builder_inv_def)

lemma flushes_force_flush: "builder_inv c b \<Longrightarrow> flushes c b [] (force_flush now b)"
  by (auto simp: force_flush_def flushes_take flushes_none)

lemma flushes_push_pre_flush: "builder_inv c b \<Longrightarrow> flushes c b [] (push_pre_flush now n b)"
  by (auto simp: push_pre_flush_def flushes_take flushes_none)

text \<open>After the check before the push there is room for the new envelope, or nothing else is pending.\<close>

lemma push_pre_flush_room:
  assumes "builder_inv c b" "push_pre_flush now n b = (pre, b')"
  shows "bb_pending b' = [] \<or> (pre = None \<and> length (bb_pending b') < bc_max_events (bb_config b')
     \<and> usize_saturating_add (bb_estimated_bytes b') n \<le> bc_max_bytes (bb_config b'))"
    "pre \<noteq> None \<Longrightarrow> bb_pending b' = []"
  using assms by (auto simp: push_pre_flush_def batch_take_def split: if_splits)

lemma usize_saturating_add_total:
  "usize_saturating_add (min (total_len es) usize_max) (encoded_len e) = min (total_len (es @ [e])) usize_max"
  by (simp add: usize_saturating_add_def)

lemma push_append_inv:
  assumes "builder_inv c b"
    and "bb_pending b = [] \<or> (length (bb_pending b) < bc_max_events (bb_config b)
      \<and> usize_saturating_add (bb_estimated_bytes b) (encoded_len e) \<le> bc_max_bytes (bb_config b))"
  shows "builder_inv c (push_append e b)" "bb_pending (push_append e b) = bb_pending b @ [e]"
    "bb_config (push_append e b) = bb_config b"
proof -
  have "1 \<le> bc_max_events (bb_config b)" using assms(1) by (simp add: builder_inv_def batch_config_normalize_def)
  then have "within_limits (bb_config b) (bb_pending b @ [e])"
    using assms usize_saturating_add_total [of "bb_pending b" e] by (auto simp: within_limits_def builder_inv_def)
  then show "builder_inv c (push_append e b)"
    using assms(1) usize_saturating_add_total [of "bb_pending b" e]
    by (auto simp: builder_inv_def push_append_def split: option.splits)
qed (simp_all add: push_append_def)

lemma flushes_push:
  assumes "builder_inv c b"
  shows "flushes c b (case encoded_envelope_encode enc e of Inl _ \<Rightarrow> [] | Inr en \<Rightarrow> [en]) (batch_push enc now e b)"
proof (cases "encoded_envelope_encode enc e")
  case (Inl x)
  then show ?thesis using assms by (simp add: batch_push_def flushes_none)
next
  case (Inr en)
  obtain pre b1 where pre: "push_pre_flush now (encoded_len en) b = (pre, b1)" by fastforce
  have f: "flushes c b [] (pre, b1)" using flushes_push_pre_flush [OF assms] pre by metis
  then have b1: "builder_inv c b1" by (simp add: flushes_def)
  note room = push_pre_flush_room [OF assms pre]
  let ?b2 = "push_append en b1"
  have b2: "builder_inv c ?b2" "bb_pending ?b2 = bb_pending b1 @ [en]"
    using push_append_inv [OF b1] room(1) by blast+
  show ?thesis
  proof (cases pre)
    case None
    have "flushes c ?b2 [] (map_prod Some id (batch_take now r ?b2))" for r
      using flushes_take [OF b2(1)] b2(2) by simp
    moreover have "bb_pending b1 = bb_pending b" using f None by (simp add: flushes_def)
    ultimately show ?thesis using None b2 Inr pre by (simp add: batch_push_def flushes_def Let_def)
  next
    case (Some ba)
    then have "batch_push enc now e b = (Some ba, ?b2)" using Inr pre by (simp add: batch_push_def Let_def)
    then show ?thesis using f b2 Inr Some by (simp add: flushes_def)
  qed
qed

section \<open>Runs of the builder\<close>

datatype builder_call = BPush envelope | BTimer int | BForce

fun run_builder_call ::
  "envelope_encoder \<Rightarrow> int \<Rightarrow> builder_call \<Rightarrow> batch_builder \<Rightarrow> batch option \<times> batch_builder" where
  "run_builder_call enc now (BPush e) b = batch_push enc now e b"
| "run_builder_call enc now (BTimer t) b = poll_timer now t b"
| "run_builder_call enc now BForce b = force_flush now b"

text \<open>The batches handed out by a run, oldest first, and the builder at its end.\<close>

fun builder_run ::
  "envelope_encoder \<Rightarrow> int \<Rightarrow> builder_call list \<Rightarrow> batch_builder \<Rightarrow> batch list \<times> batch_builder" where
  "builder_run enc now [] b = ([], b)"
| "builder_run enc now (c # cs) b =
     (case run_builder_call enc now c b of (out, b) \<Rightarrow>
      case builder_run enc now cs b of (outs, b) \<Rightarrow>
        ((case out of None \<Rightarrow> outs | Some ba \<Rightarrow> ba # outs), b))"

text \<open>The encodings a run brings in: those of the pushed envelopes that the encoder accepts.\<close>

fun brought_in :: "envelope_encoder \<Rightarrow> builder_call \<Rightarrow> encoded_envelope list" where
  "brought_in enc (BPush e) = (case encoded_envelope_encode enc e of Inl _ \<Rightarrow> [] | Inr en \<Rightarrow> [en])"
| "brought_in enc _ = []"

lemma run_builder_call_flushes: "builder_inv c b \<Longrightarrow> flushes c b (brought_in enc call) (run_builder_call enc now call b)"
  by (cases call) (simp_all add: flushes_push flushes_poll_timer flushes_force_flush)

lemma builder_run_lossless:
  assumes "builder_inv c b" "builder_run enc now cs b = (outs, b')"
  shows "builder_inv c b' \<and> (\<forall>ba\<in>set outs. batch_ok c ba)
    \<and> concat (map ba_envelopes outs) @ bb_pending b' = bb_pending b @ concat (map (brought_in enc) cs)"
  using assms
proof (induction cs arbitrary: b outs)
  case (Cons call cs)
  obtain out b1 where o: "run_builder_call enc now call b = (out, b1)" by fastforce
  obtain outs1 where os: "builder_run enc now cs b1 = (outs1, b')" "outs = (case out of None \<Rightarrow> outs1 | Some ba \<Rightarrow> ba # outs1)"
    using Cons.prems(2) o by (auto split: prod.splits)
  have f: "flushes c b (brought_in enc call) (out, b1)" using run_builder_call_flushes [OF Cons.prems(1)] o by metis
  then have "builder_inv c b1" by (simp add: flushes_def)
  note ih = Cons.IH [OF this os(1)]
  show ?case
  proof (cases out)
    case None
    then show ?thesis using f ih os(2) by (simp add: flushes_def)
  next
    case (Some ba)
    then have "ba_envelopes ba @ bb_pending b1 = bb_pending b @ brought_in enc call" "batch_ok c ba"
      using f by (simp_all add: flushes_def)
    then show ?thesis using ih os(2) Some by simp
  qed
qed simp

text \<open>
  Claim C31. The builder loses, duplicates and reorders nothing: over every run, the envelopes of the
  batches handed out followed by those still pending are the envelopes pushed, in their order. Every
  batch handed out is non-empty, holds at most the configured number of events, and exceeds the byte
  limit only when it is a single event; its size estimate is the sum of the encodings it holds.
\<close>

theorem batches_lossless_and_bounded:
  assumes "builder_run enc now calls (batch_builder_new c) = (outs, b)"
  shows "concat (map ba_envelopes outs) @ bb_pending b = concat (map (brought_in enc) calls)
    \<and> (\<forall>ba \<in> set outs. ba_envelopes ba \<noteq> [] \<and> length (ba_envelopes ba) \<le> max 1 (bc_max_events c)
        \<and> (length (ba_envelopes ba) = 1 \<or> ba_estimated_bytes ba \<le> max 1 (bc_max_bytes c))
        \<and> ba_estimated_bytes ba = min (total_len (ba_envelopes ba)) usize_max)"
proof (intro conjI ballI)
  note r = builder_run_lossless [OF builder_inv_new assms]
  then show "concat (map ba_envelopes outs) @ bb_pending b = concat (map (brought_in enc) calls)"
    by (simp add: batch_builder_new_def)
  fix ba
  assume "ba \<in> set outs"
  then have ok: "batch_ok c ba" using r by blast
  then have "length (ba_envelopes ba) = 1 \<or> \<not> length (ba_envelopes ba) \<le> 1"
    by (cases "ba_envelopes ba") (auto simp: batch_ok_def)
  with ok show "ba_envelopes ba \<noteq> []" "length (ba_envelopes ba) \<le> max 1 (bc_max_events c)"
      "length (ba_envelopes ba) = 1 \<or> ba_estimated_bytes ba \<le> max 1 (bc_max_bytes c)"
      "ba_estimated_bytes ba = min (total_len (ba_envelopes ba)) usize_max"
    by (auto simp: batch_ok_def within_limits_def batch_config_normalize_def max.commute)
qed









section \<open>The array header read back\<close>

text \<open>The three array forms of the MessagePack specification.\<close>

definition read_array_header :: "bytes \<Rightarrow> (nat \<times> bytes) option" where
  "read_array_header bs =
     (case bs of
        [] \<Rightarrow> None
      | b # rest \<Rightarrow>
          if drop_bit 4 b = 9 then Some (unat (b AND 15), rest)
          else if b = 0xDC then (case rest of h # l # r \<Rightarrow> Some (unat (from_be16 h l), r) | _ \<Rightarrow> None)
          else if b = 0xDD
          then (case rest of p # q # h # l # r \<Rightarrow> Some (unat (from_be32 p q h l), r) | _ \<Rightarrow> None)
          else None)"

lemma fixarray_bits:
  "list_all (\<lambda>k. drop_bit 4 (0x90 OR of_nat k :: u8) = 9 \<and> unat ((0x90 OR of_nat k :: u8) AND 15) = k) [0..<16]"
  by code_simp

lemma fixarray_byte:
  assumes "n \<le> 15"
  obtains b where "write_msgpack_array_header n = [b]" "drop_bit 4 b = 9" "unat (b AND 15) = n"
proof -
  have "drop_bit 4 (0x90 OR of_nat n :: u8) = 9 \<and> unat ((0x90 OR of_nat n :: u8) AND 15) = n"
    using assms by (intro bspec [OF fixarray_bits [unfolded list_all_iff]]) simp
  moreover have "write_msgpack_array_header n = [0x90 OR of_nat n]"
    using assms by (simp only: write_msgpack_array_header_def) simp
  ultimately show thesis using that by blast
qed

lemma read_array16: "read_array_header (0xDC # h # l # r) = Some (unat (from_be16 h l), r)"
  by (simp add: read_array_header_def)

lemma read_array32: "read_array_header (0xDD # p # q # h # l # r) = Some (unat (from_be32 p q h l), r)"
  by (simp add: read_array_header_def)

lemma array_header_round_trip:
  assumes "n < 2 ^ 32"
  shows "read_array_header (write_msgpack_array_header n @ rest) = Some (n, rest)"
proof -
  consider "n \<le> 15" | "15 < n" "n < 65536" | "15 < n" "65536 \<le> n" by linarith
  then show ?thesis
  proof cases
    case 1
    then obtain b where b: "write_msgpack_array_header n = [b]" "drop_bit 4 b = 9" "unat (b AND 15) = n"
      by (rule fixarray_byte)
    show ?thesis unfolding b(1) by (simp add: read_array_header_def b(2,3))
  next
    case 2
    then have "write_msgpack_array_header n = 0xDC # be16 (of_nat n)"
      by (simp only: write_msgpack_array_header_def not_le [symmetric]) simp
    moreover have "unat (of_nat n :: u16) = n" using 2 by (intro unat_of_nat_less) simp
    ultimately show ?thesis by (simp add: be16_def read_array16)
  next
    case 3
    then have "write_msgpack_array_header n = 0xDD # be32 (of_nat n)"
      using assms by (simp only: write_msgpack_array_header_def not_le [symmetric]) simp
    moreover have "unat (of_nat n :: u32) = n" using assms by (intro unat_of_nat_less) simp
    ultimately show ?thesis by (simp add: be32_def read_array32)
  qed
qed

section \<open>A builder in operation\<close>

text \<open>An encoder that knows one envelope, and a builder that hands out every event at once.\<close>

definition sample_envelope :: envelope where
  "sample_envelope =
     \<lparr>env_schema_version = 1, env_event_id = 1, env_tenant_id = 2, env_device_id = 3, env_site_id = None,
      env_timestamp = 0, env_event_class = EvFlow, env_platform = PfLinux, env_traffic_class = None,
      env_bytes_in = 0, env_bytes_out = 0, env_payload = [1]\<rparr>"

definition sample_encoder :: envelope_encoder where
  "sample_encoder e = (if e = sample_envelope then Inr [7] else Inl ''unsupported'')"

definition sample_batching :: batch_config where
  "sample_batching = \<lparr>bc_max_events = 1, bc_max_bytes = 100, bc_flush_interval = 0\<rparr>"

definition sample_encoded :: encoded_envelope where
  "sample_encoded = \<lparr>en_envelope = sample_envelope, en_encoded = [7]\<rparr>"

definition sample_batch :: batch where
  "sample_batch = \<lparr>ba_envelopes = [sample_encoded], ba_estimated_bytes = 1, ba_started_at = 0, ba_reason = EventsLimit\<rparr>"

lemma sample_push:
  "batch_push sample_encoder 0 sample_envelope (batch_builder_new sample_batching)
     = (Some sample_batch, batch_builder_new sample_batching)"
  by (simp add: batch_push_def encoded_envelope_encode_def sample_encoder_def push_pre_flush_def push_append_def
      batch_builder_new_def batch_config_normalize_def sample_batching_def encoded_len_def usize_saturating_add_def
      usize_max_def Let_def batch_take_def limit_reason_def sample_batch_def sample_encoded_def)
    (simp add: sample_envelope_def)

theorem batches_lossless_and_bounded_witness:
  "concat (map ba_envelopes [sample_batch]) @ bb_pending (batch_builder_new sample_batching)
     = concat (map (brought_in sample_encoder) [BPush sample_envelope])
   \<and> length (ba_envelopes sample_batch) \<le> 1"
proof -
  have run: "builder_run sample_encoder 0 [BPush sample_envelope] (batch_builder_new sample_batching)
      = ([sample_batch], batch_builder_new sample_batching)"
    by (simp add: sample_push)
  show ?thesis
    using batches_lossless_and_bounded [OF run]
    by (simp add: sample_batching_def)
qed



end
