(* ===== verification/Comms_Client.thy ===== *)
theory Comms_Client
  imports Comms_Batch
begin

text \<open>
  The control-plane connection of \<open>sng-comms\<close>: the error taxonomy and response classes (\<open>error.rs\<close>),
  the parsing of the dial address, and a request with the collection of its response (\<open>client.rs\<close>).
  TLS and HTTP/2 are third-party: the record \<open>h2_ops\<close> stands for an exchange on a connection.
\<close>

section \<open>Response classes and errors\<close>

datatype response_class =
  ClSuccess | ClNotModified | ClUnauthorized | ClBadRequest | ClNotFound | ClRateLimited | ClServerError | ClOther

definition from_status :: "u16 \<Rightarrow> response_class" where
  "from_status status =
     (let s = unat status in
      if s = 304 then ClNotModified
      else if 200 \<le> s \<and> s \<le> 299 then ClSuccess
      else if s = 401 \<or> s = 403 then ClUnauthorized
      else if s = 400 \<or> s = 422 then ClBadRequest
      else if s = 404 then ClNotFound
      else if s = 429 then ClRateLimited
      else if 500 \<le> s \<and> s \<le> 599 then ClServerError
      else ClOther)"

definition class_is_retryable :: "response_class \<Rightarrow> bool" where
  "class_is_retryable c \<longleftrightarrow> c \<in> {ClRateLimited, ClServerError}"

text \<open>Errors of the identity loader and of the TLS configuration are carried as their messages.\<close>

datatype comms_error =
    CommsIdentity string
  | CommsConnect string
  | CommsAlpnMismatch
  | CommsIo string
  | CommsHttp2 string
  | CommsServer response_class string
  | CommsEncoding string
  | CommsEnvelopeInvalid wire_error
  | CommsCompression string
  | CommsPolicy verification_error
  | CommsPolicyVersion string
  | CommsSequenceRegression string u64 u64
  | CommsConfig string
  | CommsTlsConfig string

fun comms_error_code :: "comms_error \<Rightarrow> error_code" where
  "comms_error_code (CommsIdentity _) = Code_IdentityInvalid"
| "comms_error_code (CommsConnect _) = Code_ControlPlaneUnreachable"
| "comms_error_code (CommsIo _) = Code_ControlPlaneUnreachable"
| "comms_error_code (CommsHttp2 _) = Code_ControlPlaneUnreachable"
| "comms_error_code CommsAlpnMismatch = Code_ControlPlaneUnreachable"
| "comms_error_code (CommsServer c _) =
     (case c of ClUnauthorized \<Rightarrow> Code_IdentityRejected | ClNotFound \<Rightarrow> Code_ResourceMissing
      | _ \<Rightarrow> Code_ControlPlaneUnreachable)"
| "comms_error_code (CommsEncoding _) = Code_WireEncoding"
| "comms_error_code (CommsCompression _) = Code_WireEncoding"
| "comms_error_code (CommsEnvelopeInvalid e) = wire_error_code e"
| "comms_error_code (CommsPolicy e) = verification_error_code e"
| "comms_error_code (CommsPolicyVersion _) = Code_BundleRejected"
| "comms_error_code (CommsSequenceRegression _ _ _) = Code_SequenceRegression"
| "comms_error_code (CommsConfig _) = Code_ConfigInvalid"
| "comms_error_code (CommsTlsConfig _) = Code_ConfigInvalid"

fun comms_is_retryable :: "comms_error \<Rightarrow> bool" where
  "comms_is_retryable (CommsConnect _) = True"
| "comms_is_retryable (CommsIo _) = True"
| "comms_is_retryable (CommsHttp2 _) = True"
| "comms_is_retryable (CommsServer c _) = class_is_retryable c"
| "comms_is_retryable _ = False"

section \<open>The dial address\<close>

text \<open>
  \<open>rsplit_once\<close> and \<open>split_once\<close> at a character, and the parser of a \<open>u16\<close>. The messages show the address
  as it is, without the quoting and escaping of the debug format, and without the closing advice of the
  one on unbracketed addresses.
\<close>

definition split_once :: "char \<Rightarrow> string \<Rightarrow> (string \<times> string) option" where
  "split_once c s = (case dropWhile (\<lambda>x. x \<noteq> c) s of [] \<Rightarrow> None | _ # r \<Rightarrow> Some (takeWhile (\<lambda>x. x \<noteq> c) s, r))"

definition rsplit_once :: "char \<Rightarrow> string \<Rightarrow> (string \<times> string) option" where
  "rsplit_once c s = map_option (\<lambda>(r, h). (rev h, rev r)) (split_once c (rev s))"

definition digit_value :: "char \<Rightarrow> nat option" where
  "digit_value c = (let n = of_char c in if 48 \<le> n \<and> n \<le> 57 then Some (n - 48) else None)"

fun parse_digits :: "nat \<Rightarrow> string \<Rightarrow> nat option" where
  "parse_digits acc [] = Some acc"
| "parse_digits acc (c # cs) =
     (case digit_value c of
        None \<Rightarrow> None
      | Some d \<Rightarrow> if acc * 10 + d < 2 ^ 16 then parse_digits (acc * 10 + d) cs else None)"

definition parse_u16 :: "string \<Rightarrow> u16 option" where
  "parse_u16 s =
     (let digits = (case s of c # r \<Rightarrow> if c = CHR ''+'' then r else s | [] \<Rightarrow> s) in
      if digits = [] then None else map_option of_nat (parse_digits 0 digits))"

definition parse_host_port :: "string \<Rightarrow> comms_error + string \<times> u16" where
  "parse_host_port s =
     (case strip_prefix ''['' s of
        Some stripped \<Rightarrow>
          (case split_once (CHR '']'') stripped of
             None \<Rightarrow> Inl (CommsConfig (''missing ']' in bracketed IPv6 address: '' @ s))
           | Some (host, rest) \<Rightarrow>
               (case strip_prefix '':'' rest of
                  None \<Rightarrow> Inl (CommsConfig (''missing ':port' suffix after ']' in bracketed address: '' @ s))
                | Some port_str \<Rightarrow>
                    (case parse_u16 port_str of
                       None \<Rightarrow> Inl (CommsConfig (''invalid port in: '' @ s))
                     | Some port \<Rightarrow> Inr (host, port))))
      | None \<Rightarrow>
          (case rsplit_once (CHR '':'') s of
             None \<Rightarrow> Inl (CommsConfig (''missing ':port' in address: '' @ s))
           | Some (host, port_str) \<Rightarrow>
               if CHR '':'' \<in> set host then Inl (CommsConfig (''unbracketed IPv6 address in: '' @ s))
               else (case parse_u16 port_str of
                       None \<Rightarrow> Inl (CommsConfig (''invalid port in: '' @ s))
                     | Some port \<Rightarrow> Inr (host, port))))"

section \<open>Requests and responses\<close>

type_synonym headers = "string \<rightharpoonup> string"

datatype request_body = ReqEmpty | ReqBytes bytes

record request_path =
  rq_method :: string
  rq_path_and_query :: string
  rq_headers :: headers

definition request_get :: "string \<Rightarrow> request_path" where
  "request_get p = \<lparr>rq_method = ''GET'', rq_path_and_query = p, rq_headers = Map.empty\<rparr>"

definition request_post :: "string \<Rightarrow> request_path" where
  "request_post p = \<lparr>rq_method = ''POST'', rq_path_and_query = p, rq_headers = Map.empty\<rparr>"

definition with_header :: "string \<Rightarrow> string \<Rightarrow> request_path \<Rightarrow> request_path" where
  "with_header name v r = r\<lparr>rq_headers := (rq_headers r)(name \<mapsto> v)\<rparr>"

record collected_response =
  rs_status :: u16
  rs_headers :: headers
  rs_body :: bytes

definition classify :: "collected_response \<Rightarrow> response_class" where
  "classify r = from_status (rs_status r)"

text \<open>
  An exchange takes the method, the absolute address, the headers and the body, and gives the status,
  the headers and the frames of the body, each a chunk or an error. A failure is either a request that
  cannot be built or an error of the protocol.
\<close>

datatype h2_failure = InvalidRequest string | ProtocolError string

type_synonym 'n h2_ops =
  "string \<Rightarrow> string \<Rightarrow> headers \<Rightarrow> request_body \<Rightarrow> 'n
     \<Rightarrow> (h2_failure + (u16 \<times> headers \<times> (string + bytes) list)) \<times> 'n"

record connection =
  cn_authority :: string
  cn_max_response_bytes :: nat

definition default_max_response_body_bytes :: nat where
  "default_max_response_body_bytes = 16 * 1024 * 1024"

fun collect_body :: "nat \<Rightarrow> bytes \<Rightarrow> (string + bytes) list \<Rightarrow> comms_error + bytes" where
  "collect_body limit collected [] = Inr collected"
| "collect_body limit collected (Inl e # frames) = Inl (CommsHttp2 (''recv body: '' @ e))"
| "collect_body limit collected (Inr chunk # frames) =
     (if usize_saturating_add (length collected) (length chunk) > limit
      then Inl (CommsHttp2 (''response body exceeds '' @ decimal limit @ '' byte limit''))
      else collect_body limit (collected @ chunk) frames)"

definition send_request ::
  "'n h2_ops \<Rightarrow> connection \<Rightarrow> request_path \<Rightarrow> request_body \<Rightarrow> 'n
     \<Rightarrow> (comms_error + collected_response) \<times> 'n" where
  "send_request h2 conn req rbody n =
     (if strip_prefix ''/'' (rq_path_and_query req) = None
      then (Inl (CommsConfig (''request path must start with '/': '' @ rq_path_and_query req)), n)
      else
        let headers = (case rbody of
              ReqEmpty \<Rightarrow> rq_headers req
            | ReqBytes b \<Rightarrow> (rq_headers req)(''content-length'' \<mapsto> decimal (length b))) in
        (case h2 (rq_method req) (''https://'' @ cn_authority conn @ rq_path_and_query req) headers rbody n of
           (Inl (InvalidRequest e), n) \<Rightarrow> (Inl (CommsConfig (''invalid request: '' @ e)), n)
         | (Inl (ProtocolError e), n) \<Rightarrow> (Inl (CommsHttp2 e), n)
         | (Inr (status, hs, frames), n) \<Rightarrow>
             (and_then (collect_body (cn_max_response_bytes conn) [] frames)
                (\<lambda>b. Inr \<lparr>rs_status = status, rs_headers = hs, rs_body = b\<rparr>), n)))"

section \<open>Properties\<close>

text \<open>A response body is never longer than the limit of its connection.\<close>

lemma collect_body_bounded:
  "collect_body limit acc frames = Inr b \<Longrightarrow> limit < usize_max \<Longrightarrow> length acc \<le> limit \<Longrightarrow> length b \<le> limit"
  by (induction limit acc frames rule: collect_body.induct)
    (auto simp: usize_saturating_add_def split: if_splits)

lemma send_request_bounded:
  assumes "send_request h2 conn req rbody n = (Inr r, n')" "cn_max_response_bytes conn < usize_max"
  shows "length (rs_body r) \<le> cn_max_response_bytes conn"
  using assms
  by (auto simp: send_request_def Let_def and_then_Inr dest!: collect_body_bounded
      split: if_splits prod.splits sum.splits h2_failure.splits)

text \<open>
  Dial addresses: what a host and a port are printed as is parsed back, in the plain form for a host
  without a colon, in the bracketed form for one without a closing bracket.
\<close>

lemma parse_digits_append:
  "parse_digits acc (xs @ ys) = (case parse_digits acc xs of None \<Rightarrow> None | Some a \<Rightarrow> parse_digits a ys)"
  by (induction xs arbitrary: acc) (auto split: option.splits)

lemma digit_value_char: "d < 10 \<Longrightarrow> digit_value (char_of (48 + d)) = Some d"
  by (simp add: digit_value_def Let_def)

lemma parse_digits_decimal: "n < 2 ^ 16 \<Longrightarrow> parse_digits 0 (decimal n) = Some n"
proof (induction n rule: decimal.induct)
  case (1 n)
  show ?case
  proof (cases "n < 10")
    case True
    then show ?thesis using digit_value_char [of n] by (simp add: decimal.simps [of n])
  next
    case False
    then have "parse_digits 0 (decimal (n div 10)) = Some (n div 10)" using 1 by simp
    then show ?thesis
      using False 1(2) digit_value_char [of "n mod 10"]
      by (simp add: decimal.simps [of n] parse_digits_append)
  qed
qed

lemma decimal_digits: "c \<in> set (decimal n) \<Longrightarrow> digit_value c \<noteq> None"
proof (induction n rule: decimal.induct)
  case (1 n)
  then show ?case
    using digit_value_char [of n] digit_value_char [of "n mod 10"]
    by (subst (asm) (2) decimal.simps) (auto split: if_splits)
qed

lemma decimal_not_Nil: "decimal n \<noteq> []"
  by (subst decimal.simps) simp

lemma no_separator_in_decimal: "CHR '':'' \<notin> set (decimal n)" "CHR ''+'' \<notin> set (decimal n)"
proof -
  have "digit_value (CHR '':'') = None" "digit_value (CHR ''+'') = None" by code_simp+
  then show "CHR '':'' \<notin> set (decimal n)" "CHR ''+'' \<notin> set (decimal n)" using decimal_digits by metis+
qed

lemma parse_u16_decimal: "n < 2 ^ 16 \<Longrightarrow> parse_u16 (decimal n) = Some (of_nat n)"
  using no_separator_in_decimal(2) [of n] decimal_not_Nil [of n] parse_digits_decimal [of n]
  by (cases "decimal n") (auto simp: parse_u16_def)

lemma split_once_append: "c \<notin> set xs \<Longrightarrow> split_once c (xs @ c # ys) = Some (xs, ys)"
proof -
  assume "c \<notin> set xs"
  then have "dropWhile (\<lambda>x. x \<noteq> c) (xs @ c # ys) = c # ys" "takeWhile (\<lambda>x. x \<noteq> c) (xs @ c # ys) = xs"
    by (induction xs) auto
  then show ?thesis by (simp add: split_once_def)
qed

lemma rsplit_once_append: "c \<notin> set ys \<Longrightarrow> rsplit_once c (xs @ c # ys) = Some (xs, ys)"
  by (simp add: rsplit_once_def split_once_append)

theorem dial_address_round_trip:
  assumes "port < 2 ^ 16"
  shows "CHR '':'' \<notin> set host \<Longrightarrow> (\<forall>r. host \<noteq> CHR ''['' # r)
      \<Longrightarrow> parse_host_port (host @ '':'' @ decimal port) = Inr (host, of_nat port)"
    "CHR '']'' \<notin> set host
      \<Longrightarrow> parse_host_port (''['' @ host @ '']:'' @ decimal port) = Inr (host, of_nat port)"
proof -
  have colon: "rsplit_once (CHR '':'') (host @ '':'' @ decimal port) = Some (host, decimal port)"
    using rsplit_once_append no_separator_in_decimal(1) by simp
  assume h: "CHR '':'' \<notin> set host" "\<forall>r. host \<noteq> CHR ''['' # r"
  then have "strip_prefix ''['' (host @ '':'' @ decimal port) = None"
    by (cases host) (auto simp: strip_prefix_def)
  then show "parse_host_port (host @ '':'' @ decimal port) = Inr (host, of_nat port)"
    using h colon assms by (simp add: parse_host_port_def parse_u16_decimal)
next
  assume "CHR '']'' \<notin> set host"
  then have "split_once (CHR '']'') (host @ '']:'' @ decimal port) = Some (host, '':'' @ decimal port)"
    using split_once_append by simp
  then show "parse_host_port (''['' @ host @ '']:'' @ decimal port) = Inr (host, of_nat port)"
    using assms by (simp add: parse_host_port_def parse_u16_decimal strip_prefix_def)
qed

end
