(* ===== verification/Comms_Spool.thy ===== *)
theory Comms_Spool
  imports SNG_Prelude "HOL-Library.Sublist"
begin

text \<open>
  The parts of \<open>sng-comms\<close> an egress path is built from: the bounded spool (\<open>spool.rs\<close>), the
  per-stream sequence tracker (\<open>ack.rs\<close>) and the reconnect backoff (\<open>backoff.rs\<close>). The spool is
  polymorphic in its items.
\<close>

section \<open>The bounded spool\<close>

record 'a bounded_spool =
  sp_inner :: "'a list"
  sp_capacity :: nat
  sp_pushed :: u64
  sp_respooled :: u64
  sp_evicted :: u64
  sp_drained :: u64

datatype push_outcome = Accepted | AcceptedWithEviction

record spool_stats =
  sps_len :: u64
  sps_pushed :: u64
  sps_respooled :: u64
  sps_evicted :: u64
  sps_drained :: u64

definition spool_new :: "nat \<Rightarrow> 'a bounded_spool" where
  "spool_new capacity =
     \<lparr>sp_inner = [], sp_capacity = capacity, sp_pushed = 0, sp_respooled = 0, sp_evicted = 0, sp_drained = 0\<rparr>"

text \<open>The loops that make room, from the front for a push and from the back for a re-spool.\<close>

fun evict_front :: "nat \<Rightarrow> u64 \<Rightarrow> 'a list \<Rightarrow> u64 \<times> 'a list" where
  "evict_front capacity n [] = (n, [])"
| "evict_front capacity n (x # xs) =
     (if capacity \<le> length (x # xs) then evict_front capacity (n + 1) xs else (n, x # xs))"

function evict_back :: "nat \<Rightarrow> u64 \<Rightarrow> 'a list \<Rightarrow> u64 \<times> 'a list" where
  "evict_back capacity n xs =
     (if xs \<noteq> [] \<and> capacity \<le> length xs then evict_back capacity (n + 1) (butlast xs) else (n, xs))"
  by pat_completeness auto
termination
  by (relation "measure (\<lambda>(_, _, xs). length xs)") auto

declare evict_back.simps [simp del]

definition spool_push :: "'a \<Rightarrow> 'a bounded_spool \<Rightarrow> push_outcome \<times> 'a bounded_spool" where
  "spool_push item s =
     (let s = s\<lparr>sp_pushed := sp_pushed s + 1\<rparr> in
      if sp_capacity s = 0 then (AcceptedWithEviction, s\<lparr>sp_evicted := sp_evicted s + 1\<rparr>)
      else
        (case evict_front (sp_capacity s) 0 (sp_inner s) of (evicted, inner) \<Rightarrow>
           let s = s\<lparr>sp_inner := inner @ [item]\<rparr> in
           if evicted > 0 then (AcceptedWithEviction, s\<lparr>sp_evicted := sp_evicted s + evicted\<rparr>)
           else (Accepted, s)))"

definition spool_pop_front :: "'a bounded_spool \<Rightarrow> 'a option \<times> 'a bounded_spool" where
  "spool_pop_front s =
     (case sp_inner s of
        [] \<Rightarrow> (None, s)
      | x # xs \<Rightarrow> (Some x, s\<lparr>sp_inner := xs, sp_drained := sp_drained s + 1\<rparr>))"

definition spool_push_front :: "'a \<Rightarrow> 'a bounded_spool \<Rightarrow> push_outcome \<times> 'a bounded_spool" where
  "spool_push_front item s =
     (let s = s\<lparr>sp_respooled := sp_respooled s + 1\<rparr> in
      if sp_capacity s = 0 then (AcceptedWithEviction, s\<lparr>sp_evicted := sp_evicted s + 1\<rparr>)
      else
        (case evict_back (sp_capacity s) 0 (sp_inner s) of (evicted, inner) \<Rightarrow>
           let s = s\<lparr>sp_inner := item # inner\<rparr> in
           if evicted > 0 then (AcceptedWithEviction, s\<lparr>sp_evicted := sp_evicted s + evicted\<rparr>)
           else (Accepted, s)))"

definition spool_drain :: "nat \<Rightarrow> 'a bounded_spool \<Rightarrow> 'a list \<times> 'a bounded_spool" where
  "spool_drain max_items s =
     (let n = min (length (sp_inner s)) max_items; drained = take n (sp_inner s);
          s = s\<lparr>sp_inner := drop n (sp_inner s)\<rparr> in
      (drained, if drained \<noteq> [] then s\<lparr>sp_drained := sp_drained s + of_nat (length drained)\<rparr> else s))"

definition spool_len :: "'a bounded_spool \<Rightarrow> nat" where
  "spool_len s = length (sp_inner s)"

definition spool_get_stats :: "'a bounded_spool \<Rightarrow> spool_stats" where
  "spool_get_stats s =
     \<lparr>sps_len = of_nat (spool_len s), sps_pushed = sp_pushed s, sps_respooled = sp_respooled s,
      sps_evicted = sp_evicted s, sps_drained = sp_drained s\<rparr>"

subsection \<open>What one call does\<close>

definition spool_inv :: "'a bounded_spool \<Rightarrow> bool" where
  "spool_inv s \<longleftrightarrow> length (sp_inner s) \<le> sp_capacity s"

text \<open>Within the bound the loops take at most one item.\<close>

lemma evict_front_bounded:
  assumes "0 < c" "length xs \<le> c"
  shows "evict_front c n xs = (if length xs = c then (n + 1, tl xs) else (n, xs))"
  using assms by (cases xs; cases "tl xs") auto

lemma evict_back_bounded:
  assumes "0 < c" "length xs \<le> c"
  shows "evict_back c n xs = (if length xs = c then (n + 1, butlast xs) else (n, xs))"
proof (cases "length xs = c")
  case True
  have "\<not> c \<le> length (butlast xs)" using True assms by simp
  then have "evict_back c (n + 1) (butlast xs) = (n + 1, butlast xs)" by (subst evict_back.simps) simp
  then show ?thesis using True assms by (subst evict_back.simps) auto
next
  case False
  then show ?thesis using assms by (subst evict_back.simps) auto
qed

definition is_full :: "'a bounded_spool \<Rightarrow> bool" where
  "is_full s \<longleftrightarrow> length (sp_inner s) = sp_capacity s"

lemma spool_push_eq:
  assumes "spool_inv s"
  shows "spool_push x s =
    (if is_full s
     then (AcceptedWithEviction, s\<lparr>sp_inner := tl (sp_inner s @ [x]), sp_pushed := sp_pushed s + 1,
             sp_evicted := sp_evicted s + 1\<rparr>)
     else (Accepted, s\<lparr>sp_inner := sp_inner s @ [x], sp_pushed := sp_pushed s + 1\<rparr>))"
proof (cases "sp_capacity s = 0")
  case True
  then have "sp_inner s = []" using assms by (simp add: spool_inv_def)
  then show ?thesis using True by (simp add: spool_push_def is_full_def Let_def)
next
  case False
  then show ?thesis
    using assms evict_front_bounded [of "sp_capacity s" "sp_inner s" 0]
    by (auto simp: spool_push_def is_full_def spool_inv_def Let_def tl_append split: list.splits)
qed

lemma spool_push_front_eq:
  assumes "spool_inv s"
  shows "spool_push_front x s =
    (if is_full s
     then (AcceptedWithEviction, s\<lparr>sp_inner := butlast (x # sp_inner s), sp_respooled := sp_respooled s + 1,
             sp_evicted := sp_evicted s + 1\<rparr>)
     else (Accepted, s\<lparr>sp_inner := x # sp_inner s, sp_respooled := sp_respooled s + 1\<rparr>))"
proof (cases "sp_capacity s = 0")
  case True
  then have "sp_inner s = []" using assms by (simp add: spool_inv_def)
  then show ?thesis using True by (simp add: spool_push_front_def is_full_def Let_def)
next
  case False
  then show ?thesis
    using assms evict_back_bounded [of "sp_capacity s" "sp_inner s" 0]
    by (auto simp: spool_push_front_def is_full_def spool_inv_def Let_def)
qed

lemma spool_pop_front_eq:
  "spool_pop_front s =
    (if sp_inner s = [] then (None, s)
     else (Some (hd (sp_inner s)), s\<lparr>sp_inner := tl (sp_inner s), sp_drained := sp_drained s + 1\<rparr>))"
  by (cases "sp_inner s") (auto simp: spool_pop_front_def)

subsection \<open>Accounting\<close>

text \<open>
  The four counters and the length: what entered is what is still there, was dropped or was taken.
  The counters wrap, so the balance is one of 64-bit words.
\<close>

definition spool_balanced :: "'a bounded_spool \<Rightarrow> bool" where
  "spool_balanced s \<longleftrightarrow>
     sp_pushed s + sp_respooled s = of_nat (length (sp_inner s)) + sp_evicted s + sp_drained s"

datatype 'a spool_call = CallPush 'a | CallPushFront 'a | CallPopFront | CallDrain nat

fun run_spool_call :: "'a spool_call \<Rightarrow> 'a bounded_spool \<Rightarrow> 'a bounded_spool" where
  "run_spool_call (CallPush x) s = snd (spool_push x s)"
| "run_spool_call (CallPushFront x) s = snd (spool_push_front x s)"
| "run_spool_call CallPopFront s = snd (spool_pop_front s)"
| "run_spool_call (CallDrain n) s = snd (spool_drain n s)"

lemma run_spool_call_inv:
  "spool_inv s \<Longrightarrow> spool_inv (run_spool_call c s) \<and> sp_capacity (run_spool_call c s) = sp_capacity s"
  by (cases c; cases "sp_inner s")
    (auto simp: spool_push_eq spool_push_front_eq spool_pop_front_eq spool_drain_def Let_def spool_inv_def is_full_def)

lemma run_spool_call_balanced:
  assumes "spool_inv s" "spool_balanced s"
  shows "spool_balanced (run_spool_call c s)"
proof (cases c)
  case CallPopFront
  then show ?thesis
    using assms by (cases "sp_inner s") (auto simp: spool_pop_front_eq spool_balanced_def algebra_simps)
next
  case (CallDrain n)
  have "length (sp_inner s) = (length (sp_inner s) - n) + min (length (sp_inner s)) n" by simp
  then have "of_nat (length (sp_inner s)) = (of_nat (length (sp_inner s) - n) + of_nat (min (length (sp_inner s)) n) :: u64)"
    by (metis of_nat_add)
  then show ?thesis
    using CallDrain assms
    by (auto simp: spool_drain_def Let_def spool_balanced_def algebra_simps min_def split: if_splits)
next
  case (CallPushFront x)
  then show ?thesis
    using assms by (auto simp: spool_push_front_eq spool_balanced_def algebra_simps)
next
  case (CallPush x)
  then show ?thesis using assms by (auto simp: spool_push_eq spool_balanced_def algebra_simps)
qed

lemma spool_accounting:
  "spool_inv (fold run_spool_call cs (spool_new n)) \<and> spool_balanced (fold run_spool_call cs (spool_new n))
     \<and> sp_capacity (fold run_spool_call cs (spool_new n)) = n"
proof -
  have "spool_inv s \<and> spool_balanced s \<Longrightarrow> spool_inv (fold run_spool_call cs s) \<and> spool_balanced (fold run_spool_call cs s)
      \<and> sp_capacity (fold run_spool_call cs s) = sp_capacity s" for s :: "'a bounded_spool"
  proof (induction cs arbitrary: s)
    case (Cons c cs)
    have "spool_inv (run_spool_call c s) \<and> spool_balanced (run_spool_call c s)"
      using Cons.prems run_spool_call_inv run_spool_call_balanced by blast
    from Cons.IH [OF this] show ?case using run_spool_call_inv [of s c] Cons.prems by simp
  qed simp
  from this [of "spool_new n"] show ?thesis by (simp add: spool_new_def spool_inv_def spool_balanced_def)
qed

section \<open>The sequence tracker\<close>

datatype regression_kind = AheadOfEmitted | BelowHighWater

record sequence_regression =
  reg_stream :: string
  reg_highest_emitted :: u64
  reg_observed :: u64
  reg_kind :: regression_kind

record sequence_tracker =
  tr_stream :: string
  tr_next :: u64
  tr_last_emitted :: "u64 option"
  tr_acked_high_water :: "u64 option"

definition seq_tracker_new :: "string \<Rightarrow> u64 \<Rightarrow> sequence_tracker" where
  "seq_tracker_new stream start_seq =
     \<lparr>tr_stream = stream, tr_next = start_seq, tr_last_emitted = None, tr_acked_high_water = None\<rparr>"

definition next_seq :: "sequence_tracker \<Rightarrow> u64 \<times> sequence_tracker" where
  "next_seq t =
     (let seq = tr_next t in
      (seq, t\<lparr>tr_next := saturating_add (tr_next t) 1, tr_last_emitted := Some seq\<rparr>))"

definition record_ack ::
  "u64 \<Rightarrow> sequence_tracker \<Rightarrow> (sequence_regression + u64 option) \<times> sequence_tracker" where
  "record_ack observed t =
     (let regression = (\<lambda>highest kind. Inl \<lparr>reg_stream = tr_stream t, reg_highest_emitted = highest,
            reg_observed = observed, reg_kind = kind\<rparr>) in
      case tr_last_emitted t of
        None \<Rightarrow> (regression (saturating_sub (tr_next t) 1) AheadOfEmitted, t)
      | Some highest_emitted \<Rightarrow>
          if observed > highest_emitted then (regression highest_emitted AheadOfEmitted, t)
          else if (case tr_acked_high_water t of Some prev \<Rightarrow> observed < prev | None \<Rightarrow> False)
          then (regression highest_emitted BelowHighWater, t)
          else (Inr (tr_acked_high_water t), t\<lparr>tr_acked_high_water := Some observed\<rparr>))"

text \<open>The mark and the emissions: the mark never exceeds what was emitted.\<close>

definition tracker_ok :: "sequence_tracker \<Rightarrow> bool" where
  "tracker_ok t \<longleftrightarrow>
     (\<forall>a. tr_acked_high_water t = Some a \<longrightarrow> (\<exists>e. tr_last_emitted t = Some e \<and> a \<le> e))
     \<and> (\<forall>e. tr_last_emitted t = Some e \<longrightarrow> e \<le> tr_next t)"

lemma saturating_succ: "w \<le> saturating_add w (1 :: u64) \<and> (w \<noteq> - 1 \<longrightarrow> saturating_add w 1 = w + 1)"
proof (cases "w = - 1")
  case True
  then show ?thesis by (simp add: word_le_nat_alt unat_saturating_add unat_max_word)
next
  case False
  then show ?thesis
    using saturating_add_one_gt [OF False] unat_less_max [OF False] by (simp add: saturating_add_def)
qed

lemma tracker_ok_new: "tracker_ok (seq_tracker_new stream n)"
  by (simp add: tracker_ok_def seq_tracker_new_def)

lemma next_seq_ok: "tracker_ok t \<Longrightarrow> next_seq t = (q, t') \<Longrightarrow> tracker_ok t'"
  using conjunct1 [OF saturating_succ [of "tr_next t"]]
  by (auto simp: tracker_ok_def next_seq_def Let_def)

text \<open>An acknowledgement counts exactly when it lies between the mark and the last emission.\<close>

lemma record_ack_Inr:
  "fst (record_ack a t) = Inr prev \<longleftrightarrow> prev = tr_acked_high_water t
     \<and> (\<exists>e. tr_last_emitted t = Some e \<and> a \<le> e) \<and> (\<forall>h. tr_acked_high_water t = Some h \<longrightarrow> h \<le> a)"
  by (auto simp: record_ack_def Let_def not_less split: option.splits)

lemma record_ack_state:
  "snd (record_ack a t) = (case fst (record_ack a t) of Inl _ \<Rightarrow> t | Inr _ \<Rightarrow> t\<lparr>tr_acked_high_water := Some a\<rparr>)"
  by (auto simp: record_ack_def Let_def split: option.splits)

lemma record_ack_ok: "tracker_ok t \<Longrightarrow> tracker_ok (snd (record_ack a t))"
  by (auto simp: record_ack_state tracker_ok_def record_ack_Inr split: sum.splits)

section \<open>The reconnect backoff\<close>

text \<open>
  Durations are nanoseconds. The random generator of crate \<open>rand\<close> is the argument \<open>draw\<close>: asked for a
  number up to and including \<open>n\<close>, it gives \<open>draw n\<close>. The assertions of a debug build are left out; what
  is modelled is the clamping that a release build relies on.
\<close>

record reconnect_backoff =
  bo_initial :: nat
  bo_max :: nat
  bo_multiplier :: nat
  bo_current_ceiling :: nat

definition backoff_new :: "nat \<Rightarrow> nat \<Rightarrow> nat \<Rightarrow> reconnect_backoff" where
  "backoff_new initial max_wait multiplier =
     (let initial = min initial max_wait in
      \<lparr>bo_initial = initial, bo_max = max_wait, bo_multiplier = max multiplier 1, bo_current_ceiling = initial\<rparr>)"

definition backoff_default :: reconnect_backoff where
  "backoff_default = backoff_new (from_millis 500) (from_secs 30) 2"

definition next_backoff :: "(nat \<Rightarrow> nat) \<Rightarrow> reconnect_backoff \<Rightarrow> nat \<times> reconnect_backoff" where
  "next_backoff draw b =
     (let ceiling = bo_current_ceiling b;
          next = min (duration_saturating_mul ceiling (bo_multiplier b)) (bo_max b);
          b = b\<lparr>bo_current_ceiling := max next (bo_initial b)\<rparr> in
      if ceiling = 0 then (0, b)
      else (draw (if ceiling < 2 ^ 64 then ceiling else 2 ^ 64 - 1), b))"

definition backoff_reset :: "reconnect_backoff \<Rightarrow> reconnect_backoff" where
  "backoff_reset b = b\<lparr>bo_current_ceiling := bo_initial b\<rparr>"

fun failed_attempts :: "(nat \<Rightarrow> nat) \<Rightarrow> nat \<Rightarrow> reconnect_backoff \<Rightarrow> reconnect_backoff" where
  "failed_attempts draw 0 b = b"
| "failed_attempts draw (Suc n) b = snd (next_backoff draw (failed_attempts draw n b))"

lemma next_backoff_fields:
  "bo_initial (snd (next_backoff draw b)) = bo_initial b" "bo_max (snd (next_backoff draw b)) = bo_max b"
  "bo_multiplier (snd (next_backoff draw b)) = bo_multiplier b"
  by (simp_all add: next_backoff_def Let_def)

lemma failed_attempts_fields:
  "bo_initial (failed_attempts draw n b) = bo_initial b \<and> bo_max (failed_attempts draw n b) = bo_max b
     \<and> bo_multiplier (failed_attempts draw n b) = bo_multiplier b"
  by (induction n) (simp_all add: next_backoff_fields)

lemma capped:
  fixes x y m i :: nat
  assumes "i \<le> m" "(x = y \<and> i \<le> y) \<or> (m \<le> x \<and> m \<le> y)"
  shows "max (min x m) i = min y m"
  using assms by auto

text \<open>The ceiling after \<open>n\<close> failures in a row: the initial wait times the \<open>n\<close>-th power, capped.\<close>

lemma ceiling_after:
  assumes "max_wait \<le> duration_max"
  shows "bo_current_ceiling (failed_attempts draw n (backoff_new initial max_wait k))
     = min (min initial max_wait * max k 1 ^ n) max_wait"
proof (induction n)
  case 0
  then show ?case by (simp add: backoff_new_def Let_def)
next
  case (Suc n)
  let ?b = "failed_attempts draw n (backoff_new initial max_wait k)" and ?i = "min initial max_wait" and ?k = "max k 1"
  have f: "bo_initial ?b = ?i" "bo_max ?b = max_wait" "bo_multiplier ?b = ?k"
    using failed_attempts_fields [of draw n "backoff_new initial max_wait k"]
    by (simp_all add: backoff_new_def Let_def)
  have p: "1 \<le> ?k ^ m" for m by (rule one_le_power) simp
  have i: "?i \<le> ?i * ?k ^ Suc n" using p [of "Suc n"] by (metis mult.right_neutral mult_le_mono2)
  have "bo_current_ceiling (snd (next_backoff draw ?b))
      = max (min (min (bo_current_ceiling ?b * ?k) duration_max) max_wait) ?i"
    by (simp add: next_backoff_def duration_saturating_mul_def Let_def f)
  also have "\<dots> = max (min (bo_current_ceiling ?b * ?k) max_wait) ?i" using assms by (simp add: min_def)
  also have "\<dots> = min (?i * ?k ^ Suc n) max_wait"
  proof (cases "?i * ?k ^ n \<le> max_wait")
    case True
    then have "bo_current_ceiling ?b * ?k = ?i * ?k ^ Suc n" unfolding Suc.IH by (simp add: mult.commute mult.left_commute)
    then show ?thesis using i by (intro capped) (simp, blast)
  next
    case False
    then have "max_wait \<le> bo_current_ceiling ?b * ?k" unfolding Suc.IH by (simp add: min_def)
    moreover have "max_wait \<le> ?i * ?k ^ Suc n"
    proof -
      have "max_wait \<le> ?i * ?k ^ n" using False by simp
      also have "\<dots> \<le> ?i * ?k ^ n * ?k" by simp
      finally show ?thesis by (simp add: mult.commute mult.left_commute)
    qed
    ultimately show ?thesis by (intro capped) (simp, blast)
  qed
  finally show ?case by simp
qed

text \<open>
  The wait before the next attempt never exceeds the exponential ceiling, and so never the maximum,
  however the generator draws; a success starts over.
\<close>

theorem backoff_wait_bounded:
  fixes n initial k :: nat
  assumes "max_wait \<le> duration_max" "\<And>n. draw n \<le> n"
  defines "b \<equiv> failed_attempts draw n (backoff_new initial max_wait k)"
  shows "fst (next_backoff draw b) \<le> min (min initial max_wait * max k 1 ^ n) max_wait"
    "backoff_reset b = backoff_new initial max_wait k"
proof -
  have "fst (next_backoff draw b) \<le> bo_current_ceiling b"
    using assms(2) [of "bo_current_ceiling b"] assms(2) [of "2 ^ 64 - 1"]
    by (auto simp: next_backoff_def Let_def)
  then show "fst (next_backoff draw b) \<le> min (min initial max_wait * max k 1 ^ n) max_wait"
    unfolding b_def ceiling_after [OF assms(1)] .
  show "backoff_reset b = backoff_new initial max_wait k"
    unfolding b_def using failed_attempts_fields [of draw n "backoff_new initial max_wait k"]
    by (simp add: backoff_reset_def) (simp add: backoff_new_def Let_def)
qed

end
