(* ===== verification/Comms_Telemetry.thy ===== *)
theory Comms_Telemetry
  imports Comms_Client Comms_Spool "HOL-Library.Multiset"
begin

text \<open>
  The telemetry egress of \<open>sng-comms\<close> (\<open>telemetry.rs\<close>): enrichment and validation, batching, sealing
  of a batch (encoding, sequence number, spool), the flush of the oldest batch over a connection, and
  the client used by concurrent producers and its flusher. The zstd compressor and the decoders of an
  acknowledgement are parameters.
\<close>

section \<open>The client\<close>

datatype batch_compression = CompressNone | CompressZstd int

record telemetry_codec =
  tco_encode :: envelope_encoder
  tco_zstd :: "int \<Rightarrow> bytes \<Rightarrow> string + bytes"
  tco_json_ack :: "bytes \<Rightarrow> string + u64"
  tco_msgpack_ack :: "bytes \<Rightarrow> string + u64"

record comms_enrichment =
  ec_tenant_id :: uuid
  ec_device_id :: uuid
  ec_site_id :: "uuid option"

definition comms_enrich :: "comms_enrichment \<Rightarrow> envelope \<Rightarrow> envelope" where
  "comms_enrich ctx e =
     e\<lparr>env_tenant_id := ec_tenant_id ctx, env_device_id := ec_device_id ctx, env_site_id := ec_site_id ctx\<rparr>"

record telemetry_client_config =
  tcc_path :: string
  tcc_batch :: batch_config
  tcc_compression :: batch_compression
  tcc_spool_capacity :: nat
  tcc_enrichment :: comms_enrichment
  tcc_stream :: string
  tcc_start_seq :: u64

definition telemetry_config_with_defaults :: "comms_enrichment \<Rightarrow> telemetry_client_config" where
  "telemetry_config_with_defaults enrichment =
     \<lparr>tcc_path = ''/api/v1/agents/telemetry/batches'', tcc_batch = batch_config_default,
      tcc_compression = CompressZstd 3, tcc_spool_capacity = 256, tcc_enrichment = enrichment,
      tcc_stream = ''telemetry'', tcc_start_seq = 1\<rparr>"

datatype flush_outcome = FlushAcked u64 | FlushEmpty | FlushTransient response_class

record encoded_batch =
  eb_seq :: u64
  eb_body :: bytes
  eb_encoding :: batch_compression
  eb_event_count :: nat

record telemetry_client =
  tc_config :: telemetry_client_config
  tc_builder :: batch_builder
  tc_spool :: "encoded_batch bounded_spool"
  tc_tracker :: sequence_tracker

definition telemetry_client_new :: "telemetry_client_config \<Rightarrow> telemetry_client" where
  "telemetry_client_new config =
     \<lparr>tc_config = config, tc_builder = batch_builder_new (tcc_batch config),
      tc_spool = spool_new (tcc_spool_capacity config),
      tc_tracker = seq_tracker_new (tcc_stream config) (tcc_start_seq config)\<rparr>"

subsection \<open>Sealing\<close>

definition encode_batch :: "telemetry_codec \<Rightarrow> batch \<Rightarrow> batch_compression \<Rightarrow> comms_error + bytes" where
  "encode_batch codec ba compression =
     (let raw = write_msgpack_array_header (length (ba_envelopes ba)) @ concat (map en_encoded (ba_envelopes ba)) in
      case compression of
        CompressNone \<Rightarrow> Inr raw
      | CompressZstd level \<Rightarrow> map_err (\<lambda>e. CommsCompression (''zstd encode: '' @ e)) (tco_zstd codec level raw))"

text \<open>
  The section under the seal lock in its two steps, the allocation of the sequence number and the
  push onto the spool: the flusher does not take the lock and may run between them.
\<close>

definition seal_allocate :: "telemetry_codec \<Rightarrow> batch \<Rightarrow> telemetry_client \<Rightarrow> encoded_batch option \<times> telemetry_client" where
  "seal_allocate codec ba c =
     (case encode_batch codec ba (tcc_compression (tc_config c)) of
        Inl _ \<Rightarrow> (None, c)
      | Inr encoded \<Rightarrow>
          (case next_seq (tc_tracker c) of (seq, t) \<Rightarrow>
             (Some \<lparr>eb_seq = seq, eb_body = encoded, eb_encoding = tcc_compression (tc_config c),
                eb_event_count = length (ba_envelopes ba)\<rparr>, c\<lparr>tc_tracker := t\<rparr>)))"

definition seal_spool :: "encoded_batch \<Rightarrow> telemetry_client \<Rightarrow> telemetry_client" where
  "seal_spool entry c = c\<lparr>tc_spool := snd (spool_push entry (tc_spool c))\<rparr>"

definition seal_batch :: "telemetry_codec \<Rightarrow> batch \<Rightarrow> telemetry_client \<Rightarrow> telemetry_client" where
  "seal_batch codec ba c =
     (case seal_allocate codec ba c of (None, c) \<Rightarrow> c | (Some entry, c) \<Rightarrow> seal_spool entry c)"

definition seal_flushed :: "telemetry_codec \<Rightarrow> batch option \<times> batch_builder \<Rightarrow> telemetry_client \<Rightarrow> telemetry_client" where
  "seal_flushed codec r c =
     (let c = c\<lparr>tc_builder := snd r\<rparr> in case fst r of None \<Rightarrow> c | Some ba \<Rightarrow> seal_batch codec ba c)"

definition telemetry_submit ::
  "telemetry_codec \<Rightarrow> int \<Rightarrow> envelope \<Rightarrow> telemetry_client \<Rightarrow> (comms_error + unit) \<times> telemetry_client" where
  "telemetry_submit codec utc_now env c =
     (let env = comms_enrich (tcc_enrichment (tc_config c)) env in
      case envelope_validate env of
        Inl e \<Rightarrow> (Inl (CommsEnvelopeInvalid e), c)
      | Inr _ \<Rightarrow> (Inr (), seal_flushed codec (batch_push (tco_encode codec) utc_now env (tc_builder c)) c))"

definition force_seal :: "telemetry_codec \<Rightarrow> int \<Rightarrow> telemetry_client \<Rightarrow> telemetry_client" where
  "force_seal codec utc_now c = seal_flushed codec (force_flush utc_now (tc_builder c)) c"

definition telemetry_tick :: "telemetry_codec \<Rightarrow> int \<Rightarrow> int \<Rightarrow> telemetry_client \<Rightarrow> telemetry_client" where
  "telemetry_tick codec utc_now now c = seal_flushed codec (poll_timer utc_now now (tc_builder c)) c"

subsection \<open>Flushing\<close>

definition parse_ack :: "telemetry_codec \<Rightarrow> bytes \<Rightarrow> comms_error + u64" where
  "parse_ack codec b =
     (case b of
        [] \<Rightarrow> Inl (CommsEncoding ''empty ack body from control plane'')
      | x # _ \<Rightarrow>
          if x = 0x7B then map_err (\<lambda>e. CommsEncoding (''decode JSON ack: '' @ e)) (tco_json_ack codec b)
          else map_err (\<lambda>e. CommsEncoding (''decode msgpack ack: '' @ e)) (tco_msgpack_ack codec b))"

definition map_regression :: "sequence_regression \<Rightarrow> comms_error" where
  "map_regression r = CommsSequenceRegression (reg_stream r) (reg_highest_emitted r) (reg_observed r)"

definition flush_request :: "telemetry_client \<Rightarrow> encoded_batch \<Rightarrow> request_path" where
  "flush_request c entry =
     (let r = with_header ''content-type'' ''application/msgpack'' (request_post (tcc_path (tc_config c)));
          r = (case eb_encoding entry of CompressNone \<Rightarrow> r | CompressZstd _ \<Rightarrow> with_header ''content-encoding'' ''zstd'' r) in
      with_header ''x-sng-batch-seq'' (decimal (unat (eb_seq entry))) r)"

text \<open>What follows the exchange.\<close>

definition flush_settle ::
  "telemetry_codec \<Rightarrow> encoded_batch \<Rightarrow> comms_error + collected_response \<Rightarrow> telemetry_client
     \<Rightarrow> (comms_error + flush_outcome) \<times> telemetry_client" where
  "flush_settle codec entry result c =
     (case result of
        Inl e \<Rightarrow> (Inl e, c\<lparr>tc_spool := snd (spool_push_front entry (tc_spool c))\<rparr>)
      | Inr response \<Rightarrow>
          let class = classify response in
          if class = ClSuccess then
            (case parse_ack codec (rs_body response) of
               Inl e \<Rightarrow> (Inl e, c)
             | Inr ack \<Rightarrow>
                 (case record_ack ack (tc_tracker c) of (r, t) \<Rightarrow>
                    (case r of Inl reg \<Rightarrow> Inl (map_regression reg) | Inr _ \<Rightarrow> Inr (FlushAcked ack), c\<lparr>tc_tracker := t\<rparr>)))
          else if class_is_retryable class
          then (Inr (FlushTransient class), c\<lparr>tc_spool := snd (spool_push_front entry (tc_spool c))\<rparr>)
          else (Inl (CommsServer class (''telemetry batch rejected: HTTP '' @ decimal (unat (rs_status response)))), c))"

definition flush_one ::
  "telemetry_codec \<Rightarrow> 'n h2_ops \<Rightarrow> connection \<Rightarrow> 'n \<Rightarrow> telemetry_client
     \<Rightarrow> (comms_error + flush_outcome) \<times> telemetry_client \<times> 'n" where
  "flush_one codec h2 conn n c =
     (case spool_pop_front (tc_spool c) of
        (None, _) \<Rightarrow> (Inr FlushEmpty, c, n)
      | (Some entry, sp) \<Rightarrow>
          let c = c\<lparr>tc_spool := sp\<rparr> in
          (case send_request h2 conn (flush_request c entry) (ReqBytes (eb_body entry)) n of (result, n) \<Rightarrow>
           case flush_settle codec entry result c of (r, c) \<Rightarrow> (r, c, n)))"

section \<open>What arrives on the wire\<close>

text \<open>
  What is relied on of the MessagePack encoder: an envelope's encoding is read back in front of any
  continuation. The reader of an array takes as many items as its header says.
\<close>

definition self_delimiting :: "envelope_encoder \<Rightarrow> (bytes \<Rightarrow> (envelope \<times> bytes) option) \<Rightarrow> bool" where
  "self_delimiting enc dec \<longleftrightarrow> (\<forall>e bs rest. enc e = Inr bs \<longrightarrow> dec (bs @ rest) = Some (e, rest))"

fun read_items :: "(bytes \<Rightarrow> ('e \<times> bytes) option) \<Rightarrow> nat \<Rightarrow> bytes \<Rightarrow> ('e list \<times> bytes) option" where
  "read_items dec 0 bs = Some ([], bs)"
| "read_items dec (Suc n) bs =
     (case dec bs of
        None \<Rightarrow> None
      | Some (e, rest) \<Rightarrow> map_option (\<lambda>(es, r). (e # es, r)) (read_items dec n rest))"

definition read_batch :: "(bytes \<Rightarrow> (envelope \<times> bytes) option) \<Rightarrow> bytes \<Rightarrow> envelope list option" where
  "read_batch dec bs =
     (case read_array_header bs of
        None \<Rightarrow> None
      | Some (n, rest) \<Rightarrow>
          (case read_items dec n rest of Some (es, []) \<Rightarrow> Some es | _ \<Rightarrow> None))"

definition faithfully_encoded :: "envelope_encoder \<Rightarrow> encoded_envelope list \<Rightarrow> bool" where
  "faithfully_encoded enc es \<longleftrightarrow> (\<forall>e\<in>set es. enc (en_envelope e) = Inr (en_encoded e))"

lemma read_items_concat:
  assumes "self_delimiting enc dec" "faithfully_encoded enc es"
  shows "read_items dec (length es) (concat (map en_encoded es) @ rest) = Some (map en_envelope es, rest)"
  using assms(2)
proof (induction es)
  case (Cons e es)
  then have "dec (en_encoded e @ concat (map en_encoded es) @ rest) = Some (en_envelope e, concat (map en_encoded es) @ rest)"
    using assms(1) by (simp add: self_delimiting_def faithfully_encoded_def)
  then show ?case using Cons by (simp add: faithfully_encoded_def)
qed simp

lemma encode_faithful: "encoded_envelope_encode enc e = Inr en \<Longrightarrow> enc (en_envelope en) = Inr (en_encoded en)"
  by (auto simp: encoded_envelope_encode_def and_then_Inr)

lemma brought_in_faithful: "faithfully_encoded enc (brought_in enc c)"
  by (cases c) (auto simp: faithfully_encoded_def split: sum.splits dest: encode_faithful [OF sym])

text \<open>
  Claim C24. What a batch carries on the wire is what was pushed: for every batch the builder hands out,
  the body written for it, the cached encodings behind one array header, is read back by a MessagePack
  reader as exactly the envelopes of the batch in their order, directly when it is sent uncompressed and
  after decompression when it is compressed.
\<close>

theorem batch_body_round_trip:
  assumes "self_delimiting (tco_encode codec) dec"
    and "builder_run (tco_encode codec) now calls (batch_builder_new c) = (outs, b)"
    and "ba \<in> set outs" "length (ba_envelopes ba) < 2 ^ 32"
  shows "\<exists>raw. encode_batch codec ba CompressNone = Inr raw \<and> read_batch dec raw = Some (map en_envelope (ba_envelopes ba))
    \<and> (\<forall>level unzstd body. (\<forall>x y. tco_zstd codec level x = Inr y \<longrightarrow> unzstd y = x)
         \<longrightarrow> encode_batch codec ba (CompressZstd level) = Inr body \<longrightarrow> unzstd body = raw)"
proof -
  let ?enc = "tco_encode codec" and ?raw = "write_msgpack_array_header (length (ba_envelopes ba)) @ concat (map en_encoded (ba_envelopes ba))"
  have "concat (map ba_envelopes outs) @ bb_pending b = concat (map (brought_in ?enc) calls)"
    using builder_run_lossless [OF builder_inv_new assms(2)] by (simp add: batch_builder_new_def)
  then have "set (ba_envelopes ba) \<subseteq> set (concat (map (brought_in ?enc) calls))"
    using assms(3) by (metis (no_types, lifting) UN_upper le_supI1 set_append set_concat set_map image_eqI)
  then have "faithfully_encoded ?enc (ba_envelopes ba)"
    using brought_in_faithful [of ?enc] by (fastforce simp: faithfully_encoded_def)
  from read_items_concat [OF assms(1) this, of "[]"]
  have "read_batch dec ?raw = Some (map en_envelope (ba_envelopes ba))"
    using array_header_round_trip [OF assms(4)] by (simp add: read_batch_def)
  then show ?thesis by (intro exI [of _ ?raw]) (simp add: encode_batch_def Let_def)
qed

section \<open>Producers, tickers and the flusher together\<close>

text \<open>
  The client shared by any number of tasks that submit, tick and force, and one flusher. A task that
  made the builder hand out a batch waits for the seal lock with it (\<open>eg_waiting\<close>); the holder of the
  lock has allocated its sequence number and not yet pushed (\<open>eg_sealing\<close>); the flusher has a batch on
  the wire (\<open>eg_flight\<close>). The other components are ghosts: the envelopes that entered the builder, the
  batches whose encoding failed, the sealed ones with their numbers, and, by number, the batches that
  were evicted from the spool and those the flusher is done with, flagged when the server accepted them.
  The relation \<open>answers\<close> says which results the server can give to a batch.
\<close>

record egress =
  eg_client :: telemetry_client
  eg_waiting :: "batch list"
  eg_sealing :: "encoded_batch option"
  eg_flight :: "encoded_batch option"
  eg_entered :: "encoded_envelope list"
  eg_failed :: "batch list"
  eg_sealed :: "(u64 \<times> batch) list"
  eg_evicted :: "u64 list"
  eg_finished :: "(u64 \<times> bool) list"

definition egress_init :: "telemetry_client_config \<Rightarrow> egress" where
  "egress_init config =
     \<lparr>eg_client = telemetry_client_new config, eg_waiting = [], eg_sealing = None, eg_flight = None,
      eg_entered = [], eg_failed = [], eg_sealed = [], eg_evicted = [], eg_finished = []\<rparr>"

definition some_list :: "'a option \<Rightarrow> 'a list" where
  "some_list x = (case x of None \<Rightarrow> [] | Some y \<Rightarrow> [y])"

lemma some_list_simps [simp]: "some_list None = []" "some_list (Some x) = [x]"
  by (simp_all add: some_list_def)

definition builder_stepped :: "builder_call \<Rightarrow> batch option \<times> batch_builder \<Rightarrow> telemetry_codec \<Rightarrow> egress \<Rightarrow> egress" where
  "builder_stepped call r codec s =
     s\<lparr>eg_client := (eg_client s)\<lparr>tc_builder := snd r\<rparr>, eg_waiting := eg_waiting s @ some_list (fst r),
       eg_entered := eg_entered s @ brought_in (tco_encode codec) call\<rparr>"

text \<open>The batch a push drops when the spool is full, and the one a re-spool drops.\<close>

definition pushed_out :: "encoded_batch \<Rightarrow> encoded_batch bounded_spool \<Rightarrow> u64 list" where
  "pushed_out e sp = (if is_full sp then [eb_seq (hd (sp_inner sp @ [e]))] else [])"

definition respooled_out :: "encoded_batch \<Rightarrow> encoded_batch bounded_spool \<Rightarrow> u64 list" where
  "respooled_out e sp = (if is_full sp then [eb_seq (last (e # sp_inner sp))] else [])"

definition goes_back :: "comms_error + collected_response \<Rightarrow> bool" where
  "goes_back res = (case res of Inl _ \<Rightarrow> True | Inr r \<Rightarrow> class_is_retryable (classify r))"

definition is_accepted :: "comms_error + collected_response \<Rightarrow> bool" where
  "is_accepted res = (case res of Inl _ \<Rightarrow> False | Inr r \<Rightarrow> classify r = ClSuccess)"

inductive egress_step ::
  "telemetry_codec \<Rightarrow> (encoded_batch \<Rightarrow> comms_error + collected_response \<Rightarrow> bool) \<Rightarrow> egress \<Rightarrow> egress \<Rightarrow> bool"
  for codec answers where
  submitted:
    "env' = comms_enrich (tcc_enrichment (tc_config (eg_client s))) env \<Longrightarrow> envelope_validate env' = Inr () \<Longrightarrow>
     r = batch_push (tco_encode codec) utc_now env' (tc_builder (eg_client s)) \<Longrightarrow>
     egress_step codec answers s (builder_stepped (BPush env') r codec s)"
| ticked:
    "r = poll_timer utc_now now (tc_builder (eg_client s)) \<Longrightarrow>
     egress_step codec answers s (builder_stepped (BTimer now) r codec s)"
| forced:
    "r = force_flush utc_now (tc_builder (eg_client s)) \<Longrightarrow>
     egress_step codec answers s (builder_stepped BForce r codec s)"
| seal_failed:
    "eg_waiting s = xs @ ba # ys \<Longrightarrow> eg_sealing s = None \<Longrightarrow>
     seal_allocate codec ba (eg_client s) = (None, c) \<Longrightarrow>
     egress_step codec answers s (s\<lparr>eg_client := c, eg_waiting := xs @ ys, eg_failed := eg_failed s @ [ba]\<rparr>)"
| seal_allocated:
    "eg_waiting s = xs @ ba # ys \<Longrightarrow> eg_sealing s = None \<Longrightarrow>
     seal_allocate codec ba (eg_client s) = (Some entry, c) \<Longrightarrow>
     egress_step codec answers s (s\<lparr>eg_client := c, eg_waiting := xs @ ys, eg_sealing := Some entry,
       eg_sealed := eg_sealed s @ [(eb_seq entry, ba)]\<rparr>)"
| seal_spooled:
    "eg_sealing s = Some entry \<Longrightarrow>
     egress_step codec answers s (s\<lparr>eg_client := seal_spool entry (eg_client s), eg_sealing := None,
       eg_evicted := eg_evicted s @ pushed_out entry (tc_spool (eg_client s))\<rparr>)"
| flush_taken:
    "eg_flight s = None \<Longrightarrow> spool_pop_front (tc_spool (eg_client s)) = (Some entry, sp) \<Longrightarrow>
     egress_step codec answers s (s\<lparr>eg_client := (eg_client s)\<lparr>tc_spool := sp\<rparr>, eg_flight := Some entry\<rparr>)"
| flush_settled:
    "eg_flight s = Some entry \<Longrightarrow> answers entry res \<Longrightarrow>
     flush_settle codec entry res (eg_client s) = (r, c) \<Longrightarrow>
     egress_step codec answers s (s\<lparr>eg_client := c, eg_flight := None,
       eg_evicted := eg_evicted s @ (if goes_back res then respooled_out entry (tc_spool (eg_client s)) else []),
       eg_finished := eg_finished s @ (if goes_back res then [] else [(eb_seq entry, is_accepted res)])\<rparr>)"

inductive_cases egress_stepE: "egress_step codec answers s s'"

text \<open>A sealed batch that was neither evicted nor finished, in the order the server gets to see them.\<close>

definition live :: "egress \<Rightarrow> encoded_batch list" where
  "live s = some_list (eg_flight s) @ sp_inner (tc_spool (eg_client s)) @ some_list (eg_sealing s)"

definition envelopes_of :: "batch list \<Rightarrow> encoded_envelope multiset" where
  "envelopes_of bas = mset (concat (map ba_envelopes bas))"

lemma envelopes_of_append [simp]: "envelopes_of (xs @ ys) = envelopes_of xs + envelopes_of ys"
  by (simp add: envelopes_of_def)

lemma envelopes_of_Cons [simp]: "envelopes_of (x # xs) = mset (ba_envelopes x) + envelopes_of xs"
  by (simp add: envelopes_of_def)

lemma envelopes_of_Nil [simp]: "envelopes_of [] = {#}"
  by (simp add: envelopes_of_def)

text \<open>Every envelope that entered is in exactly one place.\<close>

definition events_inv :: "egress \<Rightarrow> bool" where
  "events_inv s \<longleftrightarrow>
     mset (eg_entered s) = mset (bb_pending (tc_builder (eg_client s))) + envelopes_of (eg_waiting s)
       + envelopes_of (eg_failed s) + envelopes_of (map snd (eg_sealed s))"

text \<open>The spool is within its bound, and so is the builder.\<close>

definition parts_inv :: "telemetry_client_config \<Rightarrow> egress \<Rightarrow> bool" where
  "parts_inv config s \<longleftrightarrow>
     tc_config (eg_client s) = config \<and> builder_inv (tcc_batch config) (tc_builder (eg_client s))
     \<and> spool_inv (tc_spool (eg_client s)) \<and> sp_capacity (tc_spool (eg_client s)) = tcc_spool_capacity config"

lemma parts_inv_init: "parts_inv config (egress_init config)"
  by (simp add: parts_inv_def egress_init_def telemetry_client_new_def builder_inv_new spool_new_def spool_inv_def)

lemma seal_allocate_fields:
  "seal_allocate codec ba c = (r, c') \<Longrightarrow> tc_config c' = tc_config c \<and> tc_builder c' = tc_builder c \<and> tc_spool c' = tc_spool c"
  by (auto simp: seal_allocate_def split: sum.splits prod.splits)

lemma flush_settle_fields:
  "flush_settle codec e res c = (r, c') \<Longrightarrow> tc_config c' = tc_config c \<and> tc_builder c' = tc_builder c
     \<and> tc_spool c' = (if goes_back res then snd (spool_push_front e (tc_spool c)) else tc_spool c)"
  by (auto simp: flush_settle_def goes_back_def class_is_retryable_def Let_def split: sum.splits prod.splits if_splits)

lemma builder_stepped_flushes:
  assumes "parts_inv config s"
    and "r = run_builder_call (tco_encode codec) utc_now call (tc_builder (eg_client s))"
  shows "flushes (tcc_batch config) (tc_builder (eg_client s)) (brought_in (tco_encode codec) call) r"
  using assms run_builder_call_flushes by (simp add: parts_inv_def)

lemma builder_stepped_inv:
  assumes "parts_inv config s"
    and "r = run_builder_call (tco_encode codec) utc_now call (tc_builder (eg_client s))"
  shows "parts_inv config (builder_stepped call r codec s)"
    "events_inv s \<Longrightarrow> events_inv (builder_stepped call r codec s)"
proof -
  note f = builder_stepped_flushes [OF assms]
  show "parts_inv config (builder_stepped call r codec s)"
    using f assms(1) by (simp add: parts_inv_def builder_stepped_def flushes_def)
  assume e: "events_inv s"
  let ?new = "brought_in (tco_encode codec) call"
  have "mset (bb_pending (tc_builder (eg_client s))) + mset ?new
      = envelopes_of (some_list (fst r)) + mset (bb_pending (snd r))"
  proof (cases "fst r")
    case None
    then show ?thesis using f by (simp add: flushes_def)
  next
    case (Some ba)
    then have "mset (ba_envelopes ba @ bb_pending (snd r)) = mset (bb_pending (tc_builder (eg_client s)) @ ?new)"
      using f by (simp add: flushes_def)
    then show ?thesis using Some by simp
  qed
  then show "events_inv (builder_stepped call r codec s)"
    using e by (simp add: events_inv_def builder_stepped_def ac_simps)
qed

lemma parts_inv_step: "egress_step codec answers s s' \<Longrightarrow> parts_inv config s \<Longrightarrow> parts_inv config s'"
proof (induction rule: egress_step.induct)
  case (submitted env' s env r utc_now)
  show ?case using submitted by (intro builder_stepped_inv(1) [where utc_now = utc_now]) simp_all
next
  case (ticked r utc_now now s)
  show ?case using ticked by (intro builder_stepped_inv(1) [where utc_now = utc_now]) simp_all
next
  case (forced r utc_now s)
  show ?case using forced by (intro builder_stepped_inv(1) [where utc_now = utc_now]) simp_all
next
  case (seal_spooled s entry)
  then show ?case
    using run_spool_call_inv [of "tc_spool (eg_client s)" "CallPush entry"] by (simp add: parts_inv_def seal_spool_def)
next
  case (flush_taken s entry sp)
  then show ?case
    using run_spool_call_inv [of "tc_spool (eg_client s)" CallPopFront] by (simp add: parts_inv_def)
next
  case (flush_settled s entry res r c)
  then show ?case
    using run_spool_call_inv [of "tc_spool (eg_client s)" "CallPushFront entry"] flush_settle_fields [of codec entry res]
    by (auto simp: parts_inv_def)
qed (auto simp: parts_inv_def dest!: seal_allocate_fields)

lemma events_inv_step:
  "egress_step codec answers s s' \<Longrightarrow> parts_inv config s \<Longrightarrow> events_inv s \<Longrightarrow> events_inv s'"
proof (induction rule: egress_step.induct)
  case (submitted env' s env r utc_now)
  show ?case using submitted by (intro builder_stepped_inv(2) [where utc_now = utc_now]) simp_all
next
  case (ticked r utc_now now s)
  show ?case using ticked by (intro builder_stepped_inv(2) [where utc_now = utc_now]) simp_all
next
  case (forced r utc_now s)
  show ?case using forced by (intro builder_stepped_inv(2) [where utc_now = utc_now]) simp_all
next
  case (flush_settled s entry res r c)
  then show ?case using flush_settle_fields [of codec entry res] by (auto simp: events_inv_def)
qed (auto simp: events_inv_def seal_spool_def dest!: seal_allocate_fields)

subsection \<open>Order and whereabouts of the sealed batches\<close>

text \<open>
  As long as the stream has not run out of sequence numbers: the sealed batches are numbered
  consecutively; those the flusher is done with, the one on the wire, the spooled ones and the one about
  to be spooled are, in this sequence, in ascending order; and every sealed batch is in exactly one of
  these places or was evicted.
\<close>

definition numbers_left :: "u64 \<Rightarrow> egress \<Rightarrow> bool" where
  "numbers_left start s \<longleftrightarrow> unat start + length (eg_sealed s) \<le> 2 ^ 64"

definition whereabouts :: "egress \<Rightarrow> u64 list" where
  "whereabouts s = map fst (eg_finished s) @ map eb_seq (live s)"

definition sealed_inv :: "u64 \<Rightarrow> egress \<Rightarrow> bool" where
  "sealed_inv start s \<longleftrightarrow>
     map (unat \<circ> fst) (eg_sealed s) = [unat start..<unat start + length (eg_sealed s)]
     \<and> unat (tr_next (tc_tracker (eg_client s))) = min (unat start + length (eg_sealed s)) (2 ^ 64 - 1)
     \<and> tr_last_emitted (tc_tracker (eg_client s)) = (if eg_sealed s = [] then None else Some (fst (last (eg_sealed s))))
     \<and> sorted_wrt (<) (whereabouts s)
     \<and> mset (map fst (eg_sealed s)) = mset (whereabouts s) + mset (eg_evicted s)"

lemma unat_u64_less: "unat (w :: u64) < 2 ^ 64"
  using unsigned_less [where w = w and ?'a = nat] by simp

lemma sealed_inv_init: "sealed_inv (tcc_start_seq config) (egress_init config)"
proof -
  have "unat (tcc_start_seq config) = min (unat (tcc_start_seq config)) (2 ^ 64 - 1)"
    using unat_u64_less [of "tcc_start_seq config"] by linarith
  then show ?thesis
    by (simp add: sealed_inv_def egress_init_def telemetry_client_new_def seq_tracker_new_def whereabouts_def
        live_def spool_new_def)
qed

lemma whereabouts_sealed: "sealed_inv start s \<Longrightarrow> set (whereabouts s) \<subseteq> set (map fst (eg_sealed s))"
  unfolding sealed_inv_def by (metis mset_subset_eq_add_left set_mset_mset set_mset_mono)

lemma sealed_below:
  assumes "sealed_inv start s" "q \<in> set (map fst (eg_sealed s))"
  shows "unat q < unat start + length (eg_sealed s)"
proof -
  have "unat q \<in> set (map (unat \<circ> fst) (eg_sealed s))" using assms(2) by auto
  moreover have "map (unat \<circ> fst) (eg_sealed s) = [unat start..<unat start + length (eg_sealed s)]"
    using assms(1) by (simp add: sealed_inv_def)
  ultimately show ?thesis by (metis atLeastLessThan_iff set_upt)
qed

lemma sorted_wrt_remove: "sorted_wrt P (xs @ y # zs) \<Longrightarrow> sorted_wrt P (xs @ zs)"
  by (auto simp: sorted_wrt_append)

text \<open>Steps that seal nothing only move numbers along the sequence or take one out.\<close>

lemma sealed_inv_move:
  assumes "sealed_inv start s"
    and "eg_sealed s' = eg_sealed s"
    and "tr_next (tc_tracker (eg_client s')) = tr_next (tc_tracker (eg_client s))"
      "tr_last_emitted (tc_tracker (eg_client s')) = tr_last_emitted (tc_tracker (eg_client s))"
    and "(whereabouts s' = whereabouts s \<and> eg_evicted s' = eg_evicted s)
      \<or> (\<exists>xs q ys. whereabouts s = xs @ q # ys \<and> whereabouts s' = xs @ ys \<and> eg_evicted s' = eg_evicted s @ [q])"
  shows "sealed_inv start s'"
  using assms(5)
proof (elim disjE exE conjE)
  assume "whereabouts s' = whereabouts s" "eg_evicted s' = eg_evicted s"
  then show ?thesis using assms(1-4) by (simp add: sealed_inv_def)
next
  fix xs q ys
  assume w: "whereabouts s = xs @ q # ys" "whereabouts s' = xs @ ys" "eg_evicted s' = eg_evicted s @ [q]"
  have "sorted_wrt (<) (xs @ ys)" using assms(1) sorted_wrt_remove w(1) unfolding sealed_inv_def by metis
  then show ?thesis using assms(1-4) w by (simp add: sealed_inv_def)
qed

lemma seal_spooled_whereabouts:
  assumes "spool_inv (tc_spool (eg_client s))" "eg_sealing s = Some entry"
  defines "s' \<equiv> s\<lparr>eg_client := seal_spool entry (eg_client s), eg_sealing := None,
       eg_evicted := eg_evicted s @ pushed_out entry (tc_spool (eg_client s))\<rparr>"
  shows "(whereabouts s' = whereabouts s \<and> eg_evicted s' = eg_evicted s)
      \<or> (\<exists>xs q ys. whereabouts s = xs @ q # ys \<and> whereabouts s' = xs @ ys \<and> eg_evicted s' = eg_evicted s @ [q])"
proof (cases "is_full (tc_spool (eg_client s))")
  case True
  let ?in = "sp_inner (tc_spool (eg_client s))" and ?pre = "map fst (eg_finished s) @ map eb_seq (some_list (eg_flight s))"
  obtain q ys where q: "?in @ [entry] = q # ys" by (cases "?in @ [entry]") auto
  have "whereabouts s = ?pre @ map eb_seq (?in @ [entry])" using assms(2) by (simp add: whereabouts_def live_def)
  moreover have "whereabouts s' = ?pre @ map eb_seq ys"
    using True q spool_push_eq [OF assms(1), of entry] by (simp add: s'_def whereabouts_def live_def seal_spool_def)
  moreover have "eg_evicted s' = eg_evicted s @ [eb_seq q]" using True q by (simp add: s'_def pushed_out_def)
  ultimately show ?thesis by (intro disjI2 exI [of _ ?pre] exI [of _ "eb_seq q"] exI [of _ "map eb_seq ys"]) (simp add: q)
next
  case False
  then show ?thesis
    using spool_push_eq [OF assms(1), of entry] assms(2)
    by (simp add: s'_def whereabouts_def live_def seal_spool_def pushed_out_def)
qed

lemma respooled_whereabouts:
  assumes "spool_inv (tc_spool (eg_client s))" "eg_flight s = Some entry"
    and "tc_spool c = snd (spool_push_front entry (tc_spool (eg_client s)))"
  defines "s' \<equiv> s\<lparr>eg_client := c, eg_flight := None,
       eg_evicted := eg_evicted s @ respooled_out entry (tc_spool (eg_client s))\<rparr>"
  shows "(whereabouts s' = whereabouts s \<and> eg_evicted s' = eg_evicted s)
      \<or> (\<exists>xs q ys. whereabouts s = xs @ q # ys \<and> whereabouts s' = xs @ ys \<and> eg_evicted s' = eg_evicted s @ [q])"
proof (cases "is_full (tc_spool (eg_client s))")
  case True
  let ?in = "entry # sp_inner (tc_spool (eg_client s))" and ?post = "map eb_seq (some_list (eg_sealing s))"
  let ?pre = "map fst (eg_finished s) @ map eb_seq (butlast ?in)" and ?q = "eb_seq (last ?in)"
  have "map eb_seq ?in = map eb_seq (butlast ?in) @ [?q]"
    by (metis append_butlast_last_id list.distinct(1) list.map(1) list.map(2) map_append)
  then have "whereabouts s = ?pre @ ?q # ?post" using assms(2) by (simp add: whereabouts_def live_def)
  moreover have "whereabouts s' = ?pre @ ?post"
    using True spool_push_front_eq [OF assms(1), of entry] assms(3) by (simp add: s'_def whereabouts_def live_def)
  moreover have "eg_evicted s' = eg_evicted s @ [?q]" using True by (simp add: s'_def respooled_out_def)
  ultimately show ?thesis by blast
next
  case False
  then show ?thesis
    using spool_push_front_eq [OF assms(1), of entry] assms(2,3)
    by (simp add: s'_def whereabouts_def live_def respooled_out_def)
qed

lemma flush_settle_tracker:
  "flush_settle codec e res c = (r, c') \<Longrightarrow> tr_next (tc_tracker c') = tr_next (tc_tracker c)
     \<and> tr_last_emitted (tc_tracker c') = tr_last_emitted (tc_tracker c)"
  by (auto simp: flush_settle_def record_ack_def Let_def split: sum.splits prod.splits option.splits if_splits)

lemma seal_allocate_Some:
  assumes "seal_allocate codec ba c = (Some entry, c')"
  shows "eb_seq entry = tr_next (tc_tracker c)" "tr_next (tc_tracker c') = saturating_add (tr_next (tc_tracker c)) 1"
    "tr_last_emitted (tc_tracker c') = Some (eb_seq entry)" "eb_event_count entry = length (ba_envelopes ba)"
    "encode_batch codec ba (tcc_compression (tc_config c)) = Inr (eb_body entry)"
  using assms by (auto simp: seal_allocate_def next_seq_def Let_def split: sum.splits)

lemma sealed_inv_allocated:
  fixes w :: "batch list"
  assumes inv: "sealed_inv start s" and "seal_allocate codec ba (eg_client s) = (Some entry, c)" and "eg_sealing s = None"
  defines "s' \<equiv> s\<lparr>eg_client := c, eg_waiting := w, eg_sealing := Some entry, eg_sealed := eg_sealed s @ [(eb_seq entry, ba)]\<rparr>"
  assumes left: "numbers_left start s'"
  shows "sealed_inv start s'"
proof -
  note a = seal_allocate_Some [OF assms(2)]
  have sp: "tc_spool c = tc_spool (eg_client s)" using seal_allocate_fields [OF assms(2)] by simp
  have room: "unat start + Suc (length (eg_sealed s)) \<le> 2 ^ 64" using left by (simp add: numbers_left_def s'_def)
  then have q: "unat (eb_seq entry) = unat start + length (eg_sealed s)" using inv a(1) by (simp add: sealed_inv_def)
  have new: "whereabouts s' = whereabouts s @ [eb_seq entry]"
    using assms(3) sp by (simp add: whereabouts_def live_def s'_def)
  have "x < eb_seq entry" if "x \<in> set (whereabouts s)" for x
    using sealed_below [OF inv subsetD [OF whereabouts_sealed [OF inv] that]] q by (simp add: word_less_nat_alt)
  then have "sorted_wrt (<) (whereabouts s')" using inv by (simp add: new sorted_wrt_append sealed_inv_def)
  moreover have "map (unat \<circ> fst) (eg_sealed s') = [unat start..<unat start + length (eg_sealed s')]"
    using inv q by (simp add: s'_def sealed_inv_def)
  moreover have "unat (tr_next (tc_tracker c)) = min (unat start + length (eg_sealed s')) (2 ^ 64 - 1)"
    using q by (simp add: a(1) [symmetric] a(2) unat_saturating_add s'_def)
  ultimately show ?thesis
    using inv a(3) new by (simp add: sealed_inv_def s'_def)
qed

lemma sealed_inv_step:
  assumes "egress_step codec answers s s'" "parts_inv config s" "sealed_inv start s" "numbers_left start s'"
  shows "sealed_inv start s'"
  using assms
proof (induction rule: egress_step.induct)
  case (seal_allocated s xs ba ys entry c)
  show ?case by (rule sealed_inv_allocated [OF seal_allocated(5,3,2,6)])
next
  case (seal_spooled s entry)
  then have "spool_inv (tc_spool (eg_client s))" by (simp add: parts_inv_def)
  from seal_spooled_whereabouts [OF this seal_spooled(1)] show ?case
    by (rule sealed_inv_move [OF seal_spooled(3), rotated -1]) (simp_all add: seal_spool_def)
next
  case (flush_taken s entry sp)
  then have "whereabouts (s\<lparr>eg_client := (eg_client s)\<lparr>tc_spool := sp\<rparr>, eg_flight := Some entry\<rparr>) = whereabouts s"
    by (cases "sp_inner (tc_spool (eg_client s))") (auto simp: whereabouts_def live_def spool_pop_front_def)
  then show ?case by (intro sealed_inv_move [OF flush_taken(4)]) simp_all
next
  case (flush_settled s entry res r c)
  note f = flush_settle_fields [OF flush_settled(3)] and t = flush_settle_tracker [OF flush_settled(3)]
  have spool: "spool_inv (tc_spool (eg_client s))" using flush_settled by (simp add: parts_inv_def)
  show ?case
  proof (cases "goes_back res")
    case True
    then have "tc_spool c = snd (spool_push_front entry (tc_spool (eg_client s)))" using f by simp
    from respooled_whereabouts [OF spool flush_settled(1) this] show ?thesis
      using True t by (intro sealed_inv_move [OF flush_settled(5)]) (simp_all add: whereabouts_def live_def)
  next
    case False
    then show ?thesis
      using f t flush_settled(1) by (intro sealed_inv_move [OF flush_settled(5)]) (simp_all add: whereabouts_def live_def)
  qed
next
  case (seal_failed s xs ba ys c)
  then have "c = eg_client s" by (auto simp: seal_allocate_def split: sum.splits prod.splits)
  then show ?case by (intro sealed_inv_move [OF seal_failed(5)]) (simp_all add: whereabouts_def live_def)
next
  case (submitted env' s env r utc_now)
  show ?case by (rule sealed_inv_move [OF submitted(5)]) (simp_all add: builder_stepped_def whereabouts_def live_def)
next
  case (ticked r utc_now now s)
  show ?case by (rule sealed_inv_move [OF ticked(3)]) (simp_all add: builder_stepped_def whereabouts_def live_def)
next
  case (forced r utc_now s)
  show ?case by (rule sealed_inv_move [OF forced(3)]) (simp_all add: builder_stepped_def whereabouts_def live_def)
qed

lemma sealed_grows: "egress_step codec answers s s' \<Longrightarrow> length (eg_sealed s) \<le> length (eg_sealed s')"
  by (induction rule: egress_step.induct) (simp_all add: builder_stepped_def)

lemma egress_reachable_inv:
  assumes "(egress_step codec answers)\<^sup>*\<^sup>* (egress_init config) s"
  shows "parts_inv config s \<and> events_inv s
    \<and> (numbers_left (tcc_start_seq config) s \<longrightarrow> sealed_inv (tcc_start_seq config) s)"
  using assms
proof (induction rule: rtranclp_induct)
  case base
  show ?case
    by (simp add: parts_inv_init sealed_inv_init)
      (simp add: events_inv_def egress_init_def telemetry_client_new_def batch_builder_new_def)
next
  case (step s s')
  have "numbers_left (tcc_start_seq config) s' \<Longrightarrow> numbers_left (tcc_start_seq config) s"
    using sealed_grows [OF step(2)] by (simp add: numbers_left_def)
  then show ?case
    using step parts_inv_step events_inv_step sealed_inv_step by blast
qed


subsection \<open>Acknowledgements\<close>

text \<open>A control plane that acknowledges a batch with that batch's number.\<close>

definition echoes :: "telemetry_codec \<Rightarrow> (encoded_batch \<Rightarrow> comms_error + collected_response \<Rightarrow> bool) \<Rightarrow> bool" where
  "echoes codec answers \<longleftrightarrow>
     (\<forall>e r a. answers e (Inr r) \<longrightarrow> classify r = ClSuccess \<longrightarrow> parse_ack codec (rs_body r) = Inr a \<longrightarrow> a = eb_seq e)"

definition acks_inv :: "egress \<Rightarrow> bool" where
  "acks_inv s \<longleftrightarrow> (\<forall>h. tr_acked_high_water (tc_tracker (eg_client s)) = Some h \<longrightarrow> h \<in> fst ` set (eg_finished s))"

lemma flush_settle_high_water:
  assumes "flush_settle codec e res c = (r, c')" "tr_acked_high_water (tc_tracker c') = Some h"
  shows "tr_acked_high_water (tc_tracker c) = Some h
    \<or> (\<exists>resp. res = Inr resp \<and> classify resp = ClSuccess \<and> parse_ack codec (rs_body resp) = Inr h)"
  using assms
  by (auto simp: flush_settle_def record_ack_def Let_def split: sum.splits prod.splits option.splits if_splits)

lemma acks_inv_settled:
  assumes "flush_settle codec e res c = (r, c')" "answers e res" "echoes codec answers"
    and "\<forall>h. tr_acked_high_water (tc_tracker c) = Some h \<longrightarrow> h \<in> F"
    and "tr_acked_high_water (tc_tracker c') = Some h"
  shows "h \<in> F \<or> (h = eb_seq e \<and> \<not> goes_back res)"
  using flush_settle_high_water [OF assms(1,5)]
proof (elim disjE exE conjE)
  fix resp
  assume r: "res = Inr resp" "classify resp = ClSuccess" "parse_ack codec (rs_body resp) = Inr h"
  then have "h = eb_seq e" using assms(2,3) unfolding echoes_def by blast
  then show ?thesis using r by (simp add: goes_back_def class_is_retryable_def)
qed (use assms(4) in blast)

lemma acks_inv_step:
  assumes "egress_step codec answers s s'" "echoes codec answers" "acks_inv s"
  shows "acks_inv s'"
  using assms
proof (induction rule: egress_step.induct)
  case (flush_settled s entry res r c)
  have "h \<in> fst ` set (eg_finished s) \<or> (h = eb_seq entry \<and> \<not> goes_back res)"
    if "tr_acked_high_water (tc_tracker c) = Some h" for h
    using acks_inv_settled [OF flush_settled(3,2,4) _ that] flush_settled(5) unfolding acks_inv_def by blast
  then show ?case by (auto simp: acks_inv_def)
next
  case (seal_allocated s xs ba ys entry c)
  then show ?case by (auto simp: acks_inv_def seal_allocate_def next_seq_def Let_def split: sum.splits)
next
  case (seal_failed s xs ba ys c)
  then show ?case by (auto simp: acks_inv_def seal_allocate_def split: sum.splits prod.splits)
qed (simp_all add: acks_inv_def builder_stepped_def seal_spool_def)

lemma acks_inv_reachable:
  assumes "(egress_step codec answers)\<^sup>*\<^sup>* (egress_init config) s" "echoes codec answers"
  shows "acks_inv s"
  using assms(1)
proof (induction rule: rtranclp_induct)
  case base
  show ?case by (simp add: acks_inv_def egress_init_def telemetry_client_new_def seq_tracker_new_def)
qed (use acks_inv_step assms(2) in blast)

lemma last_sealed_greatest:
  assumes "sealed_inv start s" "q \<in> set (map fst (eg_sealed s))"
  shows "\<exists>e. tr_last_emitted (tc_tracker (eg_client s)) = Some e \<and> q \<le> e"
proof -
  have ne: "eg_sealed s \<noteq> []" using assms(2) by auto
  let ?l = "map (unat \<circ> fst) (eg_sealed s)"
  have l: "?l = [unat start..<unat start + length (eg_sealed s)]" using assms(1) by (simp add: sealed_inv_def)
  have "last ?l = unat start + length (eg_sealed s) - 1" unfolding l using ne by simp
  then have "unat (fst (last (eg_sealed s))) = unat start + length (eg_sealed s) - 1" using ne by (simp add: last_map)
  then have "q \<le> fst (last (eg_sealed s))" using sealed_below [OF assms] by (simp add: word_le_nat_alt)
  then show ?thesis using assms(1) ne by (simp add: sealed_inv_def)
qed

text \<open>
  Claim C19. Against a control plane that acknowledges each batch with its sequence number, no flush ends
  in a sequence regression: whatever the tasks and the flusher have done so far, retries after lost
  connections and transient rejections included, the acknowledgement of the batch on the wire is accepted
  and becomes the high-water mark.
\<close>

theorem echoed_acks_never_regress:
  assumes "(egress_step codec answers)\<^sup>*\<^sup>* (egress_init config) s"
    and "unat (tcc_start_seq config) + length (eg_sealed s) \<le> 2 ^ 64"
    and "echoes codec answers"
    and "eg_flight s = Some entry" "answers entry (Inr r)"
    and "classify r = ClSuccess" "parse_ack codec (rs_body r) = Inr a"
  shows "\<exists>c. flush_settle codec entry (Inr r) (eg_client s) = (Inr (FlushAcked (eb_seq entry)), c)
    \<and> tr_acked_high_water (tc_tracker c) = Some (eb_seq entry)"
proof -
  have a: "a = eb_seq entry" using assms(3,5-7) unfolding echoes_def by blast
  have inv: "sealed_inv (tcc_start_seq config) s"
    using egress_reachable_inv [OF assms(1)] assms(2) by (simp add: numbers_left_def)
  have w: "whereabouts s = map fst (eg_finished s) @ eb_seq entry # map eb_seq (sp_inner (tc_spool (eg_client s)) @ some_list (eg_sealing s))"
    using assms(4) by (simp add: whereabouts_def live_def)
  have "eb_seq entry \<in> set (map fst (eg_sealed s))" using whereabouts_sealed [OF inv] w by auto
  then have emitted: "\<exists>e. tr_last_emitted (tc_tracker (eg_client s)) = Some e \<and> eb_seq entry \<le> e"
    by (rule last_sealed_greatest [OF inv])
  have "sorted_wrt (<) (whereabouts s)" using inv by (simp add: sealed_inv_def)
  then have "h \<le> eb_seq entry" if "tr_acked_high_water (tc_tracker (eg_client s)) = Some h" for h
    using acks_inv_reachable [OF assms(1,3)] that unfolding w acks_inv_def
    by (auto simp: sorted_wrt_append intro: less_imp_le)
  then have "fst (record_ack (eb_seq entry) (tc_tracker (eg_client s))) = Inr (tr_acked_high_water (tc_tracker (eg_client s)))"
    unfolding record_ack_Inr using emitted by blast
  then show ?thesis
    using assms(6,7) a record_ack_state [of "eb_seq entry" "tc_tracker (eg_client s)"]
    by (simp add: flush_settle_def Let_def case_prod_unfold)
qed

section \<open>An egress in operation\<close>

text \<open>
  A client that seals every event at once, and a control plane that accepts the first batch.
\<close>

definition sample_codec :: telemetry_codec where
  "sample_codec =
     \<lparr>tco_encode = sample_encoder,
      tco_zstd = (\<lambda>_ b. Inr (0 # b)), tco_json_ack = (\<lambda>_. Inl ''not json''), tco_msgpack_ack = (\<lambda>_. Inr 1)\<rparr>"

definition sample_decoder :: "bytes \<Rightarrow> (envelope \<times> bytes) option" where
  "sample_decoder b = (case b of x # r \<Rightarrow> if x = 7 then Some (sample_envelope, r) else None | [] \<Rightarrow> None)"

definition sample_config :: telemetry_client_config where
  "sample_config =
     \<lparr>tcc_path = ''/batches'', tcc_batch = sample_batching, tcc_compression = CompressNone, tcc_spool_capacity = 2,
      tcc_enrichment = \<lparr>ec_tenant_id = 2, ec_device_id = 3, ec_site_id = None\<rparr>, tcc_stream = ''t'', tcc_start_seq = 1\<rparr>"

definition sample_response :: collected_response where
  "sample_response = \<lparr>rs_status = 200, rs_headers = Map.empty, rs_body = [0x81, 1]\<rparr>"

definition first_accepted :: "encoded_batch \<Rightarrow> comms_error + collected_response \<Rightarrow> bool" where
  "first_accepted e res \<longleftrightarrow> eb_seq e = 1 \<and> res = Inr sample_response"

definition sample_entry :: encoded_batch where
  "sample_entry = \<lparr>eb_seq = 1, eb_body = [0x91, 7], eb_encoding = CompressNone, eb_event_count = 1\<rparr>"

lemma sample_allocate:
  "seal_allocate sample_codec sample_batch (telemetry_client_new sample_config)
     = (Some sample_entry, (telemetry_client_new sample_config)\<lparr>tc_tracker := snd (next_seq (seq_tracker_new ''t'' 1))\<rparr>)"
  by (simp add: seal_allocate_def encode_batch_def telemetry_client_new_def sample_config_def sample_batch_def
      write_msgpack_array_header_def next_seq_def seq_tracker_new_def sample_entry_def sample_encoded_def Let_def)

lemma sample_run:
  "\<exists>s. (egress_step sample_codec first_accepted)\<^sup>*\<^sup>* (egress_init sample_config) s
     \<and> length (eg_sealed s) = 1 \<and> eg_entered s = [sample_encoded] \<and> eg_flight s = Some sample_entry"
proof -
  define s0 where "s0 = egress_init sample_config"
  have c0: "tcc_enrichment (tc_config (eg_client s0)) = tcc_enrichment sample_config"
      "tc_builder (eg_client s0) = batch_builder_new sample_batching" "eg_client s0 = telemetry_client_new sample_config"
      "eg_waiting s0 = []" "eg_sealing s0 = None" "eg_flight s0 = None" "eg_sealed s0 = []" "eg_entered s0 = []"
    by (simp_all add: s0_def egress_init_def telemetry_client_new_def) (simp add: sample_config_def)
  have enriched: "sample_envelope = comms_enrich (tcc_enrichment (tc_config (eg_client s0))) sample_envelope"
    by (simp add: c0(1) comms_enrich_def sample_config_def sample_envelope_def)
  have valid: "envelope_validate sample_envelope = Inr ()"
    by (simp add: envelope_validate_def sample_envelope_def go_zero_time_secs_def)
  define r where "r = (Some sample_batch, batch_builder_new sample_batching)"
  define s1 where "s1 = builder_stepped (BPush sample_envelope) r sample_codec s0"
  have "r = batch_push (tco_encode sample_codec) 0 sample_envelope (tc_builder (eg_client s0))"
    by (simp only: r_def c0(2) sample_codec_def telemetry_codec.simps sample_push)
  from egress_step.submitted [OF enriched valid this]
  have step1: "egress_step sample_codec first_accepted s0 s1" unfolding s1_def .
  have "brought_in (tco_encode sample_codec) (BPush sample_envelope) = [sample_encoded]"
    by (simp add: sample_codec_def sample_encoder_def encoded_envelope_encode_def sample_encoded_def)
  moreover have "(telemetry_client_new sample_config)\<lparr>tc_builder := batch_builder_new sample_batching\<rparr>
      = telemetry_client_new sample_config"
    by (simp add: telemetry_client_new_def sample_config_def)
  ultimately have c1: "eg_client s1 = telemetry_client_new sample_config" "eg_waiting s1 = [] @ sample_batch # []"
      "eg_sealing s1 = None" "eg_flight s1 = None" "eg_sealed s1 = []" "eg_entered s1 = [sample_encoded]"
    by (simp_all add: s1_def r_def builder_stepped_def c0)
  define c where "c = (telemetry_client_new sample_config)\<lparr>tc_tracker := snd (next_seq (seq_tracker_new ''t'' 1))\<rparr>"
  have "seal_allocate sample_codec sample_batch (eg_client s1) = (Some sample_entry, c)"
    by (simp only: c1(1) sample_allocate c_def)
  note step2 = egress_step.seal_allocated [OF c1(2,3) this, where answers = first_accepted]
  define s2 where "s2 = s1\<lparr>eg_client := c, eg_waiting := [] @ [], eg_sealing := Some sample_entry,
       eg_sealed := eg_sealed s1 @ [(eb_seq sample_entry, sample_batch)]\<rparr>"
  have c2: "eg_client s2 = c" "eg_sealing s2 = Some sample_entry" "eg_flight s2 = None" "length (eg_sealed s2) = 1"
      "eg_entered s2 = [sample_encoded]"
    by (simp_all add: s2_def c1)
  note step3 = egress_step.seal_spooled [OF c2(2), of sample_codec first_accepted]
  define s3 where "s3 = s2\<lparr>eg_client := seal_spool sample_entry (eg_client s2), eg_sealing := None,
       eg_evicted := eg_evicted s2 @ pushed_out sample_entry (tc_spool (eg_client s2))\<rparr>"
  have c3: "eg_client s3 = seal_spool sample_entry c" "eg_flight s3 = None" "length (eg_sealed s3) = 1" "eg_entered s3 = [sample_encoded]"
    by (simp_all add: s3_def c2)
  have "\<exists>sp. spool_pop_front (tc_spool (eg_client s3)) = (Some sample_entry, sp)"
    by (simp add: c3(1) c_def seal_spool_def telemetry_client_new_def sample_config_def spool_new_def spool_push_def
        spool_pop_front_def Let_def)
  then obtain sp where "spool_pop_front (tc_spool (eg_client s3)) = (Some sample_entry, sp)" by blast
  note step4 = egress_step.flush_taken [OF c3(2) this, of sample_codec first_accepted]
  define s4 where "s4 = s3\<lparr>eg_client := (eg_client s3)\<lparr>tc_spool := sp\<rparr>, eg_flight := Some sample_entry\<rparr>"
  have "(egress_step sample_codec first_accepted)\<^sup>*\<^sup>* s0 s4"
    using step1 step2 [folded s2_def] step3 [folded s3_def] step4 [folded s4_def] by (meson converse_rtranclp_into_rtranclp rtranclp.rtrancl_refl)
  moreover have "length (eg_sealed s4) = 1" "eg_entered s4 = [sample_encoded]" "eg_flight s4 = Some sample_entry"
    by (simp_all add: s4_def c3)
  ultimately show ?thesis unfolding s0_def by blast
qed


theorem echoed_acks_never_regress_witness:
  "\<exists>(s :: egress) c. flush_settle sample_codec sample_entry (Inr sample_response) (eg_client s) = (Inr (FlushAcked 1), c)
     \<and> tr_acked_high_water (tc_tracker c) = Some 1"
proof -
  obtain s where s: "(egress_step sample_codec first_accepted)\<^sup>*\<^sup>* (egress_init sample_config) s"
      "length (eg_sealed s) = 1" "eg_flight s = Some sample_entry"
    using sample_run by blast
  have left: "unat (tcc_start_seq sample_config) + length (eg_sealed s) \<le> 2 ^ 64" using s(2) by (simp add: sample_config_def)
  have ack: "parse_ack sample_codec (rs_body sample_response) = Inr 1" "classify sample_response = ClSuccess"
    by (simp_all add: parse_ack_def sample_codec_def sample_response_def classify_def from_status_def)
  have e: "echoes sample_codec first_accepted" using ack(1) by (auto simp: echoes_def first_accepted_def)
  have seq: "eb_seq sample_entry = 1" by (simp add: sample_entry_def)
  then have "first_accepted sample_entry (Inr sample_response)" by (simp add: first_accepted_def)
  from echoed_acks_never_regress [OF s(1) left e s(3) this ack(2,1)] show ?thesis unfolding seq by blast
qed

theorem batch_body_round_trip_witness:
  "\<exists>raw. encode_batch sample_codec sample_batch CompressNone = Inr raw
     \<and> read_batch sample_decoder raw = Some [sample_envelope]"
proof -
  have d: "self_delimiting (tco_encode sample_codec) sample_decoder"
    by (auto simp: self_delimiting_def sample_codec_def sample_encoder_def sample_decoder_def split: if_splits)
  have run: "builder_run (tco_encode sample_codec) 0 [BPush sample_envelope] (batch_builder_new sample_batching)
      = ([sample_batch], batch_builder_new sample_batching)"
    by (simp add: sample_codec_def sample_push)
  have "length (ba_envelopes sample_batch) < 2 ^ 32" by (simp add: sample_batch_def)
  from batch_body_round_trip [OF d run _ this] show ?thesis
    by (auto simp: sample_batch_def sample_encoded_def)
qed

end
