(* ===== verification/Comms_Policy.thy ===== *)
theory Comms_Policy
  imports Comms_Client CAS_Loop
begin

text \<open>
  The pull of signed policy bundles (\<open>sng-comms/src/policy.rs\<close>): the shared trust store, entity tags, the
  vetting of a response, and the puller with its cache, used by concurrent pulls while operators add
  keys. Header values, Base64, UUIDs and the decoder of the claims are third-party and come in the record
  \<open>puller_ops\<close>.
\<close>

section \<open>The trust store\<close>

datatype policy_trust_store_error = TrustInvalidKeyId string | TrustInvalidKeyLength nat

fun add_key_error_display :: "add_key_error \<Rightarrow> string" where
  "add_key_error_display AddKey_Ephemeral = ''cannot install a trusted key under the ephemeral signing-key id''"
| "add_key_error_display (AddKey_InvalidKey e) = ''invalid ed25519 public key: '' @ e"

text \<open>One insertion as an operation on the shared pointer; a refused one puts the pointer back that it read.\<close>

definition insert_key_op ::
  "'key ed25519_ops \<Rightarrow> string \<Rightarrow> bytes \<Rightarrow> ('key policy_verifier, policy_trust_store_error + unit) cell_op" where
  "insert_key_op ops kid public_key = Rmw (\<lambda>current.
     case verifier_add_key ops kid public_key current of
       Inr next \<Rightarrow> Cas next (Inr ())
     | Inl e \<Rightarrow> Cas current (Inl (TrustInvalidKeyId (add_key_error_display e))))"

definition insert_key ::
  "'key ed25519_ops \<Rightarrow> string \<Rightarrow> bytes \<Rightarrow> 'key policy_verifier
     \<Rightarrow> (policy_trust_store_error + unit) \<times> 'key policy_verifier" where
  "insert_key ops kid public_key v = apply_op (insert_key_op ops kid public_key) v"

section \<open>Entity tags\<close>

record entity_tag =
  et_weak :: bool
  et_tag :: string

definition entity_tag_parse :: "string \<Rightarrow> entity_tag option" where
  "entity_tag_parse raw =
     (let (weak, tail) = (case strip_prefix ''W/'' raw of Some rest \<Rightarrow> (True, rest) | None \<Rightarrow> (False, raw)) in
      case strip_prefix [CHR 0x22] tail of
        None \<Rightarrow> None
      | Some opened \<Rightarrow>
          (case strip_suffix [CHR 0x22] opened of
             None \<Rightarrow> None
           | Some tag \<Rightarrow>
               if CHR 0x22 \<in> set tag then None else Some \<lparr>et_weak = weak, et_tag = tag\<rparr>))"

definition to_header_value :: "entity_tag \<Rightarrow> string" where
  "to_header_value t = (if et_weak t then ''W/'' else []) @ [CHR 0x22] @ et_tag t @ [CHR 0x22]"

section \<open>The puller\<close>

record 'key puller_ops =
  po_ed25519 :: "'key ed25519_ops"
  po_to_str :: "string \<Rightarrow> string option"
  po_from_str :: "string \<Rightarrow> string option"
  po_base64 :: "string \<Rightarrow> string + bytes"
  po_uuid :: "string \<Rightarrow> uuid option"
  po_uuid_display :: "uuid \<Rightarrow> string"
  po_claims :: "bytes \<Rightarrow> string + policy_bundle_claims"

record response_headers =
  rh_etag :: "entity_tag option"
  rh_last_modified :: "string option"
  rh_bundle_id :: "uuid option"
  rh_graph_id :: "uuid option"

record cached_bundle =
  cb_bundle :: policy_bundle
  cb_claims :: policy_bundle_claims
  cb_headers :: response_headers

datatype bundle_pull_outcome = PullUpdated cached_bundle | PullNotModified

record policy_puller_config =
  pc_tenant_id :: uuid
  pc_target :: bundle_target
  pc_path_override :: "string option"

record policy_puller =
  pp_config :: policy_puller_config
  pp_cached :: "cached_bundle option"

definition policy_puller_new :: "policy_puller_config \<Rightarrow> policy_puller" where
  "policy_puller_new config = \<lparr>pp_config = config, pp_cached = None\<rparr>"

definition set_path_override :: "string option \<Rightarrow> policy_puller \<Rightarrow> policy_puller" where
  "set_path_override p pp = pp\<lparr>pp_config := (pp_config pp)\<lparr>pc_path_override := p\<rparr>\<rparr>"

fun bundle_target_path :: "bundle_target \<Rightarrow> string" where
  "bundle_target_path Edge = ''edge''"
| "bundle_target_path Endpoint = ''endpoint''"
| "bundle_target_path Cloud = ''cloud''"
| "bundle_target_path Mobile = ''mobile''"

definition default_payload_path :: "'key puller_ops \<Rightarrow> uuid \<Rightarrow> bundle_target \<Rightarrow> string" where
  "default_payload_path ops tenant target =
     ''/api/v1/tenants/'' @ po_uuid_display ops tenant @ ''/policy/bundles/'' @ bundle_target_path target @ ''/payload''"

text \<open>\<open>get\<close>, then \<open>to_str\<close>, of a header.\<close>

definition header_str :: "'key puller_ops \<Rightarrow> headers \<Rightarrow> string \<Rightarrow> string option" where
  "header_str ops hs name = Option.bind (hs name) (po_to_str ops)"

definition parse_response_headers :: "'key puller_ops \<Rightarrow> headers \<Rightarrow> response_headers" where
  "parse_response_headers ops hs =
     \<lparr>rh_etag = Option.bind (header_str ops hs ''etag'') entity_tag_parse,
      rh_last_modified = header_str ops hs ''last-modified'',
      rh_bundle_id = Option.bind (header_str ops hs ''x-sng-policy-bundle-id'') (po_uuid ops),
      rh_graph_id = Option.bind (header_str ops hs ''x-sng-policy-graph-id'') (po_uuid ops)\<rparr>"

definition conditional_request_headers :: "'key puller_ops \<Rightarrow> cached_bundle \<Rightarrow> headers" where
  "conditional_request_headers ops cb =
     (let etag = Option.bind (rh_etag (cb_headers cb)) (\<lambda>t. po_from_str ops (to_header_value t));
          modified = Option.bind (rh_last_modified (cb_headers cb)) (po_from_str ops) in
      (\<lambda>name. if name = ''if-none-match'' then etag else if name = ''if-modified-since'' then modified else None))"

subsection \<open>Vetting a response\<close>

definition policy_version_error :: "string \<Rightarrow> comms_error + 'a" where
  "policy_version_error msg = Inl (CommsPolicyVersion msg)"

definition required_header :: "'key puller_ops \<Rightarrow> headers \<Rightarrow> string \<Rightarrow> comms_error + string" where
  "required_header ops hs name =
     (case hs name of
        None \<Rightarrow> policy_version_error (''missing required response header `'' @ name @ ''`'')
      | Some v \<Rightarrow>
          (case po_to_str ops v of
             None \<Rightarrow> policy_version_error (''non-ASCII bytes in `'' @ name @ ''` header'')
           | Some raw \<Rightarrow> Inr raw))"

definition decode_signature :: "'key puller_ops \<Rightarrow> headers \<Rightarrow> comms_error + bytes" where
  "decode_signature ops hs =
     and_then (required_header ops hs ''x-sng-policy-signature'') (\<lambda>raw.
       case po_base64 ops raw of
         Inl e \<Rightarrow> policy_version_error (''base64 decode of `x-sng-policy-signature`: '' @ e)
       | Inr sig \<Rightarrow>
           if length sig \<noteq> signature_length
           then policy_version_error (''`x-sng-policy-signature` must be '' @ decimal signature_length
                  @ '' bytes (base64-decoded), got '' @ decimal (length sig))
           else Inr sig)"

fun invalid_key_id_display :: "invalid_policy_signing_key_id \<Rightarrow> string" where
  "invalid_key_id_display KeyId_Empty = ''policy signing key id must be non-empty''"
| "invalid_key_id_display (KeyId_TooLong len m) =
     ''policy signing key id is '' @ decimal len @ '' chars, max '' @ decimal m"

definition decode_key_id :: "'key puller_ops \<Rightarrow> headers \<Rightarrow> comms_error + string" where
  "decode_key_id ops hs =
     and_then (required_header ops hs ''x-sng-policy-key-id'') (\<lambda>raw.
       case signing_key_id_new raw of
         Inl e \<Rightarrow> policy_version_error (''invalid `x-sng-policy-key-id` value: '' @ invalid_key_id_display e)
       | Inr kid \<Rightarrow> Inr kid)"

definition decode_and_verify ::
  "'key puller_ops \<Rightarrow> 'key policy_verifier \<Rightarrow> bytes \<Rightarrow> headers \<Rightarrow> comms_error + policy_bundle" where
  "decode_and_verify ops v b hs =
     and_then (decode_signature ops hs) (\<lambda>sig.
     and_then (decode_key_id ops hs) (\<lambda>kid.
       let bundle = \<lparr>body = b, signature = sig, signing_key_id = kid\<rparr> in
       and_then (map_err CommsPolicy (verifier_verify (po_ed25519 ops) v bundle)) (\<lambda>_. Inr bundle)))"

text \<open>The identifier that the checks report: the header's, or the nil UUID.\<close>

definition bundle_id_for_check :: "response_headers \<Rightarrow> uuid" where
  "bundle_id_for_check h = (case rh_bundle_id h of Some u \<Rightarrow> u | None \<Rightarrow> 0)"

text \<open>The part of a successful pull outside the cache's lock, and the part under it.\<close>

definition vet_response ::
  "'key puller_ops \<Rightarrow> 'key policy_verifier \<Rightarrow> bundle_target \<Rightarrow> collected_response \<Rightarrow> comms_error + cached_bundle" where
  "vet_response ops v target r =
     (let hs = parse_response_headers ops (rs_headers r) in
      and_then (decode_and_verify ops v (rs_body r) (rs_headers r)) (\<lambda>bundle.
      and_then (map_err CommsPolicy (claims_from_body (po_claims ops) (body bundle))) (\<lambda>claims.
      and_then (map_err CommsPolicy (check_target claims (bundle_id_for_check hs) target)) (\<lambda>_.
        Inr \<lparr>cb_bundle = bundle, cb_claims = claims, cb_headers = hs\<rparr>))))"

definition install_pulled :: "cached_bundle \<Rightarrow> policy_puller \<Rightarrow> (comms_error + bundle_pull_outcome) \<times> policy_puller" where
  "install_pulled cb pp =
     (let prev_version = map_option (\<lambda>c. claims_graph_version (cb_claims c)) (pp_cached pp) in
      case check_not_stale (cb_claims cb) (bundle_id_for_check (cb_headers cb)) prev_version of
        Inl e \<Rightarrow> (Inl (CommsPolicy e), pp)
      | Inr _ \<Rightarrow> (Inr (PullUpdated cb), pp\<lparr>pp_cached := Some cb\<rparr>))"

definition handle_response ::
  "'key puller_ops \<Rightarrow> 'key policy_verifier \<Rightarrow> collected_response \<Rightarrow> policy_puller
     \<Rightarrow> (comms_error + bundle_pull_outcome) \<times> policy_puller" where
  "handle_response ops v r pp =
     (case classify r of
        ClSuccess \<Rightarrow>
          (case vet_response ops v (pc_target (pp_config pp)) r of
             Inl e \<Rightarrow> (Inl e, pp)
           | Inr cb \<Rightarrow> install_pulled cb pp)
      | ClNotModified \<Rightarrow>
          (case pp_cached pp of
             None \<Rightarrow> (Inl (CommsPolicyVersion ''server returned 304 but client has no cached bundle''), pp)
           | Some _ \<Rightarrow> (Inr PullNotModified, pp))
      | class \<Rightarrow> (Inl (CommsServer class (''policy bundle pull returned '' @ decimal (unat (rs_status r)))), pp))"

definition pull_request :: "'key puller_ops \<Rightarrow> policy_puller \<Rightarrow> request_path" where
  "pull_request ops pp =
     (let path = (case pc_path_override (pp_config pp) of
            Some p \<Rightarrow> p | None \<Rightarrow> default_payload_path ops (pc_tenant_id (pp_config pp)) (pc_target (pp_config pp)));
          req = with_header ''accept'' ''application/vnd.sng.policy-bundle'' (request_get path) in
      case pp_cached pp of
        None \<Rightarrow> req
      | Some cb \<Rightarrow> req\<lparr>rq_headers := rq_headers req ++ conditional_request_headers ops cb\<rparr>)"

definition policy_pull ::
  "'key puller_ops \<Rightarrow> 'n h2_ops \<Rightarrow> connection \<Rightarrow> 'key policy_verifier \<Rightarrow> 'n \<Rightarrow> policy_puller
     \<Rightarrow> (comms_error + bundle_pull_outcome) \<times> policy_puller \<times> 'n" where
  "policy_pull ops h2 conn v n pp =
     (case send_request h2 conn (pull_request ops pp) ReqEmpty n of
        (Inl e, n) \<Rightarrow> (Inl e, pp, n)
      | (Inr response, n) \<Rightarrow> (case handle_response ops v response pp of (res, pp) \<Rightarrow> (res, pp, n)))"

section \<open>Entity tags on the wire\<close>

text \<open>
  An entity tag survives the cache: the parser accepts exactly the printed forms of tags without
  an inner quote, strong or weak, and gives back the tag that was printed. So the conditional header of the
  next pull is byte for byte the tag the server sent.
\<close>

theorem entity_tag_round_trip:
  "entity_tag_parse raw = Some t \<longleftrightarrow> raw = to_header_value t \<and> CHR 0x22 \<notin> set (et_tag t)"
proof (cases "strip_prefix ''W/'' raw")
  case None
  then have "raw \<noteq> ''W/'' @ r" for r using strip_prefix_Some by (metis option.distinct(1))
  then show ?thesis
    using None
    by (cases t) (auto simp: entity_tag_parse_def to_header_value_def strip_prefix_Some strip_suffix_Some
        strip_prefix_None strip_suffix_None Let_def split: option.splits if_splits)
next
  case (Some rest)
  then have raw: "raw = ''W/'' @ rest" by (simp add: strip_prefix_Some)
  show ?thesis
    unfolding entity_tag_parse_def Some Let_def
    by (cases t) (auto simp: raw to_header_value_def strip_prefix_Some strip_suffix_Some strip_prefix_None
        strip_suffix_None split: option.splits if_splits)
qed

section \<open>The trust store under concurrent insertions\<close>

text \<open>No insertion that succeeded is lost to another one: the set of key identifiers only grows.\<close>

interpretation trust_cell: growing_cell "\<lambda>v v'. dom (verifier_keys v) \<subseteq> dom (verifier_keys v')"
  "\<lambda>t. insert_key_op ops (fst (reqs t)) (snd (reqs t))" for ops :: "'key ed25519_ops" and reqs
  by unfold_locales (auto simp: insert_key_op_def verifier_add_key_Inr split: sum.splits)

lemma insertions_not_lost:
  assumes "cas_step\<^sup>*\<^sup>* (cell_init v (\<lambda>t. insert_key_op ops (fst (reqs t)) (snd (reqs t)))) s"
    and "threads s t = Done (Inr ())"
  shows "fst (reqs t) \<in> dom (verifier_keys (cell s))"
proof -
  let ?ops = "\<lambda>t. insert_key_op ops (fst (reqs t)) (snd (reqs t))"
  let ?lo = "\<lparr>verifier_keys = [fst (reqs t) \<mapsto> undefined]\<rparr> :: 'a policy_verifier"
  have lin: "linearized v ?ops s" using assms(1) by (rule cas_linearizable)
  have "fst (apply_op (?ops t) u) = Inr () \<Longrightarrow>
      dom (verifier_keys ?lo) \<subseteq> dom (verifier_keys (snd (apply_op (?ops t) u)))" for u
    by (cases "verifier_add_key ops (fst (reqs t)) (snd (reqs t)) u")
      (simp_all add: insert_key_op_def, auto simp: verifier_add_key_Inr)
  with trust_cell.result_bounds_replay [where h = "history s" and v = v and lo = ?lo] assms(2) lin
  have "dom (verifier_keys ?lo) \<subseteq> dom (verifier_keys (replay ?ops v (history s)))"
    using linearizedD(3) [OF lin assms(2)] by (simp add: linearized_def)
  moreover have "cell s = replay ?ops v (history s)" using lin by (simp add: linearized_def)
  ultimately show ?thesis by simp
qed

section \<open>Concurrent pulls\<close>

text \<open>
  Any number of pulls against one puller, while keys are inserted and the path is overridden. A pull has
  vetted its response against the trust store of that moment and waits for the cache's lock
  (\<open>ps_vetted\<close>). Ghosts: the keys ever offered to the store, and the bundles ever installed in the cache.
\<close>

record 'key pull_sys =
  ps_puller :: policy_puller
  ps_trust :: "'key policy_verifier"
  ps_vetted :: "cached_bundle list"
  ps_keys :: "(string \<times> bytes) list"
  ps_history :: "cached_bundle list"

definition pull_init :: "policy_puller_config \<Rightarrow> 'key pull_sys" where
  "pull_init config =
     \<lparr>ps_puller = policy_puller_new config, ps_trust = verifier_new, ps_vetted = [], ps_keys = [], ps_history = []\<rparr>"

fun installed_bundle :: "comms_error + bundle_pull_outcome \<Rightarrow> cached_bundle list" where
  "installed_bundle (Inr (PullUpdated cb)) = [cb]"
| "installed_bundle _ = []"

inductive pull_step :: "'key puller_ops \<Rightarrow> 'key pull_sys \<Rightarrow> 'key pull_sys \<Rightarrow> bool" for ops where
  key_inserted:
    "pull_step ops s (s\<lparr>ps_trust := snd (insert_key (po_ed25519 ops) kid kb (ps_trust s)),
       ps_keys := ps_keys s @ [(kid, kb)]\<rparr>)"
| path_overridden: "pull_step ops s (s\<lparr>ps_puller := set_path_override p (ps_puller s)\<rparr>)"
| response_vetted:
    "classify r = ClSuccess \<Longrightarrow> vet_response ops (ps_trust s) (pc_target (pp_config (ps_puller s))) r = Inr cb \<Longrightarrow>
     pull_step ops s (s\<lparr>ps_vetted := ps_vetted s @ [cb]\<rparr>)"
| pull_installed:
    "ps_vetted s = xs @ cb # ys \<Longrightarrow> install_pulled cb (ps_puller s) = (res, pp) \<Longrightarrow>
     pull_step ops s (s\<lparr>ps_puller := pp, ps_vetted := xs @ ys, ps_history := ps_history s @ installed_bundle res\<rparr>)"

text \<open>A bundle that an operator's key signed, with the claims its body carries, for the puller's target.\<close>

definition authentic_bundle :: "'key puller_ops \<Rightarrow> (string \<times> bytes) list \<Rightarrow> bundle_target \<Rightarrow> cached_bundle \<Rightarrow> bool" where
  "authentic_bundle ops keys target cb \<longleftrightarrow>
     (\<exists>kb key. (signing_key_id (cb_bundle cb), kb) \<in> set keys \<and> key_from_bytes (po_ed25519 ops) kb = Inr key
        \<and> key_verify (po_ed25519 ops) key (body (cb_bundle cb)) (signature (cb_bundle cb)) = Inr ())
     \<and> signing_key_id (cb_bundle cb) \<noteq> [] \<and> length (signature (cb_bundle cb)) = signature_length
     \<and> claims_from_body (po_claims ops) (body (cb_bundle cb)) = Inr (cb_claims cb)
     \<and> claims_target (cb_claims cb) = target"

definition known_keys :: "'key ed25519_ops \<Rightarrow> (string \<times> bytes) list \<Rightarrow> 'key policy_verifier \<Rightarrow> bool" where
  "known_keys ed keys v \<longleftrightarrow>
     (\<forall>kid key. verifier_keys v kid = Some key \<longrightarrow> (\<exists>kb. (kid, kb) \<in> set keys \<and> key_from_bytes ed kb = Inr key))"

definition cb_version :: "cached_bundle \<Rightarrow> i64" where
  "cb_version cb = claims_graph_version (cb_claims cb)"

definition pull_inv :: "'key puller_ops \<Rightarrow> bundle_target \<Rightarrow> 'key pull_sys \<Rightarrow> bool" where
  "pull_inv ops target s \<longleftrightarrow>
     pc_target (pp_config (ps_puller s)) = target
     \<and> known_keys (po_ed25519 ops) (ps_keys s) (ps_trust s)
     \<and> (\<forall>cb\<in>set (ps_vetted s) \<union> set (ps_history s). authentic_bundle ops (ps_keys s) target cb)
     \<and> sorted (map cb_version (ps_history s))
     \<and> pp_cached (ps_puller s) = (if ps_history s = [] then None else Some (last (ps_history s)))"

lemma insert_key_known:
  "known_keys ed keys v \<Longrightarrow> known_keys ed (keys @ [(kid, kb)]) (snd (insert_key ed kid kb v))"
  by (fastforce simp: known_keys_def insert_key_def insert_key_op_def verifier_add_key_Inr split: sum.splits if_splits)

lemma authentic_bundle_mono:
  "authentic_bundle ops keys target cb \<Longrightarrow> set keys \<subseteq> set keys' \<Longrightarrow> authentic_bundle ops keys' target cb"
  unfolding authentic_bundle_def by blast

lemma decode_signature_length: "decode_signature ops hs = Inr sig \<Longrightarrow> length sig = signature_length"
  unfolding decode_signature_def and_then_Inr policy_version_error_def
  by (elim exE conjE) (simp split: sum.split_asm if_split_asm)

lemma decode_and_verify_Inr:
  assumes "decode_and_verify ops v b hs = Inr bundle"
  shows "body bundle = b \<and> length (signature bundle) = signature_length \<and> verifier_verify (po_ed25519 ops) v bundle = Inr ()"
  using assms by (auto simp: decode_and_verify_def and_then_Inr ex_unit Let_def dest: decode_signature_length)

lemma vet_response_authentic:
  assumes "vet_response ops v target r = Inr cb" "known_keys (po_ed25519 ops) keys v"
  shows "authentic_bundle ops keys target cb"
proof -
  from assms(1) obtain u w where d: "decode_and_verify ops v (rs_body r) (rs_headers r) = Inr (cb_bundle cb)"
      and c: "claims_from_body (po_claims ops) (body (cb_bundle cb)) = Inr (cb_claims cb)"
      and t: "check_target (cb_claims cb) u target = Inr w"
    by (auto simp: vet_response_def and_then_Inr Let_def)
  note v = decode_and_verify_Inr [OF d]
  then obtain key where "verifier_keys v (signing_key_id (cb_bundle cb)) = Some key"
      "key_verify (po_ed25519 ops) key (body (cb_bundle cb)) (signature (cb_bundle cb)) = Inr ()"
      "signing_key_id (cb_bundle cb) \<noteq> []"
    by (auto simp: verifier_verify_Inr)
  moreover from this(1) obtain kb where "(signing_key_id (cb_bundle cb), kb) \<in> set keys"
      "key_from_bytes (po_ed25519 ops) kb = Inr key"
    using assms(2) unfolding known_keys_def by blast
  moreover have "claims_target (cb_claims cb) = target" using t by (simp add: check_target_def split: if_splits)
  ultimately show ?thesis using v c unfolding authentic_bundle_def by blast
qed

lemma install_pulled_eq:
  "install_pulled cb pp =
     (if \<exists>old. pp_cached pp = Some old \<and> cb_version cb < cb_version old
      then (Inl (CommsPolicy (Stale (bundle_id_for_check (cb_headers cb)) (cb_version cb) (cb_version (the (pp_cached pp))))), pp)
      else (Inr (PullUpdated cb), pp\<lparr>pp_cached := Some cb\<rparr>))"
  by (auto simp: install_pulled_def check_not_stale_def cb_version_def Let_def split: option.splits)

lemma pull_inv_init: "pull_inv ops (pc_target config) (pull_init config)"
  by (simp add: pull_inv_def pull_init_def policy_puller_new_def known_keys_def verifier_new_def)

lemma sorted_snoc: "sorted (xs @ [x]) \<longleftrightarrow> sorted xs \<and> (xs \<noteq> [] \<longrightarrow> last xs \<le> (x :: 'a::linorder))"
proof (cases xs rule: rev_cases)
  case (snoc ys y)
  then show ?thesis by (auto simp: sorted_append intro: order_trans)
qed simp

lemma pull_inv_installed:
  assumes "pull_inv ops target s" "ps_vetted s = xs @ cb # ys" "install_pulled cb (ps_puller s) = (res, pp)"
  shows "pull_inv ops target (s\<lparr>ps_puller := pp, ps_vetted := xs @ ys, ps_history := ps_history s @ installed_bundle res\<rparr>)"
proof (cases "\<exists>old. pp_cached (ps_puller s) = Some old \<and> cb_version cb < cb_version old")
  case True
  then show ?thesis using assms by (auto simp: install_pulled_eq pull_inv_def)
next
  case False
  then have "res = Inr (PullUpdated cb)" "pp = (ps_puller s)\<lparr>pp_cached := Some cb\<rparr>"
    using assms(3) unfolding install_pulled_eq if_not_P [OF False] by simp_all
  moreover have "ps_history s \<noteq> [] \<longrightarrow> cb_version (last (ps_history s)) \<le> cb_version cb"
    using False assms(1) by (auto simp: pull_inv_def not_less)
  ultimately show ?thesis
    using assms(1,2) by (auto simp: pull_inv_def sorted_snoc last_map)
qed

lemma pull_inv_step: "pull_step ops s s' \<Longrightarrow> pull_inv ops target s \<Longrightarrow> pull_inv ops target s'"
proof (induction rule: pull_step.induct)
  case (key_inserted s kid kb)
  then show ?case
    by (auto simp: pull_inv_def intro: insert_key_known authentic_bundle_mono [where keys = "ps_keys s"])
next
  case (response_vetted r s cb)
  then show ?case by (auto simp: pull_inv_def intro: vet_response_authentic)
next
  case (pull_installed s xs cb ys res pp)
  then show ?case by (intro pull_inv_installed)
qed (simp add: pull_inv_def set_path_override_def)

text \<open>
  Claim C13. However pulls, key insertions and path changes interleave, every bundle the cache ever held
  was signed, over its whole body, by a key that an operator offered under the identifier the bundle
  names; its claims are those of that body and it is for the puller's target. The versions of the bundles
  never decrease, and the cache holds the last one installed.
\<close>

theorem pulled_bundles_authentic_and_monotone:
  assumes "(pull_step ops)\<^sup>*\<^sup>* (pull_init config) s"
  shows "(\<forall>cb \<in> set (ps_history s).
        (\<exists>kb key. (signing_key_id (cb_bundle cb), kb) \<in> set (ps_keys s) \<and> key_from_bytes (po_ed25519 ops) kb = Inr key
          \<and> key_verify (po_ed25519 ops) key (body (cb_bundle cb)) (signature (cb_bundle cb)) = Inr ())
        \<and> claims_from_body (po_claims ops) (body (cb_bundle cb)) = Inr (cb_claims cb)
        \<and> claims_target (cb_claims cb) = pc_target config)
    \<and> sorted (map cb_version (ps_history s))
    \<and> pp_cached (ps_puller s) = (if ps_history s = [] then None else Some (last (ps_history s)))"
proof -
  have inv: "pull_inv ops (pc_target config) s"
    using assms by (induction rule: rtranclp_induct) (auto intro: pull_inv_init pull_inv_step)
  then have "authentic_bundle ops (ps_keys s) (pc_target config) cb" if "cb \<in> set (ps_history s)" for cb
    using that by (simp add: pull_inv_def)
  then show ?thesis using inv unfolding authentic_bundle_def pull_inv_def by blast
qed

section \<open>A pull in operation\<close>

definition sample_claims :: policy_bundle_claims where
  "sample_claims =
     \<lparr>claims_schema_version = 1, claims_target = Edge, claims_graph_id = ''g'', claims_graph_version = 3,
      claims_compiler = ''c'', claims_default_action = ''deny'', claims_compiled_at = 0\<rparr>"

definition sample_puller_ops :: "bytes puller_ops" where
  "sample_puller_ops =
     \<lparr>po_ed25519 = echo_ops, po_to_str = Some, po_from_str = Some, po_base64 = (\<lambda>_. Inr (replicate 62 7 @ [1, 2])),
      po_uuid = (\<lambda>_. None), po_uuid_display = (\<lambda>_. ''0''), po_claims = (\<lambda>_. Inr sample_claims)\<rparr>"

definition sample_puller_config :: policy_puller_config where
  "sample_puller_config = \<lparr>pc_tenant_id = 1, pc_target = Edge, pc_path_override = None\<rparr>"

definition sample_bundle_response :: collected_response where
  "sample_bundle_response =
     \<lparr>rs_status = 200, rs_headers = [''x-sng-policy-signature'' \<mapsto> ''s'', ''x-sng-policy-key-id'' \<mapsto> ''k''], rs_body = [1, 2]\<rparr>"

definition sample_cached :: cached_bundle where
  "sample_cached =
     \<lparr>cb_bundle = \<lparr>body = [1, 2], signature = replicate 62 7 @ [1, 2], signing_key_id = ''k''\<rparr>, cb_claims = sample_claims,
      cb_headers = \<lparr>rh_etag = None, rh_last_modified = None, rh_bundle_id = None, rh_graph_id = None\<rparr>\<rparr>"

definition sample_trust :: "bytes policy_verifier" where
  "sample_trust = \<lparr>verifier_keys = [''k'' \<mapsto> replicate 62 7]\<rparr>"

lemma sample_insert: "insert_key echo_ops ''k'' (replicate 62 7) verifier_new = (Inr (), sample_trust)"
  by (simp add: insert_key_def insert_key_op_def verifier_add_key_def is_ephemeral_def echo_ops_def verifier_new_def
      sample_trust_def)

lemma sample_vet: "vet_response sample_puller_ops sample_trust Edge sample_bundle_response = Inr sample_cached"
  by (simp add: vet_response_def decode_and_verify_def decode_signature_def decode_key_id_def required_header_def
      signing_key_id_new_def key_id_max_len_def signature_length_def sample_puller_ops_def sample_trust_def
      sample_bundle_response_def verifier_verify_def is_ephemeral_def echo_ops_def claims_from_body_def check_target_def
      sample_claims_def sample_cached_def parse_response_headers_def header_str_def Let_def)

theorem pulled_bundles_authentic_and_monotone_witness:
  "\<exists>s :: bytes pull_sys. ps_history s = [sample_cached] \<and> pp_cached (ps_puller s) = Some sample_cached
     \<and> (\<exists>kb. (''k'', kb) \<in> set (ps_keys s) \<and> key_verify echo_ops kb [1, 2] (replicate 62 7 @ [1, 2]) = Inr ())"
proof -
  let ?ops = sample_puller_ops
  define s0 where "s0 = (pull_init sample_puller_config :: bytes pull_sys)"
  define s1 where "s1 = s0\<lparr>ps_trust := snd (insert_key (po_ed25519 ?ops) ''k'' (replicate 62 7) (ps_trust s0)),
       ps_keys := ps_keys s0 @ [(''k'', replicate 62 7)]\<rparr>"
  define s2 where "s2 = s1\<lparr>ps_vetted := ps_vetted s1 @ [sample_cached]\<rparr>"
  have f0: "ps_trust s0 = verifier_new" "ps_vetted s0 = []" "ps_keys s0 = []" "ps_history s0 = []"
      "ps_puller s0 = policy_puller_new sample_puller_config"
    by (simp_all add: s0_def pull_init_def)
  have f1: "ps_trust s1 = sample_trust" "ps_vetted s1 = []" "ps_keys s1 = [(''k'', replicate 62 7)]" "ps_history s1 = []"
      "ps_puller s1 = policy_puller_new sample_puller_config"
    by (simp_all add: s1_def f0) (simp add: sample_puller_ops_def sample_insert)
  have t: "pc_target (pp_config (ps_puller s1)) = Edge"
    by (simp add: f1 policy_puller_new_def sample_puller_config_def)
  have f2: "ps_vetted s2 = [] @ sample_cached # []" "ps_puller s2 = policy_puller_new sample_puller_config"
      "ps_keys s2 = [(''k'', replicate 62 7)]" "ps_history s2 = []"
    by (simp_all add: s2_def f1)
  have i: "install_pulled sample_cached (ps_puller s2)
      = (Inr (PullUpdated sample_cached), (ps_puller s2)\<lparr>pp_cached := Some sample_cached\<rparr>)"
    by (simp add: f2 install_pulled_eq policy_puller_new_def)
  define s3 where "s3 = s2\<lparr>ps_puller := (ps_puller s2)\<lparr>pp_cached := Some sample_cached\<rparr>, ps_vetted := [] @ [],
       ps_history := ps_history s2 @ installed_bundle (Inr (PullUpdated sample_cached))\<rparr>"
  have p1: "pull_step ?ops s0 s1" unfolding s1_def by (rule pull_step.key_inserted)
  have "classify sample_bundle_response = ClSuccess"
    by (simp add: classify_def sample_bundle_response_def from_status_def)
  then have p2: "pull_step ?ops s1 s2"
    unfolding s2_def using sample_vet f1(1) t by (intro pull_step.response_vetted) simp_all
  have p3: "pull_step ?ops s2 s3" unfolding s3_def by (rule pull_step.pull_installed [OF f2(1) i])
  have run: "(pull_step ?ops)\<^sup>*\<^sup>* (pull_init sample_puller_config) s3"
    using p1 p2 p3 unfolding s0_def by (meson converse_rtranclp_into_rtranclp rtranclp.rtrancl_refl)
  have h: "ps_history s3 = [sample_cached]" "ps_keys s3 = [(''k'', replicate 62 7)]" by (simp_all add: s3_def f2)
  have "\<exists>kb key. (''k'', kb) \<in> set (ps_keys s3) \<and> key_from_bytes echo_ops kb = Inr key
      \<and> key_verify echo_ops key [1, 2] (replicate 62 7 @ [1, 2]) = Inr ()"
    using pulled_bundles_authentic_and_monotone [OF run] h(1)
    by (simp add: sample_cached_def sample_puller_ops_def)
  then have "\<exists>kb. (''k'', kb) \<in> set (ps_keys s3) \<and> key_verify echo_ops kb [1, 2] (replicate 62 7 @ [1, 2]) = Inr ()"
    by (auto simp: echo_ops_def split: if_splits)
  then show ?thesis using pulled_bundles_authentic_and_monotone [OF run] h(1) by (intro exI [of _ s3]) simp
qed

end
