(* ===== verification/Edge_Policy.thy ===== *)
theory Edge_Policy
  imports Comms_Policy Comms_Spool Policy_Engine
begin

text \<open>
  The policy path of the edge binary: the control-plane loop of \<open>sng-edge/src/subsystems/comms.rs\<close>, which
  connects, pulls and publishes, the publisher of \<open>supervisor.rs\<close> and the engine adapter of
  \<open>subsystems/policy_eval.rs\<close>. It composes the puller of \<open>Comms_Policy\<close>, the backoff of \<open>Comms_Spool\<close> and
  the engine of \<open>Policy_Engine\<close>. Connecting is a parameter. The compilation of the firewall's rules, which
  the publisher starts after a swap and whose outcome does not reach the engine, is left out.
\<close>

section \<open>Publishing\<close>

text \<open>An engine adapter is its engine: \<open>PolicyEvalSubsystem\<close> adds nothing to the state.\<close>

definition policy_eval_new ::
  "'net ipnet_ops \<Rightarrow> 'net bundle_codec \<Rightarrow> bytes \<Rightarrow> policy_eval_error + 'net policy_engine" where
  "policy_eval_new nops cd initial_bundle = engine_from_body nops cd initial_bundle Edge"

definition swap_bundle ::
  "'net ipnet_ops \<Rightarrow> 'net bundle_codec \<Rightarrow> bytes \<Rightarrow> bool \<Rightarrow> 'net policy_engine
     \<Rightarrow> (policy_eval_error + unit) \<times> 'net policy_engine" where
  "swap_bundle nops cd b force e = swap nops cd b force e"

text \<open>The engine boots with the skeleton that denies everything.\<close>

definition bootstrap_bundle_body :: "'net bundle_codec \<Rightarrow> datetime \<Rightarrow> bytes" where
  "bootstrap_bundle_body cd now = deny_all_skeleton_body cd Edge now"

text \<open>The publisher's error is a message in the code; here it keeps what the message is about.\<close>

datatype publish_error = SwapRejected policy_eval_error | NonEdgeTarget bundle_target

definition publish_bundle ::
  "'net ipnet_ops \<Rightarrow> 'net bundle_codec \<Rightarrow> bundle_target \<Rightarrow> bytes \<Rightarrow> 'net policy_engine
     \<Rightarrow> (publish_error + unit) \<times> 'net policy_engine" where
  "publish_bundle nops cd target b e =
     (if target = Edge
      then (case swap_bundle nops cd b False e of (r, e) \<Rightarrow> (map_err SwapRejected r, e))
      else (Inl (NonEdgeTarget target), e))"

section \<open>The loop\<close>

record comms_stats =
  cs_connects :: u64
  cs_connect_failures :: u64
  cs_pulls :: u64
  cs_pulls_fresh :: u64
  cs_pulls_not_modified :: u64
  cs_pull_failures :: u64
  cs_publish_failures :: u64

record 'net comms_subsystem =
  cm_target :: bundle_target
  cm_conn :: "connection option"
  cm_backoff :: reconnect_backoff
  cm_stats :: comms_stats
  cm_puller :: policy_puller
  cm_engine :: "'net policy_engine"

definition comms_stats_default :: comms_stats where
  "comms_stats_default =
     \<lparr>cs_connects = 0, cs_connect_failures = 0, cs_pulls = 0, cs_pulls_fresh = 0, cs_pulls_not_modified = 0,
      cs_pull_failures = 0, cs_publish_failures = 0\<rparr>"

definition comms_start ::
  "bundle_target \<Rightarrow> policy_puller_config \<Rightarrow> nat \<Rightarrow> nat \<Rightarrow> 'net policy_engine \<Rightarrow> 'net comms_subsystem" where
  "comms_start target pc backoff_initial backoff_max e =
     \<lparr>cm_target = target, cm_conn = None, cm_backoff = backoff_new backoff_initial backoff_max 2,
      cm_stats = comms_stats_default, cm_puller = policy_puller_new pc, cm_engine = e\<rparr>"

fun is_connection_fatal :: "comms_error \<Rightarrow> bool" where
  "is_connection_fatal (CommsConnect _) = True"
| "is_connection_fatal (CommsHttp2 _) = True"
| "is_connection_fatal (CommsIo _) = True"
| "is_connection_fatal CommsAlpnMismatch = True"
| "is_connection_fatal _ = False"

record ('key, 'net, 'n) edge_env =
  ee_puller :: "'key puller_ops"
  ee_nops :: "'net ipnet_ops"
  ee_codec :: "'net bundle_codec"
  ee_connect :: "'n \<Rightarrow> (comms_error + connection) \<times> 'n"
  ee_h2 :: "'n h2_ops"
  ee_draw :: "nat \<Rightarrow> nat"

text \<open>The two halves of a tick: have a connection, or back off; then pull and publish.\<close>

definition ensure_connected ::
  "('key, 'net, 'n) edge_env \<Rightarrow> 'n \<Rightarrow> 'net comms_subsystem \<Rightarrow> (nat + connection) \<times> 'net comms_subsystem \<times> 'n" where
  "ensure_connected env n s =
     (case cm_conn s of
        Some c \<Rightarrow> (Inr c, s, n)
      | None \<Rightarrow>
          (case ee_connect env n of
             (Inr c, n) \<Rightarrow>
               (Inr c, s\<lparr>cm_stats := (cm_stats s)\<lparr>cs_connects := cs_connects (cm_stats s) + 1\<rparr>,
                  cm_backoff := backoff_reset (cm_backoff s), cm_conn := Some c\<rparr>, n)
           | (Inl _, n) \<Rightarrow>
               (case next_backoff (ee_draw env) (cm_backoff s) of (delay, b) \<Rightarrow>
                  (Inl delay, s\<lparr>cm_stats := (cm_stats s)\<lparr>cs_connect_failures := cs_connect_failures (cm_stats s) + 1\<rparr>,
                     cm_backoff := b\<rparr>, n))))"

definition settle_pull ::
  "('key, 'net, 'n) edge_env \<Rightarrow> comms_error + bundle_pull_outcome \<Rightarrow> 'net comms_subsystem \<Rightarrow> 'net comms_subsystem" where
  "settle_pull env res s =
     (case res of
        Inr (PullUpdated cached) \<Rightarrow>
          let s = s\<lparr>cm_stats := (cm_stats s)\<lparr>cs_pulls_fresh := cs_pulls_fresh (cm_stats s) + 1\<rparr>\<rparr> in
          (case publish_bundle (ee_nops env) (ee_codec env) (cm_target s) (body (cb_bundle cached)) (cm_engine s) of
             (Inr _, e) \<Rightarrow> s\<lparr>cm_engine := e\<rparr>
           | (Inl _, e) \<Rightarrow>
               s\<lparr>cm_engine := e, cm_stats := (cm_stats s)\<lparr>cs_publish_failures := cs_publish_failures (cm_stats s) + 1\<rparr>\<rparr>)
      | Inr PullNotModified \<Rightarrow>
          s\<lparr>cm_stats := (cm_stats s)\<lparr>cs_pulls_not_modified := cs_pulls_not_modified (cm_stats s) + 1\<rparr>\<rparr>
      | Inl e \<Rightarrow>
          let s = s\<lparr>cm_stats := (cm_stats s)\<lparr>cs_pull_failures := cs_pull_failures (cm_stats s) + 1\<rparr>\<rparr> in
          if is_connection_fatal e then s\<lparr>cm_conn := None\<rparr> else s)"

text \<open>One tick; a value is the wait the loop sleeps before the next one.\<close>

definition comms_tick ::
  "('key, 'net, 'n) edge_env \<Rightarrow> 'key policy_verifier \<Rightarrow> 'n \<Rightarrow> 'net comms_subsystem
     \<Rightarrow> nat option \<times> 'net comms_subsystem \<times> 'n" where
  "comms_tick env trust n s =
     (case ensure_connected env n s of
        (Inl delay, s, n) \<Rightarrow> (Some delay, s, n)
      | (Inr conn, s, n) \<Rightarrow>
          let s = s\<lparr>cm_stats := (cm_stats s)\<lparr>cs_pulls := cs_pulls (cm_stats s) + 1\<rparr>\<rparr> in
          (case policy_pull (ee_puller env) (ee_h2 env) conn trust n (cm_puller s) of
             (res, pp, n) \<Rightarrow> (None, settle_pull env res (s\<lparr>cm_puller := pp\<rparr>), n)))"

section \<open>The edge over time\<close>

text \<open>Ticks and key insertions, in any order; the keys ever offered are a ghost.\<close>

record ('key, 'net, 'n) edge_sys =
  es_comms :: "'net comms_subsystem"
  es_trust :: "'key policy_verifier"
  es_net :: 'n
  es_keys :: "(string \<times> bytes) list"

inductive edge_step ::
  "('key, 'net, 'n) edge_env \<Rightarrow> ('key, 'net, 'n) edge_sys \<Rightarrow> ('key, 'net, 'n) edge_sys \<Rightarrow> bool" for env where
  edge_key_inserted:
    "edge_step env s (s\<lparr>es_trust := snd (insert_key (po_ed25519 (ee_puller env)) kid kb (es_trust s)),
       es_keys := es_keys s @ [(kid, kb)]\<rparr>)"
| edge_ticked:
    "comms_tick env (es_trust s) (es_net s) (es_comms s) = (wait, c, n) \<Longrightarrow>
     edge_step env s (s\<lparr>es_comms := c, es_net := n\<rparr>)"

definition edge_init ::
  "policy_puller_config \<Rightarrow> nat \<Rightarrow> nat \<Rightarrow> 'net policy_engine \<Rightarrow> 'n \<Rightarrow> ('key, 'net, 'n) edge_sys" where
  "edge_init pc backoff_initial backoff_max e n =
     \<lparr>es_comms = comms_start Edge pc backoff_initial backoff_max e, es_trust = verifier_new, es_net = n, es_keys = []\<rparr>"

section \<open>What reaches the engine\<close>

lemma install_pulled_updated:
  "install_pulled cb pp = (Inr (PullUpdated cb'), pp') \<Longrightarrow> cb' = cb"
  by (auto simp: install_pulled_eq split: if_splits)

lemma install_pulled_config: "install_pulled cb pp = (res, pp') \<Longrightarrow> pp_config pp' = pp_config pp"
  by (auto simp: install_pulled_eq split: if_splits)

lemma handle_response_updated:
  assumes "handle_response ops v r pp = (res, pp')"
  shows "pp_config pp' = pp_config pp"
    "res = Inr (PullUpdated cb) \<Longrightarrow> vet_response ops v (pc_target (pp_config pp)) r = Inr cb"
  using assms
  by (auto simp: handle_response_def split: response_class.splits sum.splits option.splits
      dest: install_pulled_config install_pulled_updated)

lemma policy_pull_updated:
  assumes "policy_pull ops h2 conn v n pp = (res, pp', n')"
  shows "pp_config pp' = pp_config pp"
    "res = Inr (PullUpdated cb) \<Longrightarrow> \<exists>r. vet_response ops v (pc_target (pp_config pp)) r = Inr cb"
proof -
  obtain sent n1 where sent: "send_request h2 conn (pull_request ops pp) ReqEmpty n = (sent, n1)" by fastforce
  show "pp_config pp' = pp_config pp"
    using assms sent by (cases sent) (auto simp: policy_pull_def split: prod.splits dest: handle_response_updated(1))
  show "\<exists>r. vet_response ops v (pc_target (pp_config pp)) r = Inr cb" if "res = Inr (PullUpdated cb)"
    using assms sent that
    by (cases sent) (auto simp: policy_pull_def split: prod.splits dest: handle_response_updated(2))
qed

text \<open>
  The bundle the engine runs is the one it booted with, or was decoded from a body that an operator's
  key signed.
\<close>

definition engine_origin ::
  "('key, 'net, 'n) edge_env \<Rightarrow> (string \<times> bytes) list \<Rightarrow> bundle_target \<Rightarrow> 'net loaded_bundle \<Rightarrow> 'net loaded_bundle \<Rightarrow> bool" where
  "engine_origin env keys target boot lb \<longleftrightarrow>
     lb = boot \<or> (\<exists>cb. authentic_bundle (ee_puller env) keys target cb
       \<and> from_body (ee_nops env) (ee_codec env) (body (cb_bundle cb)) Edge = Inr lb)"

definition edge_inv ::
  "('key, 'net, 'n) edge_env \<Rightarrow> bundle_target \<Rightarrow> 'net loaded_bundle \<Rightarrow> ('key, 'net, 'n) edge_sys \<Rightarrow> bool" where
  "edge_inv env target boot s \<longleftrightarrow>
     pc_target (pp_config (cm_puller (es_comms s))) = target \<and> engine_target (cm_engine (es_comms s)) = Edge
     \<and> known_keys (po_ed25519 (ee_puller env)) (es_keys s) (es_trust s)
     \<and> engine_origin env (es_keys s) target boot (engine_bundle (cm_engine (es_comms s)))"

lemma ensure_connected_fields:
  "ensure_connected env n s = (r, s', n') \<Longrightarrow>
     cm_puller s' = cm_puller s \<and> cm_engine s' = cm_engine s \<and> cm_target s' = cm_target s"
  by (auto simp: ensure_connected_def split: option.splits sum.splits prod.splits)

lemma publish_bundle_engine:
  assumes "publish_bundle nops cd target b e = (r, e')" "engine_target e = Edge"
  shows "engine_target e' = Edge" "graph_version (engine_bundle e) \<le> graph_version (engine_bundle e')"
    "e' = e \<or> from_body nops cd b Edge = Inr (engine_bundle e')"
  using assms
  by (auto simp: publish_bundle_def swap_bundle_def swap_def install_bundle_def split: if_splits sum.splits prod.splits)

lemma settle_pull_engine:
  assumes "engine_target (cm_engine s) = Edge"
  shows "cm_puller (settle_pull env res s) = cm_puller s" "engine_target (cm_engine (settle_pull env res s)) = Edge"
    "graph_version (engine_bundle (cm_engine s)) \<le> graph_version (engine_bundle (cm_engine (settle_pull env res s)))"
    "cm_engine (settle_pull env res s) = cm_engine s
      \<or> (\<exists>cb. res = Inr (PullUpdated cb)
           \<and> from_body (ee_nops env) (ee_codec env) (body (cb_bundle cb)) Edge
             = Inr (engine_bundle (cm_engine (settle_pull env res s))))"
proof -
  have "cm_puller (settle_pull env res s) = cm_puller s \<and> engine_target (cm_engine (settle_pull env res s)) = Edge
    \<and> graph_version (engine_bundle (cm_engine s)) \<le> graph_version (engine_bundle (cm_engine (settle_pull env res s)))
    \<and> (cm_engine (settle_pull env res s) = cm_engine s
      \<or> (\<exists>cb. res = Inr (PullUpdated cb)
           \<and> from_body (ee_nops env) (ee_codec env) (body (cb_bundle cb)) Edge
             = Inr (engine_bundle (cm_engine (settle_pull env res s)))))"
  proof (cases "\<exists>cb. res = Inr (PullUpdated cb)")
    case True
    then obtain cb where res: "res = Inr (PullUpdated cb)" by blast
    obtain r e where p: "publish_bundle (ee_nops env) (ee_codec env) (cm_target s) (body (cb_bundle cb)) (cm_engine s) = (r, e)"
      by fastforce
    then have "cm_engine (settle_pull env res s) = e" "cm_puller (settle_pull env res s) = cm_puller s"
      by (cases r; simp add: settle_pull_def res Let_def)+
    then show ?thesis using publish_bundle_engine [OF p assms] res by auto
  next
    case False
    then show ?thesis
      using assms by (auto simp: settle_pull_def Let_def split: sum.splits bundle_pull_outcome.splits)
  qed
  then show "cm_puller (settle_pull env res s) = cm_puller s" "engine_target (cm_engine (settle_pull env res s)) = Edge"
    "graph_version (engine_bundle (cm_engine s)) \<le> graph_version (engine_bundle (cm_engine (settle_pull env res s)))"
    "cm_engine (settle_pull env res s) = cm_engine s
      \<or> (\<exists>cb. res = Inr (PullUpdated cb)
           \<and> from_body (ee_nops env) (ee_codec env) (body (cb_bundle cb)) Edge
             = Inr (engine_bundle (cm_engine (settle_pull env res s))))"
    by blast+
qed

lemma comms_tick_engine:
  assumes "comms_tick env trust n s = (w, s', n')" "engine_target (cm_engine s) = Edge"
  shows "pp_config (cm_puller s') = pp_config (cm_puller s)" "engine_target (cm_engine s') = Edge"
    "graph_version (engine_bundle (cm_engine s)) \<le> graph_version (engine_bundle (cm_engine s'))"
    "engine_bundle (cm_engine s') = engine_bundle (cm_engine s)
      \<or> (\<exists>cb r. vet_response (ee_puller env) trust (pc_target (pp_config (cm_puller s))) r = Inr cb
           \<and> from_body (ee_nops env) (ee_codec env) (body (cb_bundle cb)) Edge = Inr (engine_bundle (cm_engine s')))"
proof -
  obtain c s1 n1 where c: "ensure_connected env n s = (c, s1, n1)" by (metis prod_cases3)
  note f = ensure_connected_fields [OF c]
  have "pp_config (cm_puller s') = pp_config (cm_puller s) \<and> engine_target (cm_engine s') = Edge
    \<and> graph_version (engine_bundle (cm_engine s)) \<le> graph_version (engine_bundle (cm_engine s'))
    \<and> (engine_bundle (cm_engine s') = engine_bundle (cm_engine s)
      \<or> (\<exists>cb r. vet_response (ee_puller env) trust (pc_target (pp_config (cm_puller s))) r = Inr cb
           \<and> from_body (ee_nops env) (ee_codec env) (body (cb_bundle cb)) Edge = Inr (engine_bundle (cm_engine s'))))"
  proof (cases c)
    case (Inl delay)
    then show ?thesis using assms c f by (simp add: comms_tick_def)
  next
    case (Inr conn)
    define s2 where "s2 = s1\<lparr>cm_stats := (cm_stats s1)\<lparr>cs_pulls := cs_pulls (cm_stats s1) + 1\<rparr>\<rparr>"
    obtain res pp n2 where p: "policy_pull (ee_puller env) (ee_h2 env) conn trust n1 (cm_puller s2) = (res, pp, n2)"
      by (metis prod_cases3)
    have s': "s' = settle_pull env res (s2\<lparr>cm_puller := pp\<rparr>)"
      using assms(1) c Inr p by (simp add: comms_tick_def s2_def Let_def)
    have "engine_target (cm_engine (s2\<lparr>cm_puller := pp\<rparr>)) = Edge" using assms(2) f by (simp add: s2_def)
    note e = settle_pull_engine [OF this, of env res, folded s']
    note u = policy_pull_updated [OF p]
    have "pp_config (cm_puller s2) = pp_config (cm_puller s)" "cm_engine s2 = cm_engine s" using f by (simp_all add: s2_def)
    then show ?thesis using e u by auto
  qed
  then show "pp_config (cm_puller s') = pp_config (cm_puller s)" "engine_target (cm_engine s') = Edge"
    "graph_version (engine_bundle (cm_engine s)) \<le> graph_version (engine_bundle (cm_engine s'))"
    "engine_bundle (cm_engine s') = engine_bundle (cm_engine s)
      \<or> (\<exists>cb r. vet_response (ee_puller env) trust (pc_target (pp_config (cm_puller s))) r = Inr cb
           \<and> from_body (ee_nops env) (ee_codec env) (body (cb_bundle cb)) Edge = Inr (engine_bundle (cm_engine s')))"
    by blast+
qed

lemma engine_origin_mono:
  "engine_origin env keys target boot lb \<Longrightarrow> set keys \<subseteq> set keys' \<Longrightarrow> engine_origin env keys' target boot lb"
  unfolding engine_origin_def using authentic_bundle_mono by blast

lemma edge_inv_step:
  assumes "edge_step env s s'" "edge_inv env target boot s"
  shows "edge_inv env target boot s'"
    "graph_version (engine_bundle (cm_engine (es_comms s))) \<le> graph_version (engine_bundle (cm_engine (es_comms s')))"
proof -
  have "edge_inv env target boot s'
    \<and> graph_version (engine_bundle (cm_engine (es_comms s))) \<le> graph_version (engine_bundle (cm_engine (es_comms s')))"
    using assms
  proof (induction rule: edge_step.induct)
    case (edge_key_inserted s kid kb)
    then show ?case
      by (auto simp: edge_inv_def intro: insert_key_known engine_origin_mono [where keys = "es_keys s"])
  next
    case (edge_ticked s wait c n)
    then have et: "engine_target (cm_engine (es_comms s)) = Edge" by (simp add: edge_inv_def)
    note t = comms_tick_engine [OF edge_ticked(1) et]
    have "engine_origin env (es_keys s) target boot (engine_bundle (cm_engine c))"
      using t(4)
    proof (elim disjE exE conjE)
      fix cb r
      assume v: "vet_response (ee_puller env) (es_trust s) (pc_target (pp_config (cm_puller (es_comms s)))) r = Inr cb"
        and b: "from_body (ee_nops env) (ee_codec env) (body (cb_bundle cb)) Edge = Inr (engine_bundle (cm_engine c))"
      have "authentic_bundle (ee_puller env) (es_keys s) target cb"
        using vet_response_authentic [OF v] edge_ticked(2) by (simp add: edge_inv_def)
      then show ?thesis using b unfolding engine_origin_def by blast
    qed (use edge_ticked(2) in \<open>simp add: edge_inv_def\<close>)
    then show ?case using t edge_ticked(2) by (simp add: edge_inv_def)
  qed
  then show "edge_inv env target boot s'"
    "graph_version (engine_bundle (cm_engine (es_comms s))) \<le> graph_version (engine_bundle (cm_engine (es_comms s')))"
    by blast+
qed

lemma edge_inv_reachable:
  assumes "(edge_step env)\<^sup>*\<^sup>* (edge_init pc bi bm e n) s" "engine_target e = Edge"
  shows "edge_inv env (pc_target pc) (engine_bundle e) s"
  using assms(1)
proof (induction rule: rtranclp_induct)
  case base
  show ?case
    using assms(2)
    by (simp add: edge_inv_def edge_init_def comms_start_def policy_puller_new_def known_keys_def verifier_new_def
        engine_origin_def)
qed (rule edge_inv_step(1))

text \<open>
  Claim C2. The edge fails closed until it holds signed policy, and then runs nothing else. An edge that
  boots with the skeleton bundle denies every flow or runs a bundle decoded from a body that a key offered
  by an operator signed and whose claims are for the puller's target, whatever the control plane answers,
  however connections fail, and whenever keys are added. No step lowers the version of the policy in force.
\<close>

theorem edge_runs_only_signed_policy:
  assumes boot: "policy_eval_new (ee_nops env) (ee_codec env) (bootstrap_bundle_body (ee_codec env) now) = Inr e"
    and "dec_envelope (ee_codec env) (enc_envelope (ee_codec env) (deny_all_skeleton Edge now)) = Inr (deny_all_skeleton Edge now)"
    and "dec_rules (ee_codec env) [0x5B, 0x5D] = Inr []"
    and run: "(edge_step env)\<^sup>*\<^sup>* (edge_init pc bi bm e n) s"
  shows "((\<forall>f. evaluate (ee_nops env) (cm_engine (es_comms s)) f = Verdict_Deny)
      \<or> (\<exists>(cb :: cached_bundle) kb key. from_body (ee_nops env) (ee_codec env) (body (cb_bundle cb)) Edge
            = Inr (engine_bundle (cm_engine (es_comms s)))
          \<and> (signing_key_id (cb_bundle cb), kb) \<in> set (es_keys s)
          \<and> key_from_bytes (po_ed25519 (ee_puller env)) kb = Inr key
          \<and> key_verify (po_ed25519 (ee_puller env)) key (body (cb_bundle cb)) (signature (cb_bundle cb)) = Inr ()
          \<and> claims_target (cb_claims cb) = pc_target pc))
    \<and> (\<forall>s'. edge_step env s s'
        \<longrightarrow> graph_version (engine_bundle (cm_engine (es_comms s))) \<le> graph_version (engine_bundle (cm_engine (es_comms s'))))"
    (is "?origin \<and> ?monotone")
proof -
  have e: "engine_target e = Edge" using boot by (auto simp: policy_eval_new_def engine_from_body_def and_then_Inr)
  have deny: "evaluate (ee_nops env) e f = Verdict_Deny" for f
    using deny_all_skeleton_denies [OF assms(2,3), of "ee_nops env"] boot
    by (auto simp: policy_eval_new_def bootstrap_bundle_body_def)
  note inv = edge_inv_reachable [OF run e]
  then have o: "engine_origin env (es_keys s) (pc_target pc) (engine_bundle e) (engine_bundle (cm_engine (es_comms s)))"
    by (simp add: edge_inv_def)
  have ?origin
  proof (cases "engine_bundle (cm_engine (es_comms s)) = engine_bundle e")
    case True
    then have "evaluate (ee_nops env) (cm_engine (es_comms s)) f = evaluate (ee_nops env) e f" for f
      by (simp add: evaluate_def)
    then show ?thesis using deny by simp
  next
    case False
    then show ?thesis using o unfolding engine_origin_def authentic_bundle_def by blast
  qed
  moreover have ?monotone using edge_inv_step(2) inv by blast
  ultimately show ?thesis by blast
qed

section \<open>An edge in operation\<close>

text \<open>
  One key, one connection, and a control plane that always serves the signed sample bundle, which the codec
  reads as an empty rule set of version 3.
\<close>

definition served_codec :: "(u32 \<times> u8) bundle_codec" where
  "served_codec = skeleton_codec\<lparr>dec_envelope := (\<lambda>b.
     if b = [1] then Inr (deny_all_skeleton Edge 0)
     else if b = [1, 2] then Inr ((deny_all_skeleton Edge 0)\<lparr>raw_graph_version := 3\<rparr>) else Inl ''malformed'')\<rparr>"

definition sample_edge_env :: "(bytes, u32 \<times> u8, unit) edge_env" where
  "sample_edge_env =
     \<lparr>ee_puller = sample_puller_ops, ee_nops = v4_net_ops, ee_codec = served_codec,
      ee_connect = (\<lambda>n. (Inr \<lparr>cn_authority = ''cp'', cn_max_response_bytes = 100\<rparr>, n)),
      ee_h2 = (\<lambda>_ _ _ _ n. (Inr (200, rs_headers sample_bundle_response, [Inr [1, 2]]), n)), ee_draw = (\<lambda>n. n)\<rparr>"

definition served_bundle :: "(u32 \<times> u8) loaded_bundle" where
  "served_bundle = skeleton_bundle\<lparr>graph_version := 3\<rparr>"

lemma served_codec_loads:
  "from_body nops served_codec [1] Edge = Inr skeleton_bundle"
  "from_body nops served_codec [1, 2] Edge = Inr served_bundle"
  by (simp_all add: from_body_def served_codec_def skeleton_codec_def deny_all_skeleton_def decode_rules_def
      decode_steering_def decode_malware_def max_supported_schema_version_def
      parse_default_verb_def build_vertex_indices_def skeleton_bundle_def served_bundle_def)

definition booted_engine :: "(u32 \<times> u8) policy_engine" where
  "booted_engine = \<lparr>engine_target = Edge, engine_bundle = skeleton_bundle\<rparr>"

lemma sample_boot:
  "policy_eval_new v4_net_ops served_codec (bootstrap_bundle_body served_codec 0) = Inr booted_engine"
  by (simp add: policy_eval_new_def bootstrap_bundle_body_def deny_all_skeleton_body_def engine_from_body_def
      booted_engine_def served_codec_loads(1) [unfolded served_codec_def] served_codec_def skeleton_codec_def)
    (use served_codec_loads(1) [of v4_net_ops] in \<open>simp add: served_codec_def skeleton_codec_def\<close>)

lemma sample_pull:
  "policy_pull sample_puller_ops (ee_h2 sample_edge_env) \<lparr>cn_authority = ''cp'', cn_max_response_bytes = 100\<rparr>
     sample_trust () (policy_puller_new sample_puller_config)
   = (Inr (PullUpdated sample_cached), (policy_puller_new sample_puller_config)\<lparr>pp_cached := Some sample_cached\<rparr>, ())"
proof -
  have sent: "send_request (ee_h2 sample_edge_env) \<lparr>cn_authority = ''cp'', cn_max_response_bytes = 100\<rparr>
      (pull_request sample_puller_ops (policy_puller_new sample_puller_config)) ReqEmpty () = (Inr sample_bundle_response, ())"
    by (simp add: send_request_def pull_request_def policy_puller_new_def sample_puller_config_def with_header_def
        request_get_def default_payload_path_def strip_prefix_def sample_edge_env_def usize_saturating_add_def usize_max_def
        sample_bundle_response_def Let_def)
  have "classify sample_bundle_response = ClSuccess" by (simp add: classify_def sample_bundle_response_def from_status_def)
  then have "handle_response sample_puller_ops sample_trust sample_bundle_response (policy_puller_new sample_puller_config)
      = (Inr (PullUpdated sample_cached), (policy_puller_new sample_puller_config)\<lparr>pp_cached := Some sample_cached\<rparr>)"
    using sample_vet by (simp add: handle_response_def install_pulled_eq policy_puller_new_def sample_puller_config_def)
  then show ?thesis by (simp add: policy_pull_def sent)
qed

theorem edge_runs_only_signed_policy_witness:
  "\<exists>s :: (bytes, u32 \<times> u8, unit) edge_sys. engine_bundle (cm_engine (es_comms s)) = served_bundle
     \<and> ((\<forall>f. evaluate v4_net_ops (cm_engine (es_comms s)) f = Verdict_Deny)
        \<or> (\<exists>(cb :: cached_bundle) kb. from_body v4_net_ops served_codec (body (cb_bundle cb)) Edge = Inr served_bundle
             \<and> (signing_key_id (cb_bundle cb), kb) \<in> set (es_keys s)
             \<and> key_verify echo_ops kb (body (cb_bundle cb)) (signature (cb_bundle cb)) = Inr ()))"
proof -
  let ?env = sample_edge_env
  define s0 where "s0 = (edge_init sample_puller_config 1 2 booted_engine () :: (bytes, u32 \<times> u8, unit) edge_sys)"
  define s1 where "s1 = s0\<lparr>es_trust := snd (insert_key (po_ed25519 (ee_puller ?env)) ''k'' (replicate 62 7) (es_trust s0)),
       es_keys := es_keys s0 @ [(''k'', replicate 62 7)]\<rparr>"
  have p1: "edge_step ?env s0 s1" unfolding s1_def by (rule edge_step.edge_key_inserted)
  have f1: "es_trust s1 = sample_trust" "es_comms s1 = comms_start Edge sample_puller_config 1 2 booted_engine"
    by (simp_all add: s1_def s0_def edge_init_def sample_edge_env_def)
      (simp add: sample_puller_ops_def sample_insert)
  obtain w c n where t: "comms_tick ?env (es_trust s1) (es_net s1) (es_comms s1) = (w, c, n)" by (metis prod_cases3)
  have pub: "publish_bundle v4_net_ops served_codec Edge [1, 2] booted_engine
      = (Inr (), booted_engine\<lparr>engine_bundle := served_bundle\<rparr>)"
    by (simp add: publish_bundle_def swap_bundle_def swap_def install_bundle_def booted_engine_def served_codec_loads(2))
      (simp add: served_bundle_def skeleton_bundle_def)
  have env: "ee_puller ?env = sample_puller_ops" "ee_nops ?env = v4_net_ops" "ee_codec ?env = served_codec"
      "ee_connect ?env n = (Inr \<lparr>cn_authority = ''cp'', cn_max_response_bytes = 100\<rparr>, n)" for n
    by (simp_all add: sample_edge_env_def)
  have "body (cb_bundle sample_cached) = [1, 2]" by (simp add: sample_cached_def)
  then have "engine_bundle (cm_engine c) = served_bundle"
    using t pub sample_pull
    by (simp add: f1 comms_tick_def ensure_connected_def comms_start_def env settle_pull_def Let_def) auto
  moreover define s2 where "s2 = s1\<lparr>es_comms := c, es_net := n\<rparr>"
  have p2: "edge_step ?env s1 s2" unfolding s2_def by (rule edge_step.edge_ticked [OF t])
  have run: "(edge_step ?env)\<^sup>*\<^sup>* (edge_init sample_puller_config 1 2 booted_engine ()) s2"
    using p1 p2 unfolding s0_def by (meson converse_rtranclp_into_rtranclp rtranclp.rtrancl_refl)
  have boot: "policy_eval_new (ee_nops ?env) (ee_codec ?env) (bootstrap_bundle_body (ee_codec ?env) 0) = Inr booted_engine"
    using sample_boot by (simp add: env)
  have "dec_envelope (ee_codec ?env) (enc_envelope (ee_codec ?env) (deny_all_skeleton Edge 0)) = Inr (deny_all_skeleton Edge 0)"
      "dec_rules (ee_codec ?env) [0x5B, 0x5D] = Inr []"
    by (simp_all add: env served_codec_def skeleton_codec_def)
  note r = conjunct1 [OF edge_runs_only_signed_policy [OF boot this run]]
  moreover have "engine_bundle (cm_engine (es_comms s2)) = engine_bundle (cm_engine c)" by (simp add: s2_def)
  moreover have "po_ed25519 sample_puller_ops = echo_ops" "key_from_bytes echo_ops = Inr"
    by (simp_all add: sample_puller_ops_def echo_ops_def)
  ultimately show ?thesis unfolding env by (intro exI [of _ s2]) auto
qed

end
