(* ===== verification/Spec2Isabelle.thy ===== *)
theory Spec2Isabelle
  imports Policy_Engine Updater_Guarantees Ha_Failover Ztna_Continuous Ztna_Clientless Oidc_Session Comms_Telemetry Edge_Policy
begin

text \<open>
  A verification library for the decision-making core of the ShieldNet Gateway edge
  (\<open>src/crates\<close>): what a policy bundle means and how it is fetched and replaced, how the edge image is
  updated, how two edges fail over, who gets access to an application and for how long, and how
  telemetry leaves the device. The definitions are translated from the Rust sources with their
  names; the theorems are about those definitions.

  \<^bold>\<open>The program.\<close> An edge VM pulls a signed policy bundle, verifies it, loads it and evaluates every
  flow against it. A separate service installs signed image updates into the inactive of two slots
  and rolls back when the new image is unhealthy. Two edges on one segment elect a Master by
  VRRP-like advertisements; the Master owns a virtual IP and replicates flow state to the Backup.
  Access to private applications is decided per request from identity, device posture and context, by
  the agent's tokens or by a browser session, and is re-evaluated while a session lasts. Events are
  batched, numbered, spooled and sent to the control plane until it acknowledges them.

  \<^bold>\<open>Shared theories.\<close>
  \<^item> \<open>SNG_Prelude\<close>: machine integers with saturating and checked arithmetic, big-endian bytes, string
    operations, durations, fallible values, and the state-and-result monad \<open>act\<close> (\<open>None\<close> is divergence or
    a panic) with its total-correctness triples.
  \<^item> \<open>Rust_Float\<close>: \<open>f64\<close> on non-negative numbers as rationals rounded to 53 bits, and the \<open>Duration\<close>
    operations that go through it; rounding-error lemmas up to \<open>mul_f64_error\<close>.
  \<^item> \<open>Net_Address\<close>: \<open>IpAddr\<close> with its order and the standard library's parser.
  \<^item> \<open>CAS_Loop\<close>: a shared cell with compare-and-swap loops and stores as a step relation. Every
    execution is linearizable, every thread left alone finishes, and the locale \<open>growing_cell\<close> lifts
    monotonicity of single operations to executions. It is used for the engine's bundle swap, the
    fencing gate, the identity table and the trust store of the policy puller.
  \<^item> \<open>Trust_Store\<close>: the contract of a set of named Ed25519 keys as a locale, interpreted by the policy
    verifier and by the manifest verifier.

  \<^bold>\<open>Policy (\<open>sng-core\<close>, \<open>sng-policy-eval\<close>).\<close>
  \<^item> \<open>Core_Error\<close>: \<open>error.rs\<close> and \<open>traffic_class.rs\<close>, the stable codes and classes with their strings.
  \<^item> \<open>Policy_Verifier\<close>: \<open>policy.rs\<close> and the key identifiers of \<open>ids.rs\<close>: signature check, claims, target
    and staleness checks.
  \<^item> \<open>Policy_Rule\<close>: \<open>rule.rs\<close>, \<open>matcher.rs\<close>, \<open>flow.rs\<close>, \<open>verdict.rs\<close>. CIDR values (crate \<open>ipnet\<close>) are a parameter.
  \<^item> \<open>Policy_Steering\<close>: \<open>steering.rs\<close>. The two lookups are proved equal to longest-match specifications.
  \<^item> \<open>Policy_Bundle\<close>: \<open>bundle.rs\<close> and \<open>error.rs\<close>: exactly which bodies load, and the invariant of what loads.
  \<^item> \<open>Policy_Engine\<close>: \<open>engine.rs\<close>: first-match evaluation, the fail-closed boot skeleton, and the hot swap,
    sequentially and under every interleaving.

  \<^bold>\<open>Updates (\<open>sng-updater\<close>).\<close>
  \<^item> \<open>Updater_Manifest\<close>: \<open>manifest.rs\<close>, \<open>verifier.rs\<close>, \<open>state.rs\<close>, \<open>error.rs\<close>.
  \<^item> \<open>Updater_Bank\<close>: \<open>bank.rs\<close>, \<open>bootloader.rs\<close>: the two-slot layout, both traits as records of operations with
    their contracts as locales, and the in-memory implementations that interpret them.
  \<^item> \<open>Updater_Download\<close>: \<open>download.rs\<close>: the streaming hasher, the tee into the slot, the downloader contract.
  \<^item> \<open>Updater_Policy\<close>: \<open>policy.rs\<close>, \<open>stats.rs\<close>, \<open>healthcheck.rs\<close>, \<open>source.rs\<close>.
  \<^item> \<open>Updater_Service\<close>: \<open>service.rs\<close>, every operation of the orchestrator in the monad; the health-check
    loop is a \<open>partial_function\<close> and is proved to end.
  \<^item> \<open>Updater_Contract\<close>: the locale \<open>update_host\<close> that combines the adapters' contracts; triples for every
    phase of an install; the step relation of the service and its invariant.
  \<^item> \<open>Updater_Guarantees\<close>: a service wired from the in-memory adapters, and what the service guarantees:
    the running image is never written, a committed image is verified and newer, a rolled-back one
    leaves the previous one in place, and divergence locks the service.

  \<^bold>\<open>High availability (\<open>sng-ha\<close>).\<close>
  \<^item> \<open>Ha_State_Sync\<close>: \<open>error.rs\<close>, \<open>state_sync.rs\<close>: the fencing gate, the bounded queue, framing, and both
    pumps. The locales \<open>byte_sink\<close> and \<open>byte_source\<close> say what is relied on of the transport, the predicate
    \<open>codec_round_trips\<close> what of the MessagePack codec. The receive loop may run forever on an endless
    stream (\<open>partial_function\<close>); on every stream that ends it is proved to return.
  \<^item> \<open>Ha_Sync_Concurrency\<close>: the queue used by concurrent producers and pumps, as a step relation whose
    steps are the locked sections, with ghost histories.
  \<^item> \<open>Ha_Vrrp\<close>: \<open>vrrp.rs\<close>: the frame, the timers, the election.
  \<^item> \<open>Ha_Vip\<close>: \<open>health.rs\<close>, \<open>vip.rs\<close>: probes and the registry, the VIP managers; the contract \<open>vip_manager\<close> is
    interpreted by the recording manager, and a sublocale derives it for the shell manager from what
    the \<open>ip\<close> program does (\<open>ip_tool\<close>).
  \<^item> \<open>Ha_Controller\<close>: \<open>lib.rs\<close>: the failover loop as a run over timed events; the locale \<open>ha_member\<close> and
    the invariant of the loop, by triples.
  \<^item> \<open>Ha_Failover\<close>: the loop among the other tasks of its edge and opposite its peer: the address
    follows the role, a promotion fences the predecessor, an unfit Master hands over, a Backup takes
    over.

  \<^bold>\<open>Access (\<open>sng-oidc\<close>, \<open>sng-ztna\<close>).\<close>
  \<^item> \<open>Oidc_Client\<close>, \<open>Oidc_Validation\<close>: \<open>error.rs\<close>, \<open>discovery.rs\<close>, \<open>validation.rs\<close>: discovery and key sets with
    their caches, and the checks of an ID token with one refresh after a key rotation.
  \<^item> \<open>Oidc_Session\<close>: \<open>token.rs\<close>, \<open>session.rs\<close>, \<open>storage.rs\<close>: grants, and a shared session whose callers
    contend for the refresh lock, as a step relation.
  \<^item> \<open>Ztna_Policy\<close>: \<open>request.rs\<close>, \<open>device.rs\<close>, \<open>identity.rs\<close>, \<open>app.rs\<close>, \<open>policy.rs\<close>: postures, conditions and the
    evaluator, proved equal to the first failing gate.
  \<^item> \<open>Ztna_Service\<close>: \<open>service.rs\<close>, \<open>stats.rs\<close> and the provider tables: the evaluation path with its counters and
    events; the identity table under concurrent updates.
  \<^item> \<open>Ztna_Session\<close>: \<open>session.rs\<close>: the sharded tracker with its device index, which refines a flat map.
  \<^item> \<open>Ztna_Reeval\<close>, \<open>Ztna_Continuous\<close>: \<open>reeval.rs\<close>: sweeps alone, and among concurrent admissions and policy
    changes: which removals are justified, and the one that is not.
  \<^item> \<open>Ztna_Oidc\<close>: \<open>oidc_identity.rs\<close>: from a token to an identity of the requesting tenant.
  \<^item> \<open>Ztna_Clientless\<close>: \<open>clientless.rs\<close>: browser sessions, cookies, and exactly which requests are proxied.

  \<^bold>\<open>Control plane (\<open>sng-comms\<close>, \<open>sng-edge\<close>).\<close>
  \<^item> \<open>Comms_Spool\<close>: \<open>spool.rs\<close>, \<open>ack.rs\<close>, \<open>backoff.rs\<close>: the bounded spool, the sequence tracker, the backoff.
  \<^item> \<open>Comms_Batch\<close>: \<open>batch.rs\<close> and the envelope of \<open>sng-core/src/envelope.rs\<close>: the builder loses nothing, keeps
    its limits, and holds no event longer than the interval.
  \<^item> \<open>Comms_Client\<close>: \<open>error.rs\<close>, \<open>client.rs\<close>: errors, dial addresses, requests and bounded responses.
  \<^item> \<open>Comms_Telemetry\<close>: \<open>telemetry.rs\<close>: submitters, ticks, the seal lock and the flusher as a step relation with
    ghost histories; every event is accounted for and echoed acknowledgements are accepted.
  \<^item> \<open>Comms_Policy\<close>: \<open>policy.rs\<close>: trust store, entity tags, verification of a response, and concurrent pulls.
  \<^item> \<open>Edge_Policy\<close>: \<open>subsystems/comms.rs\<close>, \<open>subsystems/policy_eval.rs\<close> and the publisher of \<open>supervisor.rs\<close>: the
    loop that pulls and swaps, composed of the puller, the backoff and the engine.

  \<^bold>\<open>Bounds and fuel.\<close> No definition uses fuel. Timers are proved free of panics for advertisement
  intervals up to \<open>2 ^ 50\<close> ns and clocks up to \<open>2 ^ 62\<close> s; the counters wrap at 64 bits as in the code; the
  fencing epochs are treated up to the saturating value, which the statements exclude where the code
  cannot tell the top two apart; batch sequence numbers are treated up to \<open>2 ^ 64\<close>, where the tracker
  saturates.

  \<^bold>\<open>Concurrency.\<close> The compare-and-swap loops, the queue, the order of divergence check and install
  lock, re-evaluation, the refresh lock, telemetry egress and concurrent pulls are modelled with their
  interleavings. Atomics are sequentially consistent in the model; an
  \<open>async\<close> function runs to completion between the points at which its theory lets others run.

  \<^bold>\<open>Not modelled.\<close> Third-party code is a parameter: Ed25519, SHA-256, MessagePack, JSON, URLs,
  JWT signatures, Base64, zstd, HTTP and HTTP/2, \<open>ipnet\<close>, hash functions, randomness, tokio's streams and
  timers, \<open>socket2\<close>, and the \<open>ip\<close> and \<open>arping\<close> programs. Logging is left out, as are the handshakes of
  \<open>sng-comms\<close> (TCP, TLS, device certificates), the firewall compilation the publisher starts after a swap,
  and the MessagePack timestamp extension of the envelope. The remaining crates are listed with the reason
  in the manifest: the inspection plane (\<open>sng-swg\<close>, \<open>sng-dlp\<close>, \<open>sng-ips\<close>), the packet plane (\<open>sng-fw\<close>,
  \<open>sng-ebpf\<close>, \<open>sng-sdwan\<close>, \<open>sng-dns\<close>, \<open>sng-appid\<close>), the event sources of \<open>sng-telemetry\<close> and \<open>sng-dem\<close>, the rest
  of the binaries, the mobile shells, and the Go control plane. The manifest's map lists the principal
  definitions; some constants, accessors and parts of a mapped function are not listed separately.
\<close>

end
